theory Spec2Isabelle
  imports
    Complex_Main
    "HOL-Library.AList"
    "HOL-Library.Extended_Nat"
    "HOL-Library.Signed_Division"
begin

section \<open>PolyPaste: duplication, translation and layout QA\<close>

text \<open>
  A shallow embedding of the PolyPaste plugin: \<^verbatim>\<open>duplicate.ts\<close> (scanning, cloning,
  placement, text-node mapping, applying translations), \<^verbatim>\<open>qa.ts\<close> (layout checks),
  \<^verbatim>\<open>translate.ts\<close> (retry loop, shortening), \<^verbatim>\<open>code.ts\<close> (the controller's message
  handler) and \<^verbatim>\<open>ui.ts\<close> (starting and cancelling a run, the translation queue, the
  UI's message handler, rewriting shorter).

  Conventions of the embedding.
  \<^item> A JavaScript \<^verbatim>\<open>number\<close> that holds a pixel measure is a \<^typ>\<open>real\<close>: the model
    covers finite numbers, and writes out separately the places where the source can
    produce \<^verbatim>\<open>NaN\<close> or \<^verbatim>\<open>Infinity\<close> (a division by zero).
  \<^item> A \<^verbatim>\<open>Map\<close> and a \<^verbatim>\<open>Record\<close> are association lists in insertion order; \<^verbatim>\<open>set\<close> on
    a present key replaces the value in place (\<^const>\<open>AList.update\<close>).
  \<^item> The Figma document is the host. A node's \<^verbatim>\<open>children\<close> are the subtrees of a
    datatype, its \<^verbatim>\<open>parent\<close> chain is a list carried by the text node (nearest
    ancestor first), and the host's reaction to a property write is written out in
    the section on the host.
  \<^item> The two modules exchange messages through two queues, handled in the order of
    posting. A handler runs to its first \<^verbatim>\<open>await\<close> when its message is taken up; what
    follows the \<^verbatim>\<open>await\<close> is a step of its own.
\<close>

subsection \<open>Data model (types.ts)\<close>

record language =
  code :: string
  name :: string
  nativeName :: string
  isRTL :: bool

datatype layoutModeSetting = row | wrap | column

datatype labelFormat = iso | english | native

text \<open>The fields of \<^verbatim>\<open>PluginSettings\<close> that the modelled functions read.\<close>

record pluginSettings =
  apiKey :: string
  layoutMode :: layoutModeSetting
  gap :: real
  wrapColumns :: int
  showLabels :: bool
  autoRTL :: bool
  setDirectionRTL :: bool
  mirrorLayout :: bool
  allowFontFallback :: bool
  selectedLanguages :: "string list"

datatype autoResize = NONE | WIDTH_AND_HEIGHT | HEIGHT | TRUNCATE

datatype alignHorizontal = LEFT | CENTER | RIGHT | JUSTIFIED

text \<open>
  \<^verbatim>\<open>TextEntry\<close>, without \<^verbatim>\<open>isLabelLike\<close> and \<^verbatim>\<open>fontName\<close>: no modelled function reads
  them.
\<close>

record textEntry =
  entryId :: string
  nodeId :: string
  nodeName :: string
  entryCharacters :: string
  entryFontSize :: real
  entryWidth :: real
  entryHeight :: real
  entryTextAutoResize :: autoResize
  entryTextAlignHorizontal :: alignHorizontal
  entryLineHeight :: real

datatype severity = green | amber | red

datatype issueType = text_overflow | container_overflow | font_load

record qaIssue =
  issueSeverity :: severity
  issueKind :: issueType
  issueNodeId :: string
  issueNodeName :: string
  message :: string

record qaReport =
  langCode :: string
  langName :: string
  status :: severity
  issues :: "qaIssue list"
  issueEntryIds :: "string list"
  amberIssues :: nat
  redIssues :: nat

text \<open>\<^verbatim>\<open>LangStatus\<close>; the constructors are the source's tags, capitalised.\<close>

datatype langStatus =
  Pending | Duplicating | Translating | Applying | Qa | Done | Error | Cancelled

record langProgress =
  progressLangCode :: string
  progressLangName :: string
  progressStatus :: langStatus
  detail :: "string option"
  progressReport :: "qaReport option"

subsection \<open>The host's document model\<close>

datatype nodeType =
  TEXT | FRAME | COMPONENT | INSTANCE | GROUP | SECTION | PAGE | DOCUMENT | OTHER

datatype frameLayoutMode = LM_NONE | HORIZONTAL | VERTICAL | GRID

datatype sizingMode = FIXED | AUTO

record rect =
  rectX :: real
  rectY :: real
  rectWidth :: real
  rectHeight :: real

text \<open>
  A node of a parent chain, with what \<^verbatim>\<open>checkParentOverflow\<close>, \<^verbatim>\<open>isFixedOnAxis\<close> and
  \<^verbatim>\<open>isInLockedChain\<close> read of it. \<open>baseLocked\<close> is \<open>None\<close> for a node without a
  \<^verbatim>\<open>locked\<close> property (a page, the document); \<open>baseLayoutMode\<close> is \<open>None\<close> for a
  node without \<^verbatim>\<open>layoutMode\<close>.
\<close>

record baseNode =
  baseType :: nodeType
  baseName :: string
  baseLocked :: "bool option"
  baseBounds :: "rect option"
  baseLayoutMode :: "frameLayoutMode option"
  primaryAxisSizingMode :: sizingMode
  counterAxisSizingMode :: sizingMode

datatype lineHeightValue = LH_MIXED | LH_PIXELS real | LH_PERCENT real | LH_AUTO

text \<open>A font is a family and a style. A node's \<^verbatim>\<open>fontName\<close> is one font, or
  \<^verbatim>\<open>figma.mixed\<close> with the font of each character.\<close>

type_synonym font = "string \<times> string"

datatype fontNameValue = FN_MIXED "font list" | FN_SINGLE font

text \<open>
  A text node. \<open>fontSize\<close> is \<open>None\<close> for \<^verbatim>\<open>figma.mixed\<close>; \<open>parents\<close> is the chain
  \<^verbatim>\<open>node.parent\<close>, \<^verbatim>\<open>node.parent.parent\<close>, ... up to the root. The last four fields are
  the host's side of the node: whether its fonts are loaded (the host refuses a write
  to a text node otherwise), the height the host gives the text at the node's width
  when the height floats, and the size it gives when both float.
\<close>

record textNode =
  textId :: string
  textName :: string
  characters :: string
  locked :: bool
  fontSize :: "real option"
  lineHeight :: lineHeightValue
  fontName :: fontNameValue
  x :: real
  y :: real
  width :: real
  height :: real
  textAutoResize :: autoResize
  textAlignHorizontal :: alignHorizontal
  paragraphDirectionRTL :: bool
  absoluteBoundingBox :: "rect option"
  parents :: "baseNode list"
  fontLoaded :: bool
  hugHeight :: real
  hugWidthBoth :: real
  hugHeightBoth :: real

text \<open>What the placement reads and writes of a node that is not a text node.\<close>

record nodeInfo =
  infoId :: string
  infoName :: string
  infoType :: nodeType
  infoX :: real
  infoY :: real
  infoWidth :: real
  infoHeight :: real
  infoLayoutMode :: "frameLayoutMode option"

text \<open>
  A subtree: a text node has no \<^verbatim>\<open>children\<close>; any other node has its list of
  children, empty for a node without the property (the loops over \<^verbatim>\<open>children\<close> do
  nothing in both cases).
\<close>

datatype sceneNode = TextLeaf textNode | Inner nodeInfo "sceneNode list"

subsection \<open>Collecting text nodes and placing a clone (duplicate.ts)\<close>

fun collectTextNodes :: "sceneNode \<Rightarrow> textNode list" where
  "collectTextNodes (TextLeaf tn) = [tn]"
| "collectTextNodes (Inner info children) = concat (map collectTextNodes children)"

text \<open>
  The \<^verbatim>\<open>switch (layoutMode)\<close> of \<^verbatim>\<open>duplicateAndPlace\<close>: the clone's \<open>(x, y)\<close> from the
  language index, the original's \<open>(x, y, width, height)\<close>, the gap and the number of
  wrap columns. \<^verbatim>\<open>langIndex % wrapColumns\<close> is the remainder that takes the sign of
  the dividend (\<open>smod\<close>). With \<open>wrapColumns = 0\<close> the source computes \<^verbatim>\<open>NaN\<close>, which
  is \<open>None\<close> here.
\<close>

definition placement ::
  "layoutModeSetting \<Rightarrow> nat \<Rightarrow> real \<Rightarrow> real \<Rightarrow> real \<Rightarrow> real \<Rightarrow> real \<Rightarrow> int \<Rightarrow> (real \<times> real) option"
where
  "placement mode langIndex ox oy ow oh g cols =
     (case mode of
        row \<Rightarrow> Some (ox + (real langIndex + 1) * (ow + g), oy)
      | column \<Rightarrow> Some (ox, oy + (real langIndex + 1) * (oh + g))
      | wrap \<Rightarrow>
          if cols = 0 then None
          else
            let col = int langIndex smod cols;
                row = \<lfloor>real langIndex / real_of_int cols\<rfloor>
            in Some (ox + (real_of_int col + 1) * (ow + g),
                     oy + real_of_int row * (oh + g)))"

fun nodeX :: "sceneNode \<Rightarrow> real" where
  "nodeX (TextLeaf tn) = x tn"
| "nodeX (Inner info children) = infoX info"

fun nodeY :: "sceneNode \<Rightarrow> real" where
  "nodeY (TextLeaf tn) = y tn"
| "nodeY (Inner info children) = infoY info"

fun nodeWidth :: "sceneNode \<Rightarrow> real" where
  "nodeWidth (TextLeaf tn) = width tn"
| "nodeWidth (Inner info children) = infoWidth info"

fun nodeHeight :: "sceneNode \<Rightarrow> real" where
  "nodeHeight (TextLeaf tn) = height tn"
| "nodeHeight (Inner info children) = infoHeight info"

fun nodeName_of :: "sceneNode \<Rightarrow> string" where
  "nodeName_of (TextLeaf tn) = textName tn"
| "nodeName_of (Inner info children) = infoName info"

fun setName :: "string \<Rightarrow> sceneNode \<Rightarrow> sceneNode" where
  "setName n (TextLeaf tn) = TextLeaf (tn\<lparr>textName := n\<rparr>)"
| "setName n (Inner info children) = Inner (info\<lparr>infoName := n\<rparr>) children"

fun setPosition :: "real \<Rightarrow> real \<Rightarrow> sceneNode \<Rightarrow> sceneNode" where
  "setPosition cx cy (TextLeaf tn) = TextLeaf (tn\<lparr>x := cx, y := cy\<rparr>)"
| "setPosition cx cy (Inner info children) = Inner (info\<lparr>infoX := cx, infoY := cy\<rparr>) children"

text \<open>
  The loop that builds the text-node map: for each index below both lengths, the
  first scan entry whose \<^verbatim>\<open>nodeId\<close> is the original text node's id, if there is one,
  gives the key under which the clone's text node at that index is stored.
\<close>

definition mapStep ::
  "textEntry list \<Rightarrow> textNode \<times> textNode \<Rightarrow> (string \<times> textNode) list \<Rightarrow> (string \<times> textNode) list"
where
  "mapStep originalEntries p m =
     (case find (\<lambda>e. nodeId e = textId (fst p)) originalEntries of
        None \<Rightarrow> m
      | Some entry \<Rightarrow> AList.update (entryId entry) (snd p) m)"

definition buildTextNodeMap ::
  "textEntry list \<Rightarrow> textNode list \<Rightarrow> textNode list \<Rightarrow> (string \<times> textNode) list"
where
  "buildTextNodeMap originalEntries origTexts cloneTexts =
     fold (mapStep originalEntries) (zip origTexts cloneTexts) []"

text \<open>The separator of the clone's name: an en dash between two spaces, in UTF-8.\<close>

definition enDash :: string where
  "enDash = [CHR '' '', CHR 0xE2, CHR 0x80, CHR 0x93, CHR '' '']"

text \<open>
  \<^verbatim>\<open>duplicateAndPlace\<close>. \<open>cloned\<close> is what the host's \<^verbatim>\<open>original.clone()\<close> returned. The
  result is the placed clone and the text-node map; appending the clone to the
  original's parent changes the parent only, which the result does not hold.
\<close>

definition duplicateAndPlace ::
  "sceneNode \<Rightarrow> sceneNode \<Rightarrow> nat \<Rightarrow> language \<Rightarrow> pluginSettings \<Rightarrow> textEntry list
     \<Rightarrow> (sceneNode \<times> (string \<times> textNode) list) option"
where
  "duplicateAndPlace original cloned langIndex lang settings originalEntries =
     (let named = setName (nodeName_of original @ enDash @ name lang @ '' ('' @ code lang @ '')'')
                    cloned
      in case placement (layoutMode settings) langIndex (nodeX original) (nodeY original)
                (nodeWidth original) (nodeHeight original) (gap settings) (wrapColumns settings) of
           None \<Rightarrow> None
         | Some (cx, cy) \<Rightarrow>
             let clone = setPosition cx cy named;
                 origTexts = collectTextNodes original;
                 cloneTexts = collectTextNodes clone
             in Some (clone, buildTextNodeMap originalEntries origTexts cloneTexts))"

subsection \<open>Scanning (duplicate.ts)\<close>

text \<open>\<^verbatim>\<open>isInLockedChain\<close>: the node itself, then its parents while they have \<^verbatim>\<open>locked\<close>.\<close>

fun lockedChain :: "baseNode list \<Rightarrow> bool" where
  "lockedChain [] = False"
| "lockedChain (p # ps) =
     (case baseLocked p of
        None \<Rightarrow> False
      | Some l \<Rightarrow> if l then True else lockedChain ps)"

definition isInLockedChain :: "textNode \<Rightarrow> bool" where
  "isInLockedChain tn = (if locked tn then True else lockedChain (parents tn))"

text \<open>
  \<^verbatim>\<open>!tn.characters.trim()\<close>: the text is empty once its white space is trimmed, that
  is, it consists of white space only. A string is its UTF-8 bytes here, so the white
  space of \<^verbatim>\<open>trim\<close> is given by its encodings: the ASCII characters tab, line feed,
  vertical tab, form feed, carriage return and space, and U+00A0, U+1680, U+2000 to
  U+200A, U+2028, U+2029, U+202F, U+205F, U+3000 and U+FEFF.
\<close>

definition whitespaceEncodings :: "string list" where
  "whitespaceEncodings =
     [[CHR 0x09], [CHR 0x0A], [CHR 0x0B], [CHR 0x0C], [CHR 0x0D], [CHR 0x20],
      [CHR 0xC2, CHR 0xA0],
      [CHR 0xE1, CHR 0x9A, CHR 0x80],
      [CHR 0xE2, CHR 0x80, CHR 0x80], [CHR 0xE2, CHR 0x80, CHR 0x81],
      [CHR 0xE2, CHR 0x80, CHR 0x82], [CHR 0xE2, CHR 0x80, CHR 0x83],
      [CHR 0xE2, CHR 0x80, CHR 0x84], [CHR 0xE2, CHR 0x80, CHR 0x85],
      [CHR 0xE2, CHR 0x80, CHR 0x86], [CHR 0xE2, CHR 0x80, CHR 0x87],
      [CHR 0xE2, CHR 0x80, CHR 0x88], [CHR 0xE2, CHR 0x80, CHR 0x89],
      [CHR 0xE2, CHR 0x80, CHR 0x8A],
      [CHR 0xE2, CHR 0x80, CHR 0xA8], [CHR 0xE2, CHR 0x80, CHR 0xA9],
      [CHR 0xE2, CHR 0x80, CHR 0xAF],
      [CHR 0xE2, CHR 0x81, CHR 0x9F],
      [CHR 0xE3, CHR 0x80, CHR 0x80],
      [CHR 0xEF, CHR 0xBB, CHR 0xBF]]"

text \<open>The number of bytes of the white-space character a string begins with, or 0.\<close>

definition whitespacePrefix :: "string \<Rightarrow> nat" where
  "whitespacePrefix s =
     (case find (\<lambda>w. take (length w) s = w) whitespaceEncodings of
        None \<Rightarrow> 0
      | Some w \<Rightarrow> length w)"

function trimIsEmpty :: "string \<Rightarrow> bool" where
  "trimIsEmpty s =
     (if s = [] then True
      else if whitespacePrefix s = 0 then False
      else trimIsEmpty (drop (whitespacePrefix s) s))"
  by pat_completeness auto
termination
  by (relation "measure length") auto

declare trimIsEmpty.simps [simp del]

text \<open>The decimal digits of an index, as the template literal \<^verbatim>\<open>`t${idx++}`\<close> prints it.\<close>

definition digitChar :: "nat \<Rightarrow> char" where
  "digitChar d = char_of (48 + d)"

fun string_of_nat :: "nat \<Rightarrow> string" where
  "string_of_nat n =
     (if n < 10 then [digitChar n] else string_of_nat (n div 10) @ [digitChar (n mod 10)])"

declare string_of_nat.simps [simp del]

definition entryIdOf :: "nat \<Rightarrow> string" where
  "entryIdOf k = CHR ''t'' # string_of_nat k"

definition resolveLineHeight :: "textNode \<Rightarrow> real" where
  "resolveLineHeight node =
     (let fallbackFs = (case fontSize node of Some f \<Rightarrow> f | None \<Rightarrow> 14)
      in case lineHeight node of
           LH_MIXED \<Rightarrow> fallbackFs * 1.2
         | LH_PIXELS v \<Rightarrow> v
         | LH_PERCENT v \<Rightarrow> fallbackFs * (v / 100)
         | LH_AUTO \<Rightarrow> fallbackFs * 1.2)"

text \<open>The object literal that \<^verbatim>\<open>walk\<close> pushes for a translatable text node.\<close>

definition entryOf :: "nat \<Rightarrow> textNode \<Rightarrow> textEntry" where
  "entryOf k tn =
     \<lparr>entryId = entryIdOf k,
      nodeId = textId tn,
      nodeName = textName tn,
      entryCharacters = characters tn,
      entryFontSize = (case fontSize tn of Some f \<Rightarrow> f | None \<Rightarrow> 14),
      entryWidth = width tn,
      entryHeight = height tn,
      entryTextAutoResize = textAutoResize tn,
      entryTextAlignHorizontal = textAlignHorizontal tn,
      entryLineHeight = resolveLineHeight tn\<rparr>"

record scanState =
  entries :: "textEntry list"
  totalTextNodes :: nat
  skippedEmpty :: nat
  skippedLocked :: nat
  idx :: nat

fun scanWalk :: "sceneNode \<Rightarrow> scanState \<Rightarrow> scanState" where
  "scanWalk (TextLeaf tn) st =
     (let st1 = st\<lparr>totalTextNodes := totalTextNodes st + 1\<rparr>
      in if trimIsEmpty (characters tn) then st1\<lparr>skippedEmpty := skippedEmpty st1 + 1\<rparr>
         else if isInLockedChain tn then st1\<lparr>skippedLocked := skippedLocked st1 + 1\<rparr>
         else st1\<lparr>entries := entries st1 @ [entryOf (idx st1) tn], idx := idx st1 + 1\<rparr>)"
| "scanWalk (Inner info children) st = fold scanWalk children st"

text \<open>\<^verbatim>\<open>scanTextNodes\<close>: the result is the final state of the walk (the source returns
  its first four fields).\<close>

definition scanTextNodes :: "sceneNode \<Rightarrow> scanState" where
  "scanTextNodes rootNode =
     scanWalk rootNode
       \<lparr>entries = [], totalTextNodes = 0, skippedEmpty = 0, skippedLocked = 0, idx = 0\<rparr>"

text \<open>
  A text node is translatable when the scan keeps it: it is not empty after trimming
  and no node of its locked chain is locked.
\<close>

definition translatable :: "textNode \<Rightarrow> bool" where
  "translatable tn = (\<not> trimIsEmpty (characters tn) \<and> \<not> isInLockedChain tn)"

text \<open>
  The entries a scan adds for a depth-first list of text nodes when its counter stands
  at \<open>k\<close>: one entry per translatable node, numbered from \<open>k\<close>. (That the walk
  computes this list is lemma \<open>scanWalk_scanned\<close>.)
\<close>

definition scanned :: "nat \<Rightarrow> textNode list \<Rightarrow> textEntry list" where
  "scanned k ts = map (\<lambda>(i, t). entryOf i t) (List.enumerate k (filter translatable ts))"

subsection \<open>Example documents\<close>

definition exText :: "string \<Rightarrow> string \<Rightarrow> textNode" where
  "exText i c =
     \<lparr>textId = i, textName = ''Label'', characters = c, locked = False,
      fontSize = Some 16, lineHeight = LH_AUTO, fontName = FN_SINGLE (''Inter'', ''Bold''),
      x = 0, y = 0, width = 100, height = 20,
      textAutoResize = HEIGHT, textAlignHorizontal = LEFT, paragraphDirectionRTL = False,
      absoluteBoundingBox = None, parents = [], fontLoaded = True,
      hugHeight = 20, hugWidthBoth = 100, hugHeightBoth = 20\<rparr>"

definition exFrame :: "string \<Rightarrow> nodeInfo" where
  "exFrame i =
     \<lparr>infoId = i, infoName = ''Card'', infoType = FRAME,
      infoX = 10, infoY = 20, infoWidth = 200, infoHeight = 100,
      infoLayoutMode = Some LM_NONE\<rparr>"

text \<open>A no-break space, U+00A0.\<close>

definition nbsp :: string where
  "nbsp = [CHR 0xC2, CHR 0xA0]"

text \<open>A card with a title and a text node that holds two spaces only.\<close>

definition exOriginal :: sceneNode where
  "exOriginal =
     Inner (exFrame ''1:1'') [TextLeaf (exText ''1:2'' ''Hello''), TextLeaf (exText ''1:3'' ''  '')]"

definition exClone :: sceneNode where
  "exClone =
     Inner (exFrame ''2:1'') [TextLeaf (exText ''2:2'' ''Hello''), TextLeaf (exText ''2:3'' ''  '')]"

text \<open>A card with a text node that holds a no-break space only, and a title.\<close>

definition exOriginal3 :: sceneNode where
  "exOriginal3 =
     Inner (exFrame ''1:1'') [TextLeaf (exText ''1:2'' nbsp), TextLeaf (exText ''1:3'' ''Hello'')]"

definition exClone3 :: sceneNode where
  "exClone3 =
     Inner (exFrame ''2:1'') [TextLeaf (exText ''2:2'' nbsp), TextLeaf (exText ''2:3'' ''Hello'')]"

text \<open>A card whose two text nodes are both translatable, the second one nested.\<close>

definition exOriginal2 :: sceneNode where
  "exOriginal2 =
     Inner (exFrame ''1:1'')
       [TextLeaf (exText ''1:2'' ''Hello''),
        Inner (exFrame ''1:3'') [TextLeaf (exText ''1:4'' ''World'')]]"

definition exClone2 :: sceneNode where
  "exClone2 =
     Inner (exFrame ''2:1'')
       [TextLeaf (exText ''2:2'' ''Hello''),
        Inner (exFrame ''2:3'') [TextLeaf (exText ''2:4'' ''World'')]]"

definition exLanguage :: language where
  "exLanguage = \<lparr>code = ''de'', name = ''German'', nativeName = ''Deutsch'', isRTL = False\<rparr>"

definition exSettings :: "layoutModeSetting \<Rightarrow> pluginSettings" where
  "exSettings mode =
     \<lparr>apiKey = ''sk-example'', layoutMode = mode, gap = 80, wrapColumns = 3,
      showLabels = True, autoRTL = True, setDirectionRTL = True, mirrorLayout = False,
      allowFontFallback = True, selectedLanguages = [''de'']\<rparr>"

subsection \<open>The host's reaction to writes on a text node\<close>

text \<open>
  The host refuses a write to a text node whose fonts are not loaded (the write
  throws, \<open>None\<close> here, and the node is unchanged). Otherwise, setting
  \<^verbatim>\<open>textAutoResize\<close> to \<^verbatim>\<open>HEIGHT\<close> makes the height float: the node takes the height
  its text needs at its width. Setting it to \<^verbatim>\<open>WIDTH_AND_HEIGHT\<close> makes both float;
  \<^verbatim>\<open>NONE\<close> and \<^verbatim>\<open>TRUNCATE\<close> keep the box as it is. \<^verbatim>\<open>resize\<close> sets width and height.
\<close>

definition host_setTextAutoResize :: "autoResize \<Rightarrow> textNode \<Rightarrow> textNode option" where
  "host_setTextAutoResize m tn =
     (if \<not> fontLoaded tn then None
      else Some (case m of
             HEIGHT \<Rightarrow> tn\<lparr>height := hugHeight tn, textAutoResize := HEIGHT\<rparr>
           | WIDTH_AND_HEIGHT \<Rightarrow>
               tn\<lparr>width := hugWidthBoth tn, height := hugHeightBoth tn,
                  textAutoResize := WIDTH_AND_HEIGHT\<rparr>
           | NONE \<Rightarrow> tn\<lparr>textAutoResize := NONE\<rparr>
           | TRUNCATE \<Rightarrow> tn\<lparr>textAutoResize := TRUNCATE\<rparr>))"

definition host_resize :: "real \<Rightarrow> real \<Rightarrow> textNode \<Rightarrow> textNode option" where
  "host_resize w h tn =
     (if \<not> fontLoaded tn then None else Some (tn\<lparr>width := w, height := h\<rparr>))"

subsection \<open>Measuring the needed height (qa.ts)\<close>

text \<open>
  The two restoring statements of \<^verbatim>\<open>measureNeededHeight\<close>, which occur in its \<^verbatim>\<open>try\<close>
  block and again in its \<^verbatim>\<open>catch\<close> block: the node they leave, and whether they
  completed without throwing.
\<close>

definition restoreState :: "autoResize \<Rightarrow> real \<Rightarrow> real \<Rightarrow> textNode \<Rightarrow> textNode \<times> bool" where
  "restoreState origResize origWidth origHeight tn =
     (case host_setTextAutoResize origResize tn of
        None \<Rightarrow> (tn, False)
      | Some t1 \<Rightarrow>
          if origResize = NONE \<or> origResize = TRUNCATE
          then (case host_resize origWidth origHeight t1 of
                  None \<Rightarrow> (t1, False)
                | Some t2 \<Rightarrow> (t2, True))
          else (t1, True))"

text \<open>\<^verbatim>\<open>measureNeededHeight\<close>: the height returned and the node as the call leaves it.\<close>

definition measureNeededHeight :: "textNode \<Rightarrow> real \<times> textNode" where
  "measureNeededHeight textNode =
     (let origWidth = width textNode;
          origHeight = height textNode;
          origResize = textAutoResize textNode
      in if origResize = HEIGHT then (height textNode, textNode)
         else
           case host_setTextAutoResize HEIGHT textNode of
             None \<Rightarrow>
               (origHeight, fst (restoreState origResize origWidth origHeight textNode))
           | Some t1 \<Rightarrow>
               let neededHeight = height t1;
                   r = restoreState origResize origWidth origHeight t1
               in if snd r then (neededHeight, fst r)
                  else (origHeight, fst (restoreState origResize origWidth origHeight (fst r))))"

subsection \<open>Ancestor overflow (qa.ts)\<close>

datatype axis = horizontal | vertical

definition isFrameLike :: "baseNode \<Rightarrow> bool" where
  "isFrameLike node =
     (baseType node = FRAME \<or> baseType node = COMPONENT \<or> baseType node = INSTANCE)"

definition isFixedOnAxis :: "baseNode \<Rightarrow> axis \<Rightarrow> bool" where
  "isFixedOnAxis frame ax =
     (case baseLayoutMode frame of
        None \<Rightarrow> True
      | Some LM_NONE \<Rightarrow> True
      | Some HORIZONTAL \<Rightarrow>
          if ax = horizontal then primaryAxisSizingMode frame = FIXED
          else counterAxisSizingMode frame = FIXED
      | Some _ \<Rightarrow>
          if ax = vertical then primaryAxisSizingMode frame = FIXED
          else counterAxisSizingMode frame = FIXED)"

record overflowCheck =
  overflows :: bool
  parentName :: string

text \<open>The \<^verbatim>\<open>while\<close> loop of \<^verbatim>\<open>checkParentOverflow\<close> over the parent chain.\<close>

fun walkParents :: "rect \<Rightarrow> baseNode list \<Rightarrow> overflowCheck" where
  "walkParents nodeBounds [] = \<lparr>overflows = False, parentName = []\<rparr>"
| "walkParents nodeBounds (current # up) =
     (if baseType current = PAGE \<or> baseType current = DOCUMENT
      then \<lparr>overflows = False, parentName = []\<rparr>
      else if isFrameLike current then
        (case baseBounds current of
           None \<Rightarrow> walkParents nodeBounds up
         | Some fb \<Rightarrow>
             let overflowH = rectX nodeBounds + rectWidth nodeBounds > rectX fb + rectWidth fb + 1;
                 overflowV = rectY nodeBounds + rectHeight nodeBounds > rectY fb + rectHeight fb + 1
             in if overflowH \<and> isFixedOnAxis current horizontal
                then \<lparr>overflows = True, parentName = baseName current\<rparr>
                else if overflowV \<and> isFixedOnAxis current vertical
                then \<lparr>overflows = True, parentName = baseName current\<rparr>
                else walkParents nodeBounds up)
      else walkParents nodeBounds up)"

definition checkParentOverflow :: "textNode \<Rightarrow> overflowCheck" where
  "checkParentOverflow node =
     (case absoluteBoundingBox node of
        None \<Rightarrow> \<lparr>overflows = False, parentName = []\<rparr>
      | Some nodeBounds \<Rightarrow> walkParents nodeBounds (parents node))"

text \<open>
  The ancestors the walk can reach: those before the first page or document node.
  An ancestor offends against a node's bounds when it is frame-like, has bounds, and
  the node's right edge exceeds its right edge by more than 1 while it is fixed
  horizontally, or the node's bottom edge exceeds its bottom edge by more than 1
  while it is fixed vertically.
\<close>

definition reachable :: "baseNode list \<Rightarrow> baseNode list" where
  "reachable ps = takeWhile (\<lambda>p. baseType p \<noteq> PAGE \<and> baseType p \<noteq> DOCUMENT) ps"

definition offends :: "rect \<Rightarrow> baseNode \<Rightarrow> bool" where
  "offends nb a =
     (isFrameLike a \<and>
      (case baseBounds a of
         None \<Rightarrow> False
       | Some fb \<Rightarrow>
           (rectX nb + rectWidth nb > rectX fb + rectWidth fb + 1 \<and> isFixedOnAxis a horizontal)
           \<or> (rectY nb + rectHeight nb > rectY fb + rectHeight fb + 1 \<and> isFixedOnAxis a vertical)))"

subsection \<open>The QA pass (qa.ts)\<close>

text \<open>\<^verbatim>\<open>Math.round\<close> rounds to the nearest integer, a half upwards.\<close>

definition Math_round :: "real \<Rightarrow> int" where
  "Math_round v = \<lfloor>v + 1 / 2\<rfloor>"

text \<open>
  \<^verbatim>\<open>Math.max(1, Math.round(heightDelta / lineHeight))\<close>. The division is by zero when the
  entry has neither a positive line height nor a non-zero font size; the check has
  then established \<open>heightDelta > 4\<close>, so the quotient and the count are \<^verbatim>\<open>Infinity\<close>.
\<close>

definition extraLinesOf :: "real \<Rightarrow> real \<Rightarrow> enat" where
  "extraLinesOf heightDelta lh =
     (if lh = 0 then \<infinity>
      else enat (nat (max 1 (Math_round (heightDelta / lh)))))"

text \<open>The message \<^verbatim>\<open>extraLines === 1 ? 'New line' : `+${extraLines} lines`\<close>.\<close>

definition lineMessage :: "enat \<Rightarrow> string" where
  "lineMessage extraLines =
     (case extraLines of
        enat n \<Rightarrow> if n = 1 then ''New line'' else ''+'' @ string_of_nat n @ '' lines''
      | \<infinity> \<Rightarrow> ''+Infinity lines'')"

text \<open>\<^verbatim>\<open>issueEntryIds.add(id)\<close> on a \<^verbatim>\<open>Set\<close>, kept in insertion order.\<close>

definition setAdd :: "string \<Rightarrow> string list \<Rightarrow> string list" where
  "setAdd k ks = (if k \<in> set ks then ks else ks @ [k])"

record qaAcc =
  accIssues :: "qaIssue list"
  accIds :: "string list"

definition pushIssue :: "string \<Rightarrow> qaIssue \<Rightarrow> qaAcc \<Rightarrow> qaAcc" where
  "pushIssue k i acc = \<lparr>accIssues = accIssues acc @ [i], accIds = setAdd k (accIds acc)\<rparr>"

definition overflowIssue :: "textNode \<Rightarrow> qaIssue" where
  "overflowIssue textNode =
     \<lparr>issueSeverity = red, issueKind = text_overflow, issueNodeId = textId textNode,
      issueNodeName = textName textNode, message = ''Overflow''\<rparr>"

definition lineWrapIssue :: "textNode \<Rightarrow> enat \<Rightarrow> qaIssue" where
  "lineWrapIssue textNode extraLines =
     \<lparr>issueSeverity = amber, issueKind = text_overflow, issueNodeId = textId textNode,
      issueNodeName = textName textNode, message = lineMessage extraLines\<rparr>"

definition containerIssue :: "textNode \<Rightarrow> qaIssue" where
  "containerIssue textNode =
     \<lparr>issueSeverity = red, issueKind = container_overflow, issueNodeId = textId textNode,
      issueNodeName = textName textNode, message = ''Breaks container''\<rparr>"

definition fontIssue :: qaIssue where
  "fontIssue =
     \<lparr>issueSeverity = amber, issueKind = font_load, issueNodeId = [],
      issueNodeName = [], message = ''Missing font''\<rparr>"

text \<open>The line height the checks use for an entry.\<close>

definition qaLineHeight :: "textEntry \<Rightarrow> real" where
  "qaLineHeight original =
     (if entryLineHeight original \<noteq> 0 \<and> entryLineHeight original > 0
      then entryLineHeight original
      else entryFontSize original * 1.4)"

text \<open>Check 2, the line wrap of a node whose mode was read as \<open>resize\<close>.\<close>

definition checkLineWrap :: "string \<Rightarrow> textEntry \<Rightarrow> autoResize \<Rightarrow> textNode \<Rightarrow> qaAcc \<Rightarrow> qaAcc" where
  "checkLineWrap k original resize textNode acc =
     (if resize = HEIGHT then
        let currentHeight = height textNode;
            heightDelta = currentHeight - entryHeight original;
            threshold = max (qaLineHeight original * 0.8) 4
        in if heightDelta > threshold
           then pushIssue k
                  (lineWrapIssue textNode (extraLinesOf heightDelta (qaLineHeight original))) acc
           else acc
      else acc)"

text \<open>Check 3, the fixed-size ancestors.\<close>

definition checkContainer :: "string \<Rightarrow> textNode \<Rightarrow> qaAcc \<Rightarrow> qaAcc" where
  "checkContainer k textNode acc =
     (if overflows (checkParentOverflow textNode)
      then pushIssue k (containerIssue textNode) acc
      else acc)"

text \<open>
  The body of the loop over the text-node map, for one entry \<open>(k, textNode)\<close>: the
  accumulated issues and ids, and the node as the iteration leaves it.
\<close>

definition qaUnit ::
  "(string \<rightharpoonup> textEntry) \<Rightarrow> string \<Rightarrow> textNode \<Rightarrow> qaAcc \<Rightarrow> qaAcc \<times> textNode"
where
  "qaUnit originalMap k textNode acc =
     (if parents textNode = [] then (acc, textNode)
      else case originalMap k of
        None \<Rightarrow> (acc, textNode)
      | Some original \<Rightarrow>
          let resize = textAutoResize textNode
          in if resize = NONE then
               let measured = measureNeededHeight textNode;
                   neededHeight = fst measured;
                   node = snd measured;
                   fixedHeight = height node
               in if neededHeight > fixedHeight + 0.5
                  then (pushIssue k (overflowIssue node) acc, node)
                  else (checkContainer k node (checkLineWrap k original resize node acc), node)
             else (checkContainer k textNode (checkLineWrap k original resize textNode acc),
                   textNode))"

text \<open>The loop: the accumulator, and the map with its nodes as the pass leaves them.\<close>

fun qaLoop ::
  "(string \<rightharpoonup> textEntry) \<Rightarrow> (string \<times> textNode) list \<Rightarrow> qaAcc
     \<Rightarrow> qaAcc \<times> (string \<times> textNode) list"
where
  "qaLoop originalMap [] acc = (acc, [])"
| "qaLoop originalMap ((k, textNode) # rest) acc =
     (let u = qaUnit originalMap k textNode acc;
          r = qaLoop originalMap rest (fst u)
      in (fst r, (k, snd u) # snd r))"

definition buildOriginalMap :: "textEntry list \<Rightarrow> (string \<rightharpoonup> textEntry)" where
  "buildOriginalMap originalEntries =
     fold (\<lambda>entry m. m(entryId entry \<mapsto> entry)) originalEntries Map.empty"

text \<open>
  \<^verbatim>\<open>runQA\<close>: the report, and the text-node map as the pass leaves it (the nodes are
  live handles, which the measurement writes to).
\<close>

definition runQA ::
  "(string \<times> textNode) list \<Rightarrow> textEntry list \<Rightarrow> language \<Rightarrow> string list
     \<Rightarrow> qaReport \<times> (string \<times> textNode) list"
where
  "runQA textNodeMap originalEntries lang fontErrors =
     (let originalMap = buildOriginalMap originalEntries;
          looped = qaLoop originalMap textNodeMap \<lparr>accIssues = [], accIds = []\<rparr>;
          allIssues = accIssues (fst looped) @ map (\<lambda>fontErr. fontIssue) fontErrors;
          redCount = length (filter (\<lambda>i. issueSeverity i = red) allIssues);
          amberCount = length (filter (\<lambda>i. issueSeverity i = amber) allIssues);
          st = (if redCount > 0 then red else if amberCount > 0 then amber else green)
      in (\<lparr>langCode = code lang, langName = name lang, status = st, issues = allIssues,
           issueEntryIds = accIds (fst looped), amberIssues = amberCount,
           redIssues = redCount\<rparr>,
          snd looped))"

subsection \<open>Example nodes for the QA checks\<close>

definition exCard :: baseNode where
  "exCard =
     \<lparr>baseType = FRAME, baseName = ''Card'', baseLocked = Some False,
      baseBounds = Some \<lparr>rectX = 0, rectY = 0, rectWidth = 200, rectHeight = 100\<rparr>,
      baseLayoutMode = Some LM_NONE,
      primaryAxisSizingMode = AUTO, counterAxisSizingMode = AUTO\<rparr>"

text \<open>A horizontal auto-layout row that hugs its content on both axes.\<close>

definition exRow :: baseNode where
  "exRow =
     \<lparr>baseType = FRAME, baseName = ''Row'', baseLocked = Some False,
      baseBounds = Some \<lparr>rectX = 10, rectY = 10, rectWidth = 80, rectHeight = 20\<rparr>,
      baseLayoutMode = Some HORIZONTAL,
      primaryAxisSizingMode = AUTO, counterAxisSizingMode = AUTO\<rparr>"

definition exPage :: baseNode where
  "exPage =
     \<lparr>baseType = PAGE, baseName = ''Page 1'', baseLocked = None, baseBounds = None,
      baseLayoutMode = None, primaryAxisSizingMode = AUTO, counterAxisSizingMode = AUTO\<rparr>"

text \<open>A text node in the row, at the given bounds.\<close>

definition exPlaced :: "real \<Rightarrow> real \<Rightarrow> real \<Rightarrow> real \<Rightarrow> textNode" where
  "exPlaced bx by bw bh =
     (exText ''2:2'' ''Hallo'')
       \<lparr>width := bw, height := bh,
        absoluteBoundingBox := Some \<lparr>rectX = bx, rectY = by, rectWidth = bw, rectHeight = bh\<rparr>,
        parents := [exRow, exCard, exPage]\<rparr>"

text \<open>A scan entry of height \<open>h\<close> and line height \<open>lh\<close>, under the id \<open>t0\<close>.\<close>

definition exEntry :: "real \<Rightarrow> real \<Rightarrow> textEntry" where
  "exEntry h lh =
     \<lparr>entryId = ''t0'', nodeId = ''1:2'', nodeName = ''Label'', entryCharacters = ''Hello'',
      entryFontSize = 16, entryWidth = 100, entryHeight = h, entryTextAutoResize = HEIGHT,
      entryTextAlignHorizontal = LEFT, entryLineHeight = lh\<rparr>"

text \<open>A fixed box of height 40 in the card, whose text needs the height \<open>h\<close>.\<close>

definition exFixedBox :: "real \<Rightarrow> textNode" where
  "exFixedBox h =
     (exText ''2:2'' ''Hallo Welt'')
       \<lparr>height := 40, textAutoResize := NONE,
        absoluteBoundingBox := Some \<lparr>rectX = 10, rectY = 10, rectWidth = 100, rectHeight = 40\<rparr>,
        parents := [exCard, exPage], hugHeight := h\<rparr>"

text \<open>A text node of the given mode in the card, whose height is \<open>h\<close>.\<close>

definition exFlowing :: "autoResize \<Rightarrow> real \<Rightarrow> textNode" where
  "exFlowing mode h =
     (exText ''2:2'' ''Hallo Welt'')
       \<lparr>height := h, textAutoResize := mode,
        absoluteBoundingBox := Some \<lparr>rectX = 10, rectY = 10, rectWidth = 100, rectHeight = h\<rparr>,
        parents := [exCard, exPage], hugHeight := h\<rparr>"

definition emptyAcc :: qaAcc where
  "emptyAcc = \<lparr>accIssues = [], accIds = []\<rparr>"

subsection \<open>The completion call (openai.ts)\<close>

text \<open>
  A property value of the parsed response: a string, or anything else. The parsed
  content is an object with its properties, or a value that is not an object
  (\<^verbatim>\<open>null\<close>, a number, a string, a boolean).
\<close>

datatype jsValue = JString string | JOther

datatype jsData = NotAnObject | Object "(string \<times> jsValue) list"

text \<open>
  What the network did to a request: \<^verbatim>\<open>fetch\<close> or reading the body threw with a
  message; the server answered with a status that is not a success, and a body; the
  answer has no content; the content does not parse as JSON; the content parses.
\<close>

datatype fetchOutcome =
    Threw string
  | HttpFailure nat string
  | NoContent
  | ContentUnparsable
  | ContentParsed jsData

record openAIResponse =
  ok :: bool
  responseData :: "jsData option"
  responseError :: "string option"
  responseStatus :: "nat option"

text \<open>\<^verbatim>\<open>callOpenAI\<close> in JSON mode, as a function of what the network did.\<close>

definition callOpenAI :: "fetchOutcome \<Rightarrow> openAIResponse" where
  "callOpenAI outcome =
     (case outcome of
        HttpFailure st body \<Rightarrow>
          if st = 401
          then \<lparr>ok = False, responseData = None,
                responseError = Some ''Invalid API key (401).'', responseStatus = Some 401\<rparr>
          else if st = 429
          then \<lparr>ok = False, responseData = None,
                responseError = Some ''Rate limited (429). Wait and retry.'',
                responseStatus = Some 429\<rparr>
          else \<lparr>ok = False, responseData = None,
                responseError = Some (''OpenAI '' @ string_of_nat st @ '': '' @ take 200 body),
                responseStatus = Some st\<rparr>
      | NoContent \<Rightarrow>
          \<lparr>ok = False, responseData = None,
           responseError = Some ''Empty response from OpenAI.'', responseStatus = None\<rparr>
      | ContentParsed d \<Rightarrow>
          \<lparr>ok = True, responseData = Some d, responseError = None, responseStatus = None\<rparr>
      | ContentUnparsable \<Rightarrow>
          \<lparr>ok = False, responseData = None,
           responseError = Some ''Failed to parse JSON from OpenAI response.'',
           responseStatus = None\<rparr>
      | Threw msg \<Rightarrow>
          \<lparr>ok = False, responseData = None, responseError = Some msg, responseStatus = None\<rparr>)"

subsection \<open>Batch translation with retries (translate.ts)\<close>

definition emDash :: string where
  "emDash = [CHR 0xE2, CHR 0x80, CHR 0x94]"

definition SYSTEM_PROMPT :: string where
  "SYSTEM_PROMPT =
     ''You are a professional UI translator. You MUST respond with valid json only ''
     @ emDash
     @ '' no markdown, no explanation, no prose. Output a single json object mapping each id to its translated string.''"

text \<open>The strictness note that every retry appends to the system prompt.\<close>

definition strictSuffix :: string where
  "strictSuffix =
     [CHR 0x0A, CHR 0x0A]
     @ ''IMPORTANT: Return ONLY valid JSON. No markdown fences, no explanation.''"

record translateResult =
  translationSet :: "(string \<times> string) list option"
  errorText :: "string option"

text \<open>
  What a run of \<^verbatim>\<open>translateBatch\<close> does besides returning: each call of the completion
  API, with its system prompt (the user prompt is the same in every call), and each
  wait, in milliseconds.
\<close>

datatype effect = CallOpenAI string | Delay nat

text \<open>\<^verbatim>\<open>response.error || 'Unknown error'\<close>.\<close>

definition errorOr :: "string \<Rightarrow> string option \<Rightarrow> string" where
  "errorOr fallback e = (case e of None \<Rightarrow> fallback | Some msg \<Rightarrow> if msg = [] then fallback else msg)"

text \<open>
  The extraction loop: for each entry whose id maps to a string in the response, the
  translation is stored and counted.
\<close>

fun extractTranslations ::
  "textEntry list \<Rightarrow> (string \<times> jsValue) list \<Rightarrow> (string \<times> string) list \<times> nat
     \<Rightarrow> (string \<times> string) list \<times> nat"
where
  "extractTranslations [] props acc = acc"
| "extractTranslations (entry # rest) props acc =
     (case map_of props (entryId entry) of
        Some (JString val) \<Rightarrow>
          extractTranslations rest props
            (AList.update (entryId entry) val (fst acc), snd acc + 1)
      | _ \<Rightarrow> extractTranslations rest props acc)"

definition systemPromptAt :: "nat \<Rightarrow> string" where
  "systemPromptAt attempt = SYSTEM_PROMPT @ (if attempt > 0 then strictSuffix else [])"

text \<open>
  The \<^verbatim>\<open>for\<close> loop of \<^verbatim>\<open>translateBatch\<close> from a given attempt on. \<open>network\<close> tells what
  the network does to the call of each attempt, \<open>aborted\<close> whether the signal is
  aborted when an attempt begins. The result comes with the effects in order.
\<close>

function translateLoop ::
  "(nat \<Rightarrow> fetchOutcome) \<Rightarrow> (nat \<Rightarrow> bool) \<Rightarrow> textEntry list \<Rightarrow> int \<Rightarrow> nat \<Rightarrow> string
     \<Rightarrow> translateResult \<times> effect list"
where
  "translateLoop network aborted es maxRetries attempt lastError =
     (if \<not> int attempt \<le> maxRetries
      then (\<lparr>translationSet = None, errorText = Some lastError\<rparr>, [])
      else if aborted attempt
      then (\<lparr>translationSet = None, errorText = Some ''Cancelled.''\<rparr>, [])
      else
        let response = callOpenAI (network attempt);
            call = CallOpenAI (systemPromptAt attempt)
        in if \<not> ok response then
             let lastError' = errorOr ''Unknown error'' (responseError response)
             in if responseStatus response = Some 401
                then (\<lparr>translationSet = None, errorText = Some lastError'\<rparr>, [call])
                else if responseStatus response = Some 429
                then
                  let next = translateLoop network aborted es maxRetries (attempt + 1) lastError'
                  in (fst next, call # Delay (2000 * (attempt + 1)) # snd next)
                else
                  let next = translateLoop network aborted es maxRetries (attempt + 1) lastError'
                  in (fst next, call # snd next)
           else
             case responseData response of
               Some (Object props) \<Rightarrow>
                 let extracted = extractTranslations es props ([], 0)
                 in if snd extracted = 0
                    then
                      let next = translateLoop network aborted es maxRetries (attempt + 1)
                                   ''No valid translations in response.''
                      in (fst next, call # snd next)
                    else (\<lparr>translationSet = Some (fst extracted), errorText = None\<rparr>, [call])
             | _ \<Rightarrow>
                 let next = translateLoop network aborted es maxRetries (attempt + 1)
                              ''Invalid response format from OpenAI.''
                 in (fst next, call # snd next))"
  by pat_completeness auto
termination
  by (relation "measure (\<lambda>(network, aborted, es, maxRetries, attempt, lastError).
                  nat (maxRetries + 1 - int attempt))") auto

declare translateLoop.simps [simp del]

definition translateBatch ::
  "(nat \<Rightarrow> fetchOutcome) \<Rightarrow> (nat \<Rightarrow> bool) \<Rightarrow> textEntry list \<Rightarrow> int
     \<Rightarrow> translateResult \<times> effect list"
where
  "translateBatch network aborted es maxRetries =
     translateLoop network aborted es maxRetries 0 []"

text \<open>
  The error message an attempt leaves in \<^verbatim>\<open>lastError\<close>, or \<open>None\<close> when the attempt
  succeeds: the response is not ok, or its data is not an object, or no entry's id
  maps to a string.
\<close>

definition attemptError :: "textEntry list \<Rightarrow> fetchOutcome \<Rightarrow> string option" where
  "attemptError es outcome =
     (let response = callOpenAI outcome
      in if \<not> ok response then Some (errorOr ''Unknown error'' (responseError response))
         else case responseData response of
                Some (Object props) \<Rightarrow>
                  if snd (extractTranslations es props ([], 0)) = 0
                  then Some ''No valid translations in response.''
                  else None
              | _ \<Rightarrow> Some ''Invalid response format from OpenAI.'')"

fun isCall :: "effect \<Rightarrow> bool" where
  "isCall (CallOpenAI p) = True"
| "isCall (Delay ms) = False"

text \<open>Example networks: rate limit, then unparsable content, then an invalid key; and
  a rate limit on every attempt.\<close>

definition exNetwork :: "nat \<Rightarrow> fetchOutcome" where
  "exNetwork attempt =
     (if attempt = 0 then HttpFailure 429 ''slow down''
      else if attempt = 1 then ContentUnparsable
      else HttpFailure 401 ''bad key'')"

definition exRateLimited :: "nat \<Rightarrow> fetchOutcome" where
  "exRateLimited attempt = HttpFailure 429 ''slow down''"

definition neverAborted :: "nat \<Rightarrow> bool" where
  "neverAborted attempt = False"

subsection \<open>Rewriting shorter (translate.ts, ui.ts)\<close>

record shortenEntry =
  shortenId :: string
  shortenOriginal :: string
  shortenCurrent :: string

fun extractShortened ::
  "shortenEntry list \<Rightarrow> (string \<times> jsValue) list \<Rightarrow> (string \<times> string) list
     \<Rightarrow> (string \<times> string) list"
where
  "extractShortened [] props result = result"
| "extractShortened (entry # rest) props result =
     (case map_of props (shortenId entry) of
        Some (JString val) \<Rightarrow>
          extractShortened rest props (AList.update (shortenId entry) val result)
      | _ \<Rightarrow> extractShortened rest props result)"

text \<open>
  \<^verbatim>\<open>shortenTranslations\<close>: a single attempt. \<open>outcome\<close> is what the network does to its
  call; no call is made for an empty list.
\<close>

definition shortenTranslations :: "shortenEntry list \<Rightarrow> fetchOutcome \<Rightarrow> translateResult" where
  "shortenTranslations es outcome =
     (if es = [] then \<lparr>translationSet = Some [], errorText = None\<rparr>
      else
        let response = callOpenAI outcome
        in if \<not> ok response
           then \<lparr>translationSet = None,
                 errorText = Some (errorOr ''Failed to shorten'' (responseError response))\<rparr>
           else case responseData response of
                  Some (Object props) \<Rightarrow>
                    \<lparr>translationSet = Some (extractShortened es props []), errorText = None\<rparr>
                | _ \<Rightarrow> \<lparr>translationSet = None, errorText = Some ''Invalid response''\<rparr>)"

text \<open>
  The object spread \<^verbatim>\<open>{ ...a, ...b }\<close>: the properties of \<open>a\<close>, each property of \<open>b\<close>
  written over them in turn (the keys here are entry ids, which are not array
  indices, so the order is the insertion order).
\<close>

definition spread :: "(string \<times> string) list \<Rightarrow> (string \<times> string) list \<Rightarrow> (string \<times> string) list" where
  "spread a b = fold (\<lambda>p m. AList.update (fst p) (snd p) m) b a"

text \<open>
  \<^verbatim>\<open>UIMessage\<close>, the messages of the UI to the controller. \<^verbatim>\<open>save-settings\<close> carries
  whole settings, as its one sender \<^verbatim>\<open>persistSettings\<close> posts them.
\<close>

datatype uiMessage =
    Init
  | ScanSelection
  | StartGenerate "language list" pluginSettings
  | TranslationsReady string "(string \<times> string) list"
  | TranslationError string string
  | ApplyRewrites string "(string \<times> string) list"
  | Cancel
  | SaveSettings pluginSettings
  | Resize int int
  | Notify string bool

text \<open>A translation request as the UI queues it.\<close>

record translationRequest =
  reqLangCode :: string
  reqLangName :: string
  reqIsRTL :: bool
  reqTextEntries :: "textEntry list"
  reqSettings :: pluginSettings

text \<open>
  The module state of the UI. \<open>scanEntries\<close> stands for \<^verbatim>\<open>scanResult\<close>: \<open>None\<close> for
  \<^verbatim>\<open>null\<close>, otherwise the text entries of the result (its \<^verbatim>\<open>translatableNodes\<close> is
  their number, see \<open>performScan\<close>). \<^verbatim>\<open>selectedLangCodes\<close>, a set, is a list without
  repetition.
\<close>

record uiState =
  uiSettings :: pluginSettings
  selectedLangCodes :: "string list"
  generating :: bool
  langProgressMap :: "(string \<times> langProgress) list"
  translationsStore :: "(string \<times> (string \<times> string) list) list"
  scanEntries :: "textEntry list option"
  rewritingLangs :: "string list"
  translationQueue :: "translationRequest list"
  activeTranslations :: int

text \<open>\<^verbatim>\<open>updateLangProgress\<close>; an absent \<open>detail\<close> or report leaves the stored one.\<close>

definition updateLangProgress ::
  "string \<Rightarrow> langStatus \<Rightarrow> string option \<Rightarrow> qaReport option \<Rightarrow> uiState \<Rightarrow> uiState"
where
  "updateLangProgress lc st d rep ui =
     (case map_of (langProgressMap ui) lc of
        None \<Rightarrow> ui
      | Some existing \<Rightarrow>
          ui\<lparr>langProgressMap :=
               AList.update lc
                 (existing\<lparr>progressStatus := st,
                    detail := (case d of None \<Rightarrow> detail existing | Some v \<Rightarrow> Some v),
                    progressReport :=
                      (case rep of None \<Rightarrow> progressReport existing | Some v \<Rightarrow> Some v)\<rparr>)
                 (langProgressMap ui)\<rparr>)"

text \<open>The entries that \<^verbatim>\<open>triggerRewriteShorter\<close> submits: the scanned units with an
  issue and a stored, non-empty translation.\<close>

fun rewriteEntries ::
  "textEntry list \<Rightarrow> string list \<Rightarrow> (string \<times> string) list \<Rightarrow> shortenEntry list"
where
  "rewriteEntries [] issueIds stored = []"
| "rewriteEntries (te # rest) issueIds stored =
     (case map_of stored (entryId te) of
        Some cur \<Rightarrow>
          if entryId te \<in> set issueIds \<and> cur \<noteq> []
          then \<lparr>shortenId = entryId te, shortenOriginal = entryCharacters te,
                shortenCurrent = cur\<rparr> # rewriteEntries rest issueIds stored
          else rewriteEntries rest issueIds stored
      | None \<Rightarrow> rewriteEntries rest issueIds stored)"

text \<open>A string or \<^verbatim>\<open>null\<close> used as a condition: true for a non-empty string.\<close>

definition truthy :: "string option \<Rightarrow> bool" where
  "truthy e = (case e of None \<Rightarrow> False | Some msg \<Rightarrow> msg \<noteq> [])"

text \<open>
  \<^verbatim>\<open>triggerRewriteShorter\<close>: the UI state it leaves and the messages it sends. \<open>outcome\<close>
  is what the network does to the shorten call.
\<close>

definition triggerRewriteShorter ::
  "uiState \<Rightarrow> string \<Rightarrow> fetchOutcome \<Rightarrow> uiState \<times> uiMessage list"
where
  "triggerRewriteShorter ui lc outcome =
     (case (map_of (langProgressMap ui) lc, map_of (translationsStore ui) lc, scanEntries ui) of
        (Some prog, Some storedTranslations, Some textEntries) \<Rightarrow>
          (case progressReport prog of
             None \<Rightarrow> (ui, [])
           | Some report \<Rightarrow>
               if issueEntryIds report = [] then (ui, [])
               else
                 let es = rewriteEntries textEntries (issueEntryIds report) storedTranslations
                 in if es = [] then (ui, [])
                    else
                      let ui1 = updateLangProgress lc Applying None None
                                  (ui\<lparr>rewritingLangs := setAdd lc (rewritingLangs ui)\<rparr>);
                          res = shortenTranslations es outcome;
                          failed = (updateLangProgress lc Done None None
                                      (ui1\<lparr>rewritingLangs := removeAll lc (rewritingLangs ui1)\<rparr>),
                                    [Notify (errorOr ''Rewrite failed'' (errorText res)) True])
                      in if truthy (errorText res) then failed
                         else case translationSet res of
                                None \<Rightarrow> failed
                              | Some shortened \<Rightarrow>
                                  (ui1\<lparr>translationsStore :=
                                         AList.update lc (spread storedTranslations shortened)
                                           (translationsStore ui1)\<rparr>,
                                   [ApplyRewrites lc shortened]))
      | _ \<Rightarrow> (ui, []))"

text \<open>A UI after a run in German with two units, the first of which has an issue.\<close>

definition exReport :: "string list \<Rightarrow> qaReport" where
  "exReport ids =
     \<lparr>langCode = ''de'', langName = ''German'', status = amber, issues = [],
      issueEntryIds = ids, amberIssues = 1, redIssues = 0\<rparr>"

definition exScan :: "textEntry list" where
  "exScan = [exEntry 20 20, (exEntry 20 20)\<lparr>entryId := ''t1'', entryCharacters := ''Cancel''\<rparr>]"

definition exUi :: uiState where
  "exUi =
     \<lparr>uiSettings = exSettings row, selectedLangCodes = [''de''], generating = False,
      langProgressMap =
        [(''de'', \<lparr>progressLangCode = ''de'', progressLangName = ''German'',
                   progressStatus = Done, detail = None,
                   progressReport = Some (exReport [''t0''])\<rparr>)],
      translationsStore = [(''de'', [(''t0'', ''Hallo zusammen''), (''t1'', ''Abbrechen'')])],
      scanEntries = Some exScan,
      rewritingLangs = [], translationQueue = [], activeTranslations = 0\<rparr>"

text \<open>A shorten response that rewrites the first unit only.\<close>

definition exShortened :: fetchOutcome where
  "exShortened = ContentParsed (Object [(''t0'', JString ''Hallo'')])"

subsection \<open>Applying translations (duplicate.ts)\<close>

text \<open>
  What the functions below need of the host: which fonts \<^verbatim>\<open>loadFontAsync\<close> can load,
  the node that results when the host sets a text node's characters and reflows it,
  the subtree that \<^verbatim>\<open>clone()\<close> returns, and whether a text node accepts
  \<^verbatim>\<open>paragraphDirection\<close>.
\<close>

record host =
  canLoadFont :: "font \<Rightarrow> bool"
  setCharacters :: "string \<Rightarrow> textNode \<Rightarrow> textNode"
  cloneNode :: "sceneNode \<Rightarrow> sceneNode"
  hasParagraphDirection :: bool

text \<open>\<^verbatim>\<open>loadFontsForNode\<close>: whether every font of the node loads, and the node, whose
  fonts are then loaded.\<close>

definition loadFontsForNode :: "host \<Rightarrow> textNode \<Rightarrow> bool \<times> textNode" where
  "loadFontsForNode h node =
     (let loads = (case fontName node of
                     FN_MIXED fs \<Rightarrow> list_all (canLoadFont h) fs
                   | FN_SINGLE f \<Rightarrow> canLoadFont h f)
      in if loads then (True, node\<lparr>fontLoaded := True\<rparr>) else (False, node))"

definition fallbacks :: "font list" where
  "fallbacks = [(''Inter'', ''Regular''), (''Roboto'', ''Regular''), (''Arial'', ''Regular'')]"

text \<open>\<^verbatim>\<open>applyFallbackFont\<close>: the first fallback font that loads becomes the node's font.\<close>

definition applyFallbackFont :: "host \<Rightarrow> textNode \<Rightarrow> bool \<times> textNode" where
  "applyFallbackFont h node =
     (case find (canLoadFont h) fallbacks of
        None \<Rightarrow> (False, node)
      | Some f \<Rightarrow> (True, node\<lparr>fontName := FN_SINGLE f, fontLoaded := True\<rparr>))"

record applyState =
  appliedMap :: "(string \<times> textNode) list"
  applied :: nat
  fontErrors :: "string list"

text \<open>One iteration of the loop of \<^verbatim>\<open>applyTranslations\<close>, for the entry \<open>(k, translation)\<close>.\<close>

definition applyOne ::
  "host \<Rightarrow> language \<Rightarrow> pluginSettings \<Rightarrow> string \<times> string \<Rightarrow> applyState \<Rightarrow> applyState"
where
  "applyOne h lang settings p st =
     (case map_of (appliedMap st) (fst p) of
        None \<Rightarrow> st
      | Some node \<Rightarrow>
          let first = loadFontsForNode h node;
              loaded = (if fst first then first
                        else if allowFontFallback settings then applyFallbackFont h (snd first)
                        else first)
          in if \<not> fst loaded
             then st\<lparr>appliedMap := AList.update (fst p) (snd loaded) (appliedMap st),
                     fontErrors := fontErrors st @ [textName (snd loaded)]\<rparr>
             else
               let written = setCharacters h (snd p) (snd loaded);
                   directed =
                     (if isRTL lang \<and> autoRTL settings then
                        let d = (if setDirectionRTL settings \<and> hasParagraphDirection h
                                 then written\<lparr>paragraphDirectionRTL := True\<rparr>
                                 else written)
                        in if textAlignHorizontal d \<noteq> CENTER
                           then d\<lparr>textAlignHorizontal := RIGHT\<rparr>
                           else d
                      else written)
               in st\<lparr>appliedMap := AList.update (fst p) directed (appliedMap st),
                     applied := applied st + 1\<rparr>)"

definition applyTranslations ::
  "host \<Rightarrow> (string \<times> textNode) list \<Rightarrow> (string \<times> string) list \<Rightarrow> language \<Rightarrow> pluginSettings
     \<Rightarrow> applyState"
where
  "applyTranslations h textNodeMap trs lang settings =
     fold (applyOne h lang settings) trs
       \<lparr>appliedMap = textNodeMap, applied = 0, fontErrors = []\<rparr>"

text \<open>\<^verbatim>\<open>mirrorAutoLayout\<close>: whether mirroring applied, and the node with its children
  re-appended back to front.\<close>

fun mirrorAutoLayout :: "sceneNode \<Rightarrow> bool \<times> sceneNode" where
  "mirrorAutoLayout (TextLeaf tn) = (False, TextLeaf tn)"
| "mirrorAutoLayout (Inner info children) =
     (if infoType info \<noteq> FRAME \<and> infoType info \<noteq> COMPONENT \<and> infoType info \<noteq> INSTANCE
      then (False, Inner info children)
      else if infoLayoutMode info \<noteq> Some HORIZONTAL then (False, Inner info children)
      else (True, Inner info (rev children)))"

subsection \<open>The controller (code.ts)\<close>

text \<open>\<^verbatim>\<open>ScanResult\<close> (types.ts).\<close>

record scanResult =
  resultNodeName :: string
  resultNodeType :: nodeType
  resultNodeId :: string
  resultTotalTextNodes :: nat
  translatableNodes :: nat
  resultSkippedEmpty :: nat
  resultSkippedLocked :: nat
  textEntries :: "textEntry list"

text \<open>\<^verbatim>\<open>ControllerMessage\<close>, the messages of the controller to the UI.\<close>

datatype controllerMessage =
    InitComplete pluginSettings
  | ScanResult scanResult
  | ScanError string
  | RequestTranslation string string bool "textEntry list" pluginSettings
  | LanguageProgress langProgress
  | AllComplete "qaReport list"
  | ErrorMessage string
  | CancelledMessage
  | SelectionChanged



text \<open>The status of a progress message, if the message is one.\<close>

fun statusOf :: "controllerMessage \<Rightarrow> langStatus option" where
  "statusOf (LanguageProgress p) = Some (progressStatus p)"
| "statusOf m = None"

text \<open>The module state of the controller.\<close>

record controller =
  ctlSettings :: pluginSettings
  cancelledFlag :: bool
  originalEntries :: "textEntry list"
  cloneMap :: "(string \<times> sceneNode \<times> (string \<times> textNode) list) list"
  languageMap :: "(string \<times> language) list"
  qaReports :: "qaReport list"
  pendingCount :: int

definition progress :: "string \<Rightarrow> string \<Rightarrow> langStatus \<Rightarrow> string option \<Rightarrow> qaReport option
    \<Rightarrow> controllerMessage" where
  "progress lc lname st d rep =
     LanguageProgress
       \<lparr>progressLangCode = lc, progressLangName = lname, progressStatus = st, detail = d,
        progressReport = rep\<rparr>"

fun nodeTypeOf :: "sceneNode \<Rightarrow> nodeType" where
  "nodeTypeOf (TextLeaf tn) = TEXT"
| "nodeTypeOf (Inner info children) = infoType info"

definition validateSelection :: "sceneNode list \<Rightarrow> sceneNode option" where
  "validateSelection sel =
     (case sel of
        [node] \<Rightarrow>
          if nodeTypeOf node \<in> set [INSTANCE, FRAME, GROUP, SECTION, COMPONENT]
          then Some node else None
      | _ \<Rightarrow> None)"

text \<open>
  The \<^verbatim>\<open>start-generate\<close> handler runs in three stretches, separated by its two
  \<^verbatim>\<open>await\<close>s (saving the settings, loading the label font), during which the
  controller handles other messages. The first stretch resets the run state and
  validates the selection; it yields the node when the handler goes on.
\<close>

definition startGenerate_begin ::
  "controller \<Rightarrow> sceneNode list \<Rightarrow> pluginSettings
     \<Rightarrow> controller \<times> controllerMessage list \<times> sceneNode option"
where
  "startGenerate_begin st sel incoming =
     (let st1 = st\<lparr>cancelledFlag := False, cloneMap := [], languageMap := [], qaReports := []\<rparr>
      in case validateSelection sel of
           None \<Rightarrow>
             (st1, [ErrorMessage ''Selection lost. Select a node and rescan.''], None)
         | Some node \<Rightarrow> (st1\<lparr>ctlSettings := incoming\<rparr>, [], Some node))"

text \<open>The second stretch stores the languages and checks the entries; it yields
  whether the handler goes on.\<close>

definition startGenerate_afterSave ::
  "controller \<Rightarrow> language list \<Rightarrow> controller \<times> controllerMessage list \<times> bool"
where
  "startGenerate_afterSave st languages =
     (let st1 = st\<lparr>languageMap :=
                     fold (\<lambda>lang m. AList.update (code lang) lang m) languages (languageMap st)\<rparr>
      in if originalEntries st1 = []
         then (st1, [ErrorMessage ''No translatable text found. Rescan first.''], False)
         else (st1, [], True))"

text \<open>
  The duplication loop from index \<open>i\<close> on. It yields whether it ran to its end; it ends
  the handler when the flag is set, and when the placement is not a number (the host
  rejects the write). The label that \<^verbatim>\<open>addLabel\<close> creates is a node of the document
  only and is left out.
\<close>

fun duplicateLoop ::
  "host \<Rightarrow> sceneNode \<Rightarrow> language list \<Rightarrow> nat \<Rightarrow> controller
     \<Rightarrow> controller \<times> controllerMessage list \<times> bool"
where
  "duplicateLoop h node [] i st = (st, [], True)"
| "duplicateLoop h node (lang # rest) i st =
     (if cancelledFlag st then (st, [CancelledMessage], False)
      else
        let announce = progress (code lang) (name lang) Duplicating None None
        in case duplicateAndPlace node (cloneNode h node) i lang (ctlSettings st)
                  (originalEntries st) of
             None \<Rightarrow> (st, [announce], False)
           | Some (clone, textNodeMap) \<Rightarrow>
               let mirror = isRTL lang \<and> autoRTL (ctlSettings st) \<and> mirrorLayout (ctlSettings st);
                   mirrored = (if mirror then mirrorAutoLayout clone else (True, clone));
                   st1 = st\<lparr>cloneMap :=
                              AList.update (code lang) (snd mirrored, textNodeMap) (cloneMap st)\<rparr>;
                   skipped =
                     (if fst mirrored then []
                      else [progress (code lang) (name lang) Duplicating
                              (Some ''Mirroring skipped (layout not compatible)'') None]);
                   r = duplicateLoop h node rest (i + 1) st1
               in (fst r, announce # skipped @ fst (snd r), snd (snd r)))"

text \<open>The loop that requests the translations; it yields whether it ran to its end.\<close>

fun requestLoop :: "language list \<Rightarrow> controller \<Rightarrow> controllerMessage list \<times> bool" where
  "requestLoop [] st = ([], True)"
| "requestLoop (lang # rest) st =
     (if cancelledFlag st then ([CancelledMessage], False)
      else
        let r = requestLoop rest st
        in (progress (code lang) (name lang) Translating None None
              # RequestTranslation (code lang) (name lang) (isRTL lang) (originalEntries st)
                  (ctlSettings st)
              # fst r,
            snd r))"

text \<open>The third stretch: both loops.\<close>

definition startGenerate_loops ::
  "host \<Rightarrow> controller \<Rightarrow> sceneNode \<Rightarrow> language list \<Rightarrow> controller \<times> controllerMessage list"
where
  "startGenerate_loops h st node languages =
     (let d = duplicateLoop h node languages 0 st
      in if \<not> snd (snd d) then (fst d, fst (snd d))
         else
           let st1 = (fst d)\<lparr>pendingCount := int (length languages)\<rparr>
           in (st1, fst (snd d) @ fst (requestLoop languages st1)))"

text \<open>The end of the two result handlers: one language less is pending.\<close>

definition countDown :: "controller \<Rightarrow> controller \<times> controllerMessage list" where
  "countDown st =
     (let st1 = st\<lparr>pendingCount := pendingCount st - 1\<rparr>
      in (st1, if pendingCount st1 \<le> 0 then [AllComplete (qaReports st1)] else []))"

text \<open>The case \<^verbatim>\<open>translations-ready\<close>.\<close>

definition handleTranslationsReady ::
  "host \<Rightarrow> controller \<Rightarrow> string \<Rightarrow> (string \<times> string) list
     \<Rightarrow> controller \<times> controllerMessage list"
where
  "handleTranslationsReady h st lc trs =
     (if cancelledFlag st then (st, [])
      else case (map_of (cloneMap st) lc, map_of (languageMap st) lc) of
        (Some entry, Some lang) \<Rightarrow>
          let a = applyTranslations h (snd entry) trs lang (ctlSettings st);
              q = runQA (appliedMap a) (originalEntries st) lang (fontErrors a);
              st1 = st\<lparr>cloneMap := AList.update lc (fst entry, snd q) (cloneMap st),
                       qaReports := qaReports st @ [fst q]\<rparr>;
              c = countDown st1
          in (fst c,
              [progress lc (name lang) Applying None None,
               progress lc (name lang) Qa None None,
               progress lc (name lang) Done None (Some (fst q))] @ snd c)
      | _ \<Rightarrow> (st, [ErrorMessage (''Internal: no clone for '' @ lc @ ''.'')]))"

text \<open>The case \<^verbatim>\<open>translation-error\<close>.\<close>

definition handleTranslationError ::
  "controller \<Rightarrow> string \<Rightarrow> string \<Rightarrow> controller \<times> controllerMessage list"
where
  "handleTranslationError st lc err =
     (if cancelledFlag st then (st\<lparr>pendingCount := pendingCount st - 1\<rparr>, [])
      else
        let lname = (case map_of (languageMap st) lc of
                    None \<Rightarrow> lc
                  | Some lang \<Rightarrow> if name lang = [] then lc else name lang);
            c = countDown st
        in (fst c, progress lc lname Error (Some err) None # snd c))"

text \<open>The case \<^verbatim>\<open>apply-rewrites\<close>.\<close>

definition handleApplyRewrites ::
  "host \<Rightarrow> controller \<Rightarrow> string \<Rightarrow> (string \<times> string) list
     \<Rightarrow> controller \<times> controllerMessage list"
where
  "handleApplyRewrites h st lc trs =
     (case (map_of (cloneMap st) lc, map_of (languageMap st) lc) of
        (Some entry, Some lang) \<Rightarrow>
          let a = applyTranslations h (snd entry) trs lang (ctlSettings st);
              q = runQA (appliedMap a) (originalEntries st) lang (fontErrors a)
          in (st\<lparr>cloneMap := AList.update lc (fst entry, snd q) (cloneMap st)\<rparr>,
              [progress lc (name lang) Applying None None,
               progress lc (name lang) Done None (Some (fst q))])
      | _ \<Rightarrow> (st, [ErrorMessage (''No clone for '' @ lc @ ''.'')]))"

text \<open>The case \<^verbatim>\<open>cancel\<close>.\<close>

definition handleCancel :: "controller \<Rightarrow> controller \<times> controllerMessage list" where
  "handleCancel st = (st\<lparr>cancelledFlag := True\<rparr>, [CancelledMessage])"

text \<open>The case \<^verbatim>\<open>language-progress\<close> of the UI's message handler.\<close>

definition uiHandleProgress :: "uiState \<Rightarrow> langProgress \<Rightarrow> uiState" where
  "uiHandleProgress ui p =
     (let isRewrite = progressLangCode p \<in> set (rewritingLangs ui)
      in if \<not> generating ui \<and> \<not> isRewrite then ui
         else
           let ui1 = (if isRewrite \<and> (progressStatus p = Done \<or> progressStatus p = Error)
                      then ui\<lparr>rewritingLangs := removeAll (progressLangCode p) (rewritingLangs ui)\<rparr>
                      else ui)
           in updateLangProgress (progressLangCode p) (progressStatus p) (detail p)
                (progressReport p) ui1)"

text \<open>The status and the report that the UI shows for a language.\<close>

definition uiStatus :: "uiState \<Rightarrow> string \<Rightarrow> langStatus option" where
  "uiStatus ui lc = map_option progressStatus (map_of (langProgressMap ui) lc)"

definition uiReport :: "uiState \<Rightarrow> string \<Rightarrow> qaReport option" where
  "uiReport ui lc = Option.bind (map_of (langProgressMap ui) lc) progressReport"

subsection \<open>Starting, cancelling and queueing in the UI (ui.ts)\<close>

text \<open>\<^verbatim>\<open>getLanguageByCode\<close>; the table \<^verbatim>\<open>LANGUAGES\<close> of lang.ts is a parameter.\<close>

definition getLanguageByCode :: "language list \<Rightarrow> string \<Rightarrow> language option" where
  "getLanguageByCode table c = find (\<lambda>l. code l = c) table"

text \<open>
  \<^verbatim>\<open>startGeneration\<close>: the UI state it leaves and the messages it posts. \<open>confirmed\<close> is
  the user's answer to the dialogue shown for more than eight languages. The error
  banner and the tabs are not part of the state.
\<close>

definition startGeneration :: "language list \<Rightarrow> bool \<Rightarrow> uiState \<Rightarrow> uiState \<times> uiMessage list" where
  "startGeneration table confirmed ui =
     (if generating ui then (ui, [])
      else if (case scanEntries ui of None \<Rightarrow> True | Some es \<Rightarrow> length es = 0) then (ui, [])
      else if length (selectedLangCodes ui) = 0 then (ui, [])
      else if apiKey (uiSettings ui) = [] then (ui, [])
      else if length (selectedLangCodes ui) > 8 \<and> \<not> confirmed then (ui, [])
      else
        let languages = List.map_filter (getLanguageByCode table) (selectedLangCodes ui);
            ui1 = ui\<lparr>generating := True,
                     langProgressMap :=
                       fold (\<lambda>lang m. AList.update (code lang)
                               \<lparr>progressLangCode = code lang, progressLangName = name lang,
                                progressStatus = Pending, detail = None,
                                progressReport = None\<rparr> m)
                         languages [],
                     translationsStore := [],
                     translationQueue := [],
                     activeTranslations := 0\<rparr>
        in (ui1, [StartGenerate languages (uiSettings ui)]))"

text \<open>\<^verbatim>\<open>cancelGeneration\<close>.\<close>

definition cancelGeneration :: "uiState \<Rightarrow> uiState \<times> uiMessage list" where
  "cancelGeneration ui =
     (if \<not> generating ui then (ui, [])
      else
        (ui\<lparr>translationQueue := [],
            langProgressMap :=
              map (\<lambda>(c, prog).
                     (c, if progressStatus prog \<noteq> Done \<and> progressStatus prog \<noteq> Error
                         then prog\<lparr>progressStatus := Cancelled\<rparr> else prog))
                (langProgressMap ui),
            generating := False\<rparr>,
         [Cancel]))"

text \<open>
  \<^verbatim>\<open>processQueue\<close>: the loop takes requests off the queue while a run is on and fewer
  than two translations are active; each \<^verbatim>\<open>processTranslation\<close> it starts marks its
  language as translating and then waits for \<^verbatim>\<open>translateBatch\<close>. The result is the UI
  state and the requests whose translation is now in flight.
\<close>

function processQueue :: "uiState \<Rightarrow> uiState \<times> translationRequest list" where
  "processQueue ui =
     (if generating ui \<and> translationQueue ui \<noteq> [] \<and> activeTranslations ui < 2
      then
        let req = hd (translationQueue ui);
            ui1 = ui\<lparr>translationQueue := tl (translationQueue ui),
                     activeTranslations := activeTranslations ui + 1\<rparr>;
            r = processQueue (updateLangProgress (reqLangCode req) Translating None None ui1)
        in (fst r, req # snd r)
      else (ui, []))"
  by pat_completeness auto
termination
  by (relation "measure (\<lambda>ui. length (translationQueue ui))")
     (auto simp: updateLangProgress_def split: option.splits)

declare processQueue.simps [simp del]

text \<open>\<^verbatim>\<open>enqueueTranslation\<close>.\<close>

definition enqueueTranslation ::
  "translationRequest \<Rightarrow> uiState \<Rightarrow> uiState \<times> translationRequest list" where
  "enqueueTranslation req ui =
     (if \<not> generating ui then (ui, [])
      else processQueue (ui\<lparr>translationQueue := translationQueue ui @ [req]\<rparr>))"

text \<open>
  \<^verbatim>\<open>processTranslation\<close> from the point where \<^verbatim>\<open>translateBatch\<close> has returned \<open>res\<close>: the
  UI state it leaves and the message it posts.
\<close>

definition processTranslation_resolved ::
  "translationRequest \<Rightarrow> translateResult \<Rightarrow> uiState \<Rightarrow> uiState \<times> uiMessage list" where
  "processTranslation_resolved req res ui =
     (if \<not> generating ui then (ui, [])
      else case translationSet res of
             Some trs \<Rightarrow>
               (ui\<lparr>translationsStore := AList.update (reqLangCode req) trs (translationsStore ui)\<rparr>,
                [TranslationsReady (reqLangCode req) trs])
           | None \<Rightarrow>
               (ui, [TranslationError (reqLangCode req) (errorOr ''Unknown error'' (errorText res))]))"

text \<open>The \<^verbatim>\<open>finally\<close> callback that \<^verbatim>\<open>processQueue\<close> attaches to each translation.\<close>

definition translationSettled :: "uiState \<Rightarrow> uiState \<times> translationRequest list" where
  "translationSettled ui =
     (let ui1 = ui\<lparr>activeTranslations := activeTranslations ui - 1\<rparr>
      in if generating ui1 then processQueue ui1 else (ui1, []))"

text \<open>
  The handlers of the settings tab write fields of \<^verbatim>\<open>settings\<close>, those of the language
  list and of the presets write the selection and \<^verbatim>\<open>settings.selectedLanguages\<close>; all
  call \<^verbatim>\<open>persistSettings\<close>. \<open>new\<close> is \<^verbatim>\<open>settings\<close> after the write, \<open>codes\<close> the
  selection after it.
\<close>

definition persistSettings :: "uiState \<Rightarrow> uiState \<times> uiMessage list" where
  "persistSettings ui = (ui, [SaveSettings (uiSettings ui)])"

definition editSettings :: "pluginSettings \<Rightarrow> uiState \<Rightarrow> uiState \<times> uiMessage list" where
  "editSettings new ui = persistSettings (ui\<lparr>uiSettings := new\<rparr>)"

definition selectLanguages :: "string list \<Rightarrow> uiState \<Rightarrow> uiState \<times> uiMessage list" where
  "selectLanguages codes ui =
     persistSettings
       (ui\<lparr>selectedLangCodes := remdups codes,
           uiSettings := (uiSettings ui)\<lparr>selectedLanguages := remdups codes\<rparr>\<rparr>)"

text \<open>The notification that the UI posts when a run is complete.\<close>

definition completionNotice :: "qaReport list \<Rightarrow> uiMessage" where
  "completionNotice reports =
     (let reds = length (filter (\<lambda>r. status r = red) reports);
          ambers = length (filter (\<lambda>r. status r = amber) reports)
      in if reds > 0
         then Notify (''Done. '' @ string_of_nat reds @ '' language(s) have issues.'') True
         else if ambers > 0
         then Notify (''Done. '' @ string_of_nat ambers @ '' language(s) have warnings.'') False
         else Notify ''Done. All languages passed QA.'' False)"

text \<open>
  \<^verbatim>\<open>handleMessage\<close>, the UI's handler of the controller's messages: the UI state it
  leaves, the messages it posts and the translations it starts.
\<close>

definition handleMessage ::
  "controllerMessage \<Rightarrow> uiState \<Rightarrow> uiState \<times> uiMessage list \<times> translationRequest list" where
  "handleMessage msg ui =
     (case msg of
        InitComplete s \<Rightarrow>
          (ui\<lparr>uiSettings := s, selectedLangCodes := remdups (selectedLanguages s)\<rparr>, [], [])
      | ScanResult result \<Rightarrow> (ui\<lparr>scanEntries := Some (textEntries result)\<rparr>, [], [])
      | ScanError e \<Rightarrow> (ui\<lparr>scanEntries := None\<rparr>, [], [])
      | SelectionChanged \<Rightarrow> (ui, [ScanSelection], [])
      | RequestTranslation lc lname rtl es s \<Rightarrow>
          (let r = enqueueTranslation
                     \<lparr>reqLangCode = lc, reqLangName = lname, reqIsRTL = rtl,
                      reqTextEntries = es, reqSettings = s\<rparr> ui
           in (fst r, [], snd r))
      | LanguageProgress p \<Rightarrow> (uiHandleProgress ui p, [], [])
      | AllComplete reports \<Rightarrow> (ui\<lparr>generating := False\<rparr>, [completionNotice reports], [])
      | ErrorMessage e \<Rightarrow> (ui\<lparr>generating := False\<rparr>, [], [])
      | CancelledMessage \<Rightarrow> (ui\<lparr>generating := False\<rparr>, [], []))"

subsection \<open>The controller's message handler (code.ts)\<close>

fun nodeId_of :: "sceneNode \<Rightarrow> string" where
  "nodeId_of (TextLeaf tn) = textId tn"
| "nodeId_of (Inner info children) = infoId info"

text \<open>\<^verbatim>\<open>performScan\<close>, on the selection \<open>sel\<close> of the current page.\<close>

definition performScan :: "sceneNode list \<Rightarrow> controller \<Rightarrow> controller \<times> controllerMessage list" where
  "performScan sel st =
     (case validateSelection sel of
        None \<Rightarrow> (st, [ScanError ''Select one frame, instance, group, or section.''])
      | Some node \<Rightarrow>
          let r = scanTextNodes node
          in (st\<lparr>originalEntries := entries r\<rparr>,
              [ScanResult
                 \<lparr>resultNodeName = nodeName_of node, resultNodeType = nodeTypeOf node,
                  resultNodeId = nodeId_of node, resultTotalTextNodes = totalTextNodes r,
                  translatableNodes = length (entries r), resultSkippedEmpty = skippedEmpty r,
                  resultSkippedLocked = skippedLocked r, textEntries = entries r\<rparr>]))"

text \<open>
  A handler that waits: \<^verbatim>\<open>init\<close> for the stored settings, \<^verbatim>\<open>start-generate\<close> for the
  settings to be saved and then, with labels on, for the label font. The waiting
  \<^verbatim>\<open>start-generate\<close> holds the node it validated and its languages.
\<close>

datatype task =
    LoadingSettings
  | SavingSettings sceneNode "language list"
  | LoadingLabelFont sceneNode "language list"

text \<open>
  \<^verbatim>\<open>figma.ui.onmessage\<close> up to the handler's first \<^verbatim>\<open>await\<close>, on the selection \<open>sel\<close>: the
  controller state it leaves, the messages it posts and the handler that now waits.
  The handlers of \<^verbatim>\<open>translations-ready\<close> and \<^verbatim>\<open>apply-rewrites\<close> are taken whole: past
  their \<^verbatim>\<open>await\<close> of \<^verbatim>\<open>applyTranslations\<close> they neither read nor write the flag.
\<close>

definition onMessage ::
  "host \<Rightarrow> sceneNode list \<Rightarrow> uiMessage \<Rightarrow> controller
     \<Rightarrow> controller \<times> controllerMessage list \<times> task list" where
  "onMessage h sel msg st =
     (case msg of
        Init \<Rightarrow> (st, [], [LoadingSettings])
      | ScanSelection \<Rightarrow> (let r = performScan sel st in (fst r, snd r, []))
      | StartGenerate languages incoming \<Rightarrow>
          (let r = startGenerate_begin st sel incoming
           in (fst r, fst (snd r),
               case snd (snd r) of None \<Rightarrow> [] | Some node \<Rightarrow> [SavingSettings node languages]))
      | TranslationsReady lc trs \<Rightarrow> (let r = handleTranslationsReady h st lc trs in (fst r, snd r, []))
      | TranslationError lc err \<Rightarrow> (let r = handleTranslationError st lc err in (fst r, snd r, []))
      | ApplyRewrites lc trs \<Rightarrow> (let r = handleApplyRewrites h st lc trs in (fst r, snd r, []))
      | Cancel \<Rightarrow> (let r = handleCancel st in (fst r, snd r, []))
      | SaveSettings s \<Rightarrow> (st\<lparr>ctlSettings := s\<rparr>, [], [])
      | Resize w ht \<Rightarrow> (st, [], [])
      | Notify text err \<Rightarrow> (st, [], []))"

text \<open>
  A waiting handler goes on: \<open>stored\<close> is what \<^verbatim>\<open>loadSettings\<close> returns, \<open>sel\<close> the
  selection at that moment.
\<close>

definition resume ::
  "host \<Rightarrow> sceneNode list \<Rightarrow> pluginSettings \<Rightarrow> task \<Rightarrow> controller
     \<Rightarrow> controller \<times> controllerMessage list \<times> task list" where
  "resume h sel stored t st =
     (case t of
        LoadingSettings \<Rightarrow>
          (let r = performScan sel (st\<lparr>ctlSettings := stored\<rparr>)
           in (fst r, InitComplete stored # snd r, []))
      | SavingSettings node languages \<Rightarrow>
          (let r = startGenerate_afterSave st languages
           in if \<not> snd (snd r) then (fst r, fst (snd r), [])
              else if showLabels (ctlSettings (fst r))
              then (fst r, [], [LoadingLabelFont node languages])
              else let l = startGenerate_loops h (fst r) node languages in (fst l, snd l, []))
      | LoadingLabelFont node languages \<Rightarrow>
          (let l = startGenerate_loops h st node languages in (fst l, snd l, [])))"

subsection \<open>The plugin as a whole\<close>

text \<open>
  Both sides and what is between them: the messages posted and not yet handled, in
  the order of posting, the translations in flight in the UI and the handlers waiting
  in the controller.
\<close>

record plugin =
  uiModule :: uiState
  inFlight :: "translationRequest list"
  toController :: "uiMessage list"
  ctlModule :: controller
  suspended :: "task list"
  toUi :: "controllerMessage list"



text \<open>
  What happens to the plugin, one event at a time.
  \<^item> In the UI: the user clicks Generate (with the answer to the dialogue) or Cancel,
    edits the settings or the language selection, clicks Rescan, drags the resize
    handle, or asks for a rewrite of a language (with what the network does to the
    shorten call).
  \<^item> \<open>Receive\<close>: the UI handles the oldest message of the controller.
  \<^item> \<open>Settle i res\<close>: the \<open>i\<close>-th translation in flight resolves, \<^verbatim>\<open>translateBatch\<close>
    returning \<open>res\<close>; \<^verbatim>\<open>processTranslation\<close> goes on and the \<^verbatim>\<open>finally\<close> callback runs.
  \<^item> \<open>Deliver sel\<close>: the controller takes up the oldest message of the UI, the
    selection being \<open>sel\<close>.
  \<^item> \<open>Resume i sel stored\<close>: the \<open>i\<close>-th waiting handler of the controller goes on.
  \<^item> \<open>SelectionChange\<close>: the host reports a change of the selection.

  An event that cannot happen (no message to handle, no such translation or handler)
  leaves the plugin as it is.
\<close>

datatype event =
    ClickGenerate bool
  | ClickCancel
  | EditSettings pluginSettings
  | SelectLanguages "string list"
  | ClickRescan
  | DragResize int int
  | ClickRewrite string fetchOutcome
  | Receive
  | Settle nat translateResult
  | Deliver "sceneNode list"
  | Resume nat "sceneNode list" pluginSettings
  | SelectionChange

definition posted :: "uiState \<times> uiMessage list \<Rightarrow> plugin \<Rightarrow> plugin" where
  "posted r s = s\<lparr>uiModule := fst r, toController := toController s @ snd r\<rparr>"

fun step :: "host \<Rightarrow> language list \<Rightarrow> plugin \<Rightarrow> event \<Rightarrow> plugin" where
  "step h table s (ClickGenerate confirmed) = posted (startGeneration table confirmed (uiModule s)) s"
| "step h table s ClickCancel = posted (cancelGeneration (uiModule s)) s"
| "step h table s (EditSettings new) = posted (editSettings new (uiModule s)) s"
| "step h table s (SelectLanguages codes) = posted (selectLanguages codes (uiModule s)) s"
| "step h table s ClickRescan = posted (uiModule s, [ScanSelection]) s"
| "step h table s (DragResize w ht) = posted (uiModule s, [Resize w ht]) s"
| "step h table s (ClickRewrite lc outcome) = posted (triggerRewriteShorter (uiModule s) lc outcome) s"
| "step h table s Receive =
     (case toUi s of
        [] \<Rightarrow> s
      | msg # rest \<Rightarrow>
          let r = handleMessage msg (uiModule s)
          in s\<lparr>uiModule := fst r, toUi := rest, toController := toController s @ fst (snd r),
                inFlight := inFlight s @ snd (snd r)\<rparr>)"
| "step h table s (Settle i res) =
     (if i < length (inFlight s)
      then
        let r = processTranslation_resolved (inFlight s ! i) res (uiModule s);
            f = translationSettled (fst r)
        in s\<lparr>uiModule := fst f, toController := toController s @ snd r,
              inFlight := take i (inFlight s) @ drop (Suc i) (inFlight s) @ snd f\<rparr>
      else s)"
| "step h table s (Deliver sel) =
     (case toController s of
        [] \<Rightarrow> s
      | msg # rest \<Rightarrow>
          let r = onMessage h sel msg (ctlModule s)
          in s\<lparr>ctlModule := fst r, toController := rest, toUi := toUi s @ fst (snd r),
                suspended := suspended s @ snd (snd r)\<rparr>)"
| "step h table s (Resume i sel stored) =
     (if i < length (suspended s)
      then
        let r = resume h sel stored (suspended s ! i) (ctlModule s)
        in s\<lparr>ctlModule := fst r, toUi := toUi s @ fst (snd r),
              suspended := take i (suspended s) @ drop (Suc i) (suspended s) @ snd (snd r)\<rparr>
      else s)"
| "step h table s SelectionChange = s\<lparr>toUi := toUi s @ [SelectionChanged]\<rparr>"


text \<open>
  The two kinds of translation result. \<open>flagAfter c q\<close> is the flag once the controller
  has taken up the messages \<open>q\<close>, from the flag \<open>c\<close>: \<^verbatim>\<open>start-generate\<close> clears it,
  \<^verbatim>\<open>cancel\<close> sets it, no other message writes it. \<open>resultsAfterStart c q\<close>: taking up
  the messages \<open>q\<close> in their order, from the flag \<open>c\<close>, the controller meets every
  result with the flag cleared.
\<close>

fun isResult :: "uiMessage \<Rightarrow> bool" where
  "isResult (TranslationsReady lc trs) = True"
| "isResult (TranslationError lc err) = True"
| "isResult m = False"

fun flagAfter :: "bool \<Rightarrow> uiMessage list \<Rightarrow> bool" where
  "flagAfter c [] = c"
| "flagAfter c (StartGenerate languages s # rest) = flagAfter False rest"
| "flagAfter c (Cancel # rest) = flagAfter True rest"
| "flagAfter c (m # rest) = flagAfter c rest"

fun resultsAfterStart :: "bool \<Rightarrow> uiMessage list \<Rightarrow> bool" where
  "resultsAfterStart c [] = True"
| "resultsAfterStart c (m # rest) =
     ((isResult m \<longrightarrow> \<not> c) \<and> resultsAfterStart (flagAfter c [m]) rest)"




definition ordered :: "plugin \<Rightarrow> bool" where
  "ordered s =
     (resultsAfterStart (cancelledFlag (ctlModule s)) (toController s)
      \<and> (generating (uiModule s) \<longrightarrow> \<not> flagAfter (cancelledFlag (ctlModule s)) (toController s)))"

subsection \<open>Example controller states\<close>

definition exHost :: host where
  "exHost =
     \<lparr>canLoadFont = (\<lambda>f. True),
      setCharacters = (\<lambda>s n. n\<lparr>characters := s\<rparr>),
      cloneNode = (\<lambda>n. n),
      hasParagraphDirection = True\<rparr>"


text \<open>A controller after a run for German, with no language pending.\<close>

definition exController :: controller where
  "exController =
     \<lparr>ctlSettings = exSettings row, cancelledFlag = False, originalEntries = exScan,
      cloneMap = [(''de'', (exClone2, [(''t0'', exFlowing HEIGHT 20)]))],
      languageMap = [(''de'', exLanguage)], qaReports = [], pendingCount = 0\<rparr>"

text \<open>
  A run of the plugin: it starts up on a selected card with two text nodes, the user
  generates German and cancels while the translation is in flight, and the controller
  has taken up the \<^verbatim>\<open>cancel\<close>. Then the user generates again, and the translation of
  the cancelled run resolves, aborted.
\<close>







section \<open>Properties\<close>

subsection \<open>Placement\<close>

lemma smod_pos: "0 < C \<Longrightarrow> int i smod C = int (i mod nat C)"
  by (cases "i = 0") (simp_all add: smod_int_alt_def zmod_int)

lemma floor_nat: "\<lfloor>real i / real_of_int (int n)\<rfloor> = int (i div n)"
  by (simp only: of_int_of_nat_eq floor_divide_of_nat_eq)

lemma floor_pos: "0 < C \<Longrightarrow> \<lfloor>real i / real_of_int C\<rfloor> = int (i div nat C)"
  using floor_nat [of i "nat C"] by (simp only: int_nat_eq less_imp_le if_True)

lemma placement_wrap:
  "0 < C \<Longrightarrow> placement wrap i ox oy ow oh g C =
     Some (ox + (real (i mod nat C) + 1) * (ow + g), oy + real (i div nat C) * (oh + g))"
  by (simp add: placement_def Let_def smod_pos floor_pos)

lemma nodeX_setPosition: "nodeX (setPosition cx cy n) = cx"
  by (cases n) simp_all

lemma nodeY_setPosition: "nodeY (setPosition cx cy n) = cy"
  by (cases n) simp_all

text \<open>
  Claim C8. The clone's position is a function of the language index, the original's
  geometry, the gap and the number of wrap columns alone: in row mode the clone of
  index \<open>i\<close> is at \<open>x = original.x + (i+1) * (width + gap)\<close> with \<open>y\<close> unchanged; in
  column mode at \<open>y = original.y + (i+1) * (height + gap)\<close> with \<open>x\<close> unchanged; in wrap
  mode with \<open>C > 0\<close> columns at \<open>x = original.x + (i mod C + 1) * (width + gap)\<close>,
  \<open>y = original.y + (i div C) * (height + gap)\<close>. In each of these cases
  \<^verbatim>\<open>duplicateAndPlace\<close> returns.
\<close>

theorem duplicateAndPlace_position:
  fixes original cloned :: sceneNode and i :: nat and s :: pluginSettings
  shows "(layoutMode s = row \<longrightarrow>
            (\<exists>clone m. duplicateAndPlace original cloned i lang s es = Some (clone, m)
               \<and> nodeX clone = nodeX original + (real i + 1) * (nodeWidth original + gap s)
               \<and> nodeY clone = nodeY original))
       \<and> (layoutMode s = column \<longrightarrow>
            (\<exists>clone m. duplicateAndPlace original cloned i lang s es = Some (clone, m)
               \<and> nodeX clone = nodeX original
               \<and> nodeY clone = nodeY original + (real i + 1) * (nodeHeight original + gap s)))
       \<and> (layoutMode s = wrap \<and> 0 < wrapColumns s \<longrightarrow>
            (\<exists>clone m. duplicateAndPlace original cloned i lang s es = Some (clone, m)
               \<and> nodeX clone = nodeX original
                    + (real (i mod nat (wrapColumns s)) + 1) * (nodeWidth original + gap s)
               \<and> nodeY clone = nodeY original
                    + real (i div nat (wrapColumns s)) * (nodeHeight original + gap s)))"
proof (intro conjI impI)
  assume "layoutMode s = row"
  then show "\<exists>clone m. duplicateAndPlace original cloned i lang s es = Some (clone, m)
               \<and> nodeX clone = nodeX original + (real i + 1) * (nodeWidth original + gap s)
               \<and> nodeY clone = nodeY original"
    by (simp add: duplicateAndPlace_def placement_def Let_def nodeX_setPosition
        nodeY_setPosition)
next
  assume "layoutMode s = column"
  then show "\<exists>clone m. duplicateAndPlace original cloned i lang s es = Some (clone, m)
               \<and> nodeX clone = nodeX original
               \<and> nodeY clone = nodeY original + (real i + 1) * (nodeHeight original + gap s)"
    by (simp add: duplicateAndPlace_def placement_def Let_def nodeX_setPosition
        nodeY_setPosition)
next
  assume "layoutMode s = wrap \<and> 0 < wrapColumns s"
  then show "\<exists>clone m. duplicateAndPlace original cloned i lang s es = Some (clone, m)
               \<and> nodeX clone = nodeX original
                    + (real (i mod nat (wrapColumns s)) + 1) * (nodeWidth original + gap s)
               \<and> nodeY clone = nodeY original
                    + real (i div nat (wrapColumns s)) * (nodeHeight original + gap s)"
    by (simp add: duplicateAndPlace_def placement_wrap Let_def nodeX_setPosition
        nodeY_setPosition)
qed

text \<open>
  The examples of the claim, on a card of width 200 and height 100 with gap 80: row
  mode, index 0; column mode, index 0; wrap mode with 3 columns, index 4.
\<close>

theorem duplicateAndPlace_position_witness:
  "(\<exists>clone m. duplicateAndPlace exOriginal exClone 0 exLanguage (exSettings row) [] = Some (clone, m)
      \<and> nodeX clone = nodeX exOriginal + 280 \<and> nodeY clone = nodeY exOriginal)
   \<and> (\<exists>clone m. duplicateAndPlace exOriginal exClone 0 exLanguage (exSettings column) [] = Some (clone, m)
      \<and> nodeX clone = nodeX exOriginal \<and> nodeY clone = nodeY exOriginal + 180)
   \<and> (\<exists>clone m. duplicateAndPlace exOriginal exClone 4 exLanguage (exSettings wrap) [] = Some (clone, m)
      \<and> nodeX clone = nodeX exOriginal + 2 * 280 \<and> nodeY clone = nodeY exOriginal + 1 * 180)"
  using
    duplicateAndPlace_position [where s = "exSettings row" and original = exOriginal
      and cloned = exClone and i = 0 and lang = exLanguage and es = "[]"]
    duplicateAndPlace_position [where s = "exSettings column" and original = exOriginal
      and cloned = exClone and i = 0 and lang = exLanguage and es = "[]"]
    duplicateAndPlace_position [where s = "exSettings wrap" and original = exOriginal
      and cloned = exClone and i = 4 and lang = exLanguage and es = "[]"]
  by (simp add: exSettings_def exOriginal_def exFrame_def)

subsection \<open>The text-node map\<close>

lemma string_of_nat_small: "n < 10 \<Longrightarrow> string_of_nat n = [digitChar n]"
  by (subst string_of_nat.simps) simp

lemma string_of_nat_big:
  "\<not> n < 10 \<Longrightarrow> string_of_nat n = string_of_nat (n div 10) @ [digitChar (n mod 10)]"
  by (subst string_of_nat.simps) simp

lemma string_of_nat_nonempty: "string_of_nat n \<noteq> []"
  by (cases "n < 10") (simp_all add: string_of_nat_small string_of_nat_big)

lemma string_of_nat_nonempty': "[] \<noteq> string_of_nat n"
  using string_of_nat_nonempty [of n] by (rule not_sym)

lemma digitChar_inj:
  assumes "a < 10" "b < 10" "digitChar a = digitChar b"
  shows "a = b"
proof -
  from assms(3) have "of_char (char_of (48 + a) :: char) = (of_char (char_of (48 + b) :: char) :: nat)"
    by (simp add: digitChar_def)
  then have "(48 + a) mod 256 = (48 + b) mod 256" by simp
  with assms(1,2) show ?thesis by simp
qed

lemma string_of_nat_inj: "string_of_nat m = string_of_nat n \<Longrightarrow> m = n"
proof (induction m arbitrary: n rule: string_of_nat.induct)
  case (1 m)
  show ?case
  proof (cases "m < 10")
    case msmall: True
    show ?thesis
    proof (cases "n < 10")
      case True
      with msmall "1.prems" show ?thesis
        by (simp add: string_of_nat_small digitChar_inj)
    next
      case False
      with msmall "1.prems" show ?thesis
        by (simp add: string_of_nat_small string_of_nat_big string_of_nat_nonempty string_of_nat_nonempty')
    qed
  next
    case mbig: False
    show ?thesis
    proof (cases "n < 10")
      case True
      with mbig "1.prems" show ?thesis
        by (simp add: string_of_nat_small string_of_nat_big string_of_nat_nonempty string_of_nat_nonempty')
    next
      case False
      with mbig "1.prems" have eq: "string_of_nat (m div 10) = string_of_nat (n div 10)"
        and d: "digitChar (m mod 10) = digitChar (n mod 10)"
        by (simp_all add: string_of_nat_big)
      from "1.IH" [OF mbig eq] have "m div 10 = n div 10" .
      moreover from d have "m mod 10 = n mod 10" by (intro digitChar_inj) simp_all
      ultimately show ?thesis by (metis div_mult_mod_eq)
    qed
  qed
qed

lemma entryIdOf_inj: "entryIdOf j = entryIdOf k \<longleftrightarrow> j = k"
  by (auto simp: entryIdOf_def dest: string_of_nat_inj)


lemma scanned_Nil: "scanned k [] = []"
  by (simp add: scanned_def)

lemma scanned_append:
  "scanned k (xs @ ys) = scanned k xs @ scanned (k + length (filter translatable xs)) ys"
  by (simp add: scanned_def enumerate_append_eq)

lemma scanWalk_leaf:
  "entries (scanWalk (TextLeaf tn) st) = entries st @ scanned (idx st) [tn]
   \<and> idx (scanWalk (TextLeaf tn) st) = idx st + length (filter translatable [tn])"
  by (simp add: scanned_def translatable_def Let_def)

lemma scanWalk_fold:
  assumes "\<And>c st. c \<in> set cs \<Longrightarrow>
      entries (scanWalk c st) = entries st @ scanned (idx st) (collectTextNodes c)
      \<and> idx (scanWalk c st) = idx st + length (filter translatable (collectTextNodes c))"
  shows "entries (fold scanWalk cs st) = entries st @ scanned (idx st) (concat (map collectTextNodes cs))
      \<and> idx (fold scanWalk cs st) = idx st + length (filter translatable (concat (map collectTextNodes cs)))"
  using assms
proof (induction cs arbitrary: st)
  case Nil
  then show ?case by (simp add: scanned_Nil)
next
  case (Cons c cs)
  have h: "entries (scanWalk c st) = entries st @ scanned (idx st) (collectTextNodes c)"
    "idx (scanWalk c st) = idx st + length (filter translatable (collectTextNodes c))"
    using Cons.prems [of c st] by simp_all
  have ih: "entries (fold scanWalk cs (scanWalk c st)) =
         entries (scanWalk c st) @ scanned (idx (scanWalk c st)) (concat (map collectTextNodes cs))
      \<and> idx (fold scanWalk cs (scanWalk c st)) =
         idx (scanWalk c st) + length (filter translatable (concat (map collectTextNodes cs)))"
    by (rule Cons.IH) (simp add: Cons.prems)
  show ?case using ih h by (simp add: scanned_append)
qed

lemma scanWalk_scanned:
  "entries (scanWalk n st) = entries st @ scanned (idx st) (collectTextNodes n)
   \<and> idx (scanWalk n st) = idx st + length (filter translatable (collectTextNodes n))"
proof (induction n arbitrary: st)
  case (TextLeaf tn)
  show ?case using scanWalk_leaf [of tn st] by simp
next
  case (Inner info children)
  show ?case using scanWalk_fold [of children st] Inner.IH by simp
qed

lemma scanTextNodes_scanned:
  "entries (scanTextNodes n) = scanned 0 (collectTextNodes n)"
  using scanWalk_scanned [of n] by (simp add: scanTextNodes_def)


lemma nodeId_scanned: "map nodeId (scanned k ts) = map textId (filter translatable ts)"
proof -
  have "map nodeId (scanned k ts) = map (textId \<circ> snd) (List.enumerate k (filter translatable ts))"
    by (simp add: scanned_def entryOf_def case_prod_unfold comp_def)
  also have "\<dots> = map textId (map snd (List.enumerate k (filter translatable ts)))"
    by (simp only: map_map)
  finally show ?thesis by (simp only: map_snd_enumerate)
qed

lemma find_append_cases:
  "find P (xs @ ys) = (case find P xs of None \<Rightarrow> find P ys | Some a \<Rightarrow> Some a)"
  by (induction xs) simp_all

lemma find_scanned_miss:
  assumes "textId t \<notin> textId ` set ts"
  shows "find (\<lambda>e. nodeId e = textId t) (scanned k ts) = None"
proof -
  have "set (map nodeId (scanned k ts)) \<subseteq> textId ` set ts"
    by (auto simp only: nodeId_scanned set_map set_filter)
  with assms have "\<forall>e\<in>set (scanned k ts). nodeId e \<noteq> textId t"
    by (metis image_eqI list.set_map subsetD)
  then show ?thesis by (simp add: find_None_iff)
qed

lemma scanned_single:
  "scanned k [t] = (if translatable t then [entryOf k t] else [])"
  by (simp add: scanned_def)

lemma find_scanned:
  assumes "distinct (map textId (ts1 @ t # ts2))"
  shows "find (\<lambda>e. nodeId e = textId t) (scanned k (ts1 @ t # ts2)) =
         (if translatable t then Some (entryOf (k + length (filter translatable ts1)) t) else None)"
proof -
  from assms have n1: "textId t \<notin> textId ` set ts1" and n2: "textId t \<notin> textId ` set ts2"
    by auto
  have split: "scanned k (ts1 @ t # ts2) =
      scanned k ts1 @ scanned (k + length (filter translatable ts1)) [t]
        @ scanned (k + length (filter translatable ts1) + length (filter translatable [t])) ts2"
    using scanned_append [of k ts1 "[t] @ ts2"]
      scanned_append [of "k + length (filter translatable ts1)" "[t]" ts2]
    by simp
  show ?thesis
    unfolding split
    by (simp add: find_append_cases find_scanned_miss [OF n1] find_scanned_miss [OF n2]
        scanned_single entryOf_def)
qed

lemma update_fresh: "k \<notin> fst ` set m \<Longrightarrow> AList.update k v m = m @ [(k, v)]"
  by (induction m) auto

lemma fold_mapStep:
  assumes "distinct (map textId (ts1 @ ts2))"
    and "map fst m = map entryIdOf [0..<length (filter translatable ts1)]"
  shows "fold (mapStep (scanned 0 (ts1 @ ts2))) (zip ts2 cs) m =
         m @ zip (map entryIdOf [length (filter translatable ts1) ..<
                      length (filter translatable ts1)
                        + length (filter (translatable \<circ> fst) (zip ts2 cs))])
                 (map snd (filter (translatable \<circ> fst) (zip ts2 cs)))"
  using assms
proof (induction ts2 arbitrary: ts1 cs m)
  case Nil
  then show ?case by simp
next
  case (Cons t ts2)
  show ?case
  proof (cases cs)
    case Nil
    then show ?thesis by simp
  next
    case cs: (Cons c cs')
    let ?j = "length (filter translatable ts1)"
    have d: "distinct (map textId ((ts1 @ [t]) @ ts2))" using Cons.prems(1) by simp
    have fnd: "find (\<lambda>e. nodeId e = textId t) (scanned 0 (ts1 @ t # ts2)) =
         (if translatable t then Some (entryOf ?j t) else None)"
      using find_scanned [OF Cons.prems(1), of 0] by simp
    show ?thesis
    proof (cases "translatable t")
      case False
      then have step: "mapStep (scanned 0 (ts1 @ t # ts2)) (t, c) m = m"
        by (simp add: mapStep_def fnd)
      have keys: "map fst m = map entryIdOf [0..<length (filter translatable (ts1 @ [t]))]"
        using Cons.prems(2) False by simp
      from Cons.IH [OF d keys, of cs'] False step cs show ?thesis by simp
    next
      case True
      have fresh: "entryIdOf ?j \<notin> fst ` set m"
      proof -
        have "fst ` set m = set (map fst m)" by simp
        also have "\<dots> = entryIdOf ` {0..<?j}" using Cons.prems(2) by simp
        finally show ?thesis by (auto simp: entryIdOf_inj)
      qed
      have step: "mapStep (scanned 0 (ts1 @ t # ts2)) (t, c) m = m @ [(entryIdOf ?j, c)]"
        using True by (simp add: mapStep_def fnd entryOf_def update_fresh [OF fresh])
      have keys: "map fst (m @ [(entryIdOf ?j, c)]) =
                    map entryIdOf [0..<length (filter translatable (ts1 @ [t]))]"
        using Cons.prems(2) True by simp
      from Cons.IH [OF d keys, of cs'] True step cs show ?thesis
        by (simp del: upt_Suc add: upt_conv_Cons)
    qed
  qed
qed

lemma buildTextNodeMap_scanned:
  assumes "distinct (map textId ts)"
  shows "buildTextNodeMap (scanned 0 ts) ts cs =
         zip (map entryIdOf [0..<length (filter (translatable \<circ> fst) (zip ts cs))])
             (map snd (filter (translatable \<circ> fst) (zip ts cs)))"
  using fold_mapStep [of "[]" ts "[]" cs] assms by (simp add: buildTextNodeMap_def)

lemma filter_fst_zip:
  "map fst (filter (P \<circ> fst) (zip xs ys)) = filter P (take (length ys) xs)"
proof (induction xs arbitrary: ys)
  case Nil
  then show ?case by simp
next
  case (Cons a xs)
  then show ?case by (cases ys) simp_all
qed

lemma length_filter_fst_zip:
  "length (filter (P \<circ> fst) (zip xs ys)) = length (filter P (take (min (length xs) (length ys)) xs))"
proof -
  have "length (filter (P \<circ> fst) (zip xs ys)) = length (map fst (filter (P \<circ> fst) (zip xs ys)))"
    by simp
  also have "\<dots> = length (filter P (take (length ys) xs))"
    by (simp only: filter_fst_zip)
  also have "take (length ys) xs = take (min (length xs) (length ys)) xs"
    by (simp add: min_def)
  finally show ?thesis .
qed

lemma filter_all_zip:
  "list_all P xs \<Longrightarrow> filter (P \<circ> fst) (zip xs ys) = zip xs ys"
  by (rule filter_True) (auto simp: list_all_iff dest: set_zip_leftD)

lemma filter_nth_position:
  assumes "i < length ps" "P (ps ! i)"
  shows "length (filter P (take i ps)) < length (filter P ps)
       \<and> filter P ps ! length (filter P (take i ps)) = ps ! i"
proof -
  have "ps = take i ps @ ps ! i # drop (Suc i) ps"
    using assms(1) by (rule id_take_nth_drop)
  then have "filter P ps = filter P (take i ps @ ps ! i # drop (Suc i) ps)"
    by simp
  also have "\<dots> = filter P (take i ps) @ ps ! i # filter P (drop (Suc i) ps)"
    using assms(2) by simp
  finally show ?thesis by (simp add: nth_append)
qed

lemma positional_lookup:
  assumes m: "m = zip (map entryIdOf [0..<length F]) (map snd F)"
    and F: "F = filter (translatable \<circ> fst) (zip ts cs)"
    and i: "i < length ts" "i < length cs" and tr: "translatable (ts ! i)"
  shows "map_of m (entryIdOf (length (filter translatable (take i ts)))) = Some (cs ! i)"
proof -
  let ?ps = "zip ts cs"
  let ?k = "length (filter (translatable \<circ> fst) (take i ?ps))"
  have len: "i < length ?ps" using i by simp
  have P: "(translatable \<circ> fst) (?ps ! i)" using i tr by simp
  from filter_nth_position [where P = "translatable \<circ> fst" and ps = ?ps and i = i] len P
  have k: "?k < length F" and at: "F ! ?k = ?ps ! i" by (simp_all add: F)
  have "?k = length (filter (translatable \<circ> fst) (zip (take i ts) (take i cs)))"
    by (simp add: take_zip)
  also have "\<dots> = length (map fst (filter (translatable \<circ> fst) (zip (take i ts) (take i cs))))"
    by simp
  also have "\<dots> = length (filter translatable (take (length (take i cs)) (take i ts)))"
    by (simp only: filter_fst_zip)
  also have "\<dots> = length (filter translatable (take i ts))" using i by simp
  finally have keq: "?k = length (filter translatable (take i ts))" .
  let ?ids = "map entryIdOf [0..<length F]"
  have d: "distinct ?ids" by (simp add: distinct_map inj_on_def entryIdOf_inj)
  have l: "length ?ids = length (map snd F)" by simp
  have kk: "?k < length (map snd F)" using k by simp
  from map_of_zip_nth [OF l d kk]
  have "map_of m (?ids ! ?k) = Some (map snd F ! ?k)" by (simp only: m)
  moreover have "?ids ! ?k = entryIdOf ?k" using k by simp
  moreover have "map snd F ! ?k = cs ! i" using k at i by simp
  ultimately show ?thesis by (simp only: keq)
qed

lemma trimIsEmpty_examples:
  "\<not> trimIsEmpty ''Hello''" "\<not> trimIsEmpty ''World''" "trimIsEmpty ''  ''" "trimIsEmpty nbsp"
  by code_simp+

lemma entryIdOf_0: "entryIdOf 0 = ''t0''"
  by code_simp

lemma entryIdOf_1: "entryIdOf (Suc 0) = ''t1''"
  by code_simp


text \<open>
  Claim C1, as stated, fails: the map has one entry per index at which the original's
  text node has a scan entry, and the scan skips a text node that is empty after
  trimming or locked. On a card whose second text node holds two spaces, and on one
  whose first text node holds a no-break space, original and clone have two text nodes
  each and the map has one entry.
\<close>

theorem textNodeMap_size_counterexample:
  "map_option (length \<circ> snd)
     (duplicateAndPlace exOriginal exClone 0 exLanguage (exSettings row)
        (entries (scanTextNodes exOriginal))) = Some 1
   \<and> min (length (collectTextNodes exOriginal)) (length (collectTextNodes exClone)) = 2
   \<and> map_option (length \<circ> snd)
       (duplicateAndPlace exOriginal3 exClone3 0 exLanguage (exSettings row)
          (entries (scanTextNodes exOriginal3))) = Some 1
   \<and> min (length (collectTextNodes exOriginal3)) (length (collectTextNodes exClone3)) = 2"
  by (simp add: duplicateAndPlace_def placement_def exOriginal_def exClone_def exOriginal3_def
      exClone3_def exText_def
      exFrame_def exSettings_def exLanguage_def scanTextNodes_def Let_def trimIsEmpty_examples
      isInLockedChain_def buildTextNodeMap_def mapStep_def entryOf_def
      entryIdOf_def string_of_nat.simps digitChar_def)

text \<open>
  On the card whose first text node holds a no-break space only, the scan skips that
  node, and the one entry of the map pairs the id \<open>t0\<close> with the clone's text node at
  the depth-first index 1.
\<close>

lemma textNodeMap_skips_nbsp:
  "skippedEmpty (scanTextNodes exOriginal3) = 1
   \<and> map_option snd
       (duplicateAndPlace exOriginal3 exClone3 0 exLanguage (exSettings row)
          (entries (scanTextNodes exOriginal3))) = Some [(''t0'', exText ''2:3'' ''Hello'')]"
  by (simp add: duplicateAndPlace_def placement_def exOriginal3_def exClone3_def exText_def
      exFrame_def exSettings_def exLanguage_def scanTextNodes_def Let_def trimIsEmpty_examples
      isInLockedChain_def buildTextNodeMap_def mapStep_def entryOf_def entryIdOf_0)

text \<open>
  Claim C1, amended. Let the original's text nodes have distinct node ids and let the
  entries be those of the scan of the original. The map pairs by depth-first index,
  restricted to the translatable text nodes of the original: its values are the
  clone's text nodes at the indices (below both counts) where the original's text
  node is translatable, in order, under the keys \<open>t0, t1, ...\<close>. So its size is the
  number of translatable text nodes among the first \<open>min N N'\<close> of the original, at
  most \<open>min N N'\<close>. A translatable text node at an index \<open>i\<close> below both counts, with
  \<open>k\<close> translatable text nodes before it, has the entry \<open>t\<^sub>k\<close>, whose value is the
  clone's text node at index \<open>i\<close>. The size is exactly \<open>min N N'\<close> when every text
  node of the original is translatable; if moreover \<open>N' = N\<close>, the map sends \<open>t\<^sub>i\<close> to the clone's \<open>i\<close>-th text
  node for all \<open>i < N\<close>.
\<close>

theorem duplicateAndPlace_textNodeMap:
  assumes ids: "distinct (map textId (collectTextNodes original))"
    and res: "duplicateAndPlace original cloned i lang s (entries (scanTextNodes original))
                = Some (clone, m)"
  shows "map fst m = map entryIdOf [0..<length m]
       \<and> map snd m = map snd (filter (translatable \<circ> fst)
                          (zip (collectTextNodes original) (collectTextNodes clone)))
       \<and> length m = length (filter translatable
                          (take (min (length (collectTextNodes original))
                                     (length (collectTextNodes clone)))
                             (collectTextNodes original)))
       \<and> length m \<le> min (length (collectTextNodes original)) (length (collectTextNodes clone))
       \<and> (\<forall>i. i < length (collectTextNodes original) \<and> i < length (collectTextNodes clone)
              \<and> translatable (collectTextNodes original ! i) \<longrightarrow>
            map_of m (entryIdOf (length (filter translatable (take i (collectTextNodes original)))))
              = Some (collectTextNodes clone ! i))
       \<and> (list_all translatable (collectTextNodes original) \<longrightarrow>
            length m = min (length (collectTextNodes original)) (length (collectTextNodes clone)))
       \<and> (list_all translatable (collectTextNodes original)
            \<and> length (collectTextNodes clone) = length (collectTextNodes original) \<longrightarrow>
            m = zip (map entryIdOf [0..<length (collectTextNodes original)])
                    (collectTextNodes clone))"
proof -
  let ?ts = "collectTextNodes original" and ?cs = "collectTextNodes clone"
  let ?F = "filter (translatable \<circ> fst) (zip ?ts ?cs)"
  from res have m: "m = buildTextNodeMap (scanned 0 ?ts) ?ts ?cs"
    by (auto simp: duplicateAndPlace_def Let_def scanTextNodes_scanned split: option.splits)
  then have eq: "m = zip (map entryIdOf [0..<length ?F]) (map snd ?F)"
    using buildTextNodeMap_scanned [OF ids] by simp
  then have len: "length m = length ?F" by simp
  have keys: "map fst m = map entryIdOf [0..<length m]"
    by (subst (1) eq) (simp add: len)
  have vals: "map snd m = map snd ?F"
    by (subst eq) simp
  have count: "length m = length (filter translatable (take (min (length ?ts) (length ?cs)) ?ts))"
    using len by (simp only: length_filter_fst_zip)
  have le: "length m \<le> min (length ?ts) (length ?cs)"
  proof -
    have "length ?F \<le> length (zip ?ts ?cs)" by (rule length_filter_le)
    then show ?thesis using len by simp
  qed
  have full: "length m = min (length ?ts) (length ?cs)" if "list_all translatable ?ts"
    using len filter_all_zip [OF that, of ?cs] by simp
  have bij: "m = zip (map entryIdOf [0..<length ?ts]) ?cs"
    if "list_all translatable ?ts \<and> length ?cs = length ?ts"
  proof -
    from that have f: "?F = zip ?ts ?cs" by (simp add: filter_all_zip)
    from that have "map snd (zip ?ts ?cs) = ?cs" by simp
    with eq f that show ?thesis by simp
  qed
  have pos: "map_of m (entryIdOf (length (filter translatable (take i ?ts)))) = Some (?cs ! i)"
    if "i < length ?ts \<and> i < length ?cs \<and> translatable (?ts ! i)" for i
    using positional_lookup [OF eq refl, of i] that by blast
  from keys vals count le pos full bij show ?thesis by blast
qed


theorem duplicateAndPlace_textNodeMap_witness:
  "distinct (map textId (collectTextNodes exOriginal2))
   \<and> duplicateAndPlace exOriginal2 exClone2 0 exLanguage (exSettings row)
        (entries (scanTextNodes exOriginal2))
      = Some (setPosition 290 20 (setName (''Card'' @ enDash @ ''German (de)'') exClone2),
              [(''t0'', exText ''2:2'' ''Hello''), (''t1'', exText ''2:4'' ''World'')])
   \<and> list_all translatable (collectTextNodes exOriginal2)
   \<and> length [(''t0'', exText ''2:2'' ''Hello''), (''t1'', exText ''2:4'' ''World'')]
       = min (length (collectTextNodes exOriginal2)) (length (collectTextNodes exClone2))"
proof -
  let ?clone = "setPosition 290 20 (setName (''Card'' @ enDash @ ''German (de)'') exClone2)"
  let ?m = "[(''t0'', exText ''2:2'' ''Hello''), (''t1'', exText ''2:4'' ''World'')]"
  have d: "distinct (map textId (collectTextNodes exOriginal2))"
    by (simp add: exOriginal2_def exText_def)
  have r: "duplicateAndPlace exOriginal2 exClone2 0 exLanguage (exSettings row)
             (entries (scanTextNodes exOriginal2)) = Some (?clone, ?m)"
    by (simp add: duplicateAndPlace_def placement_def exOriginal2_def exClone2_def exText_def
        exFrame_def exSettings_def exLanguage_def scanTextNodes_def Let_def trimIsEmpty_examples
        isInLockedChain_def buildTextNodeMap_def mapStep_def entryOf_def
        entryIdOf_0 entryIdOf_1)
  have a: "list_all translatable (collectTextNodes exOriginal2)"
    by (simp add: exOriginal2_def exText_def translatable_def trimIsEmpty_examples
        isInLockedChain_def)
  have c: "length (collectTextNodes ?clone) = length (collectTextNodes exClone2)"
    by (simp add: exClone2_def)
  from duplicateAndPlace_textNodeMap [OF d r] a c
  have "length ?m = min (length (collectTextNodes exOriginal2)) (length (collectTextNodes exClone2))"
    by simp
  with d r a show ?thesis by blast
qed


subsection \<open>Ancestor overflow\<close>

lemma walkParents_find:
  "walkParents nb ps =
     (case find (offends nb) (reachable ps) of
        None \<Rightarrow> \<lparr>overflows = False, parentName = []\<rparr>
      | Some a \<Rightarrow> \<lparr>overflows = True, parentName = baseName a\<rparr>)"
proof (induction ps)
  case Nil
  show ?case by (simp add: reachable_def)
next
  case (Cons p ps)
  show ?case
  proof (cases "baseType p = PAGE \<or> baseType p = DOCUMENT")
    case True
    then show ?thesis by (auto simp: reachable_def)
  next
    case False
    then have r: "reachable (p # ps) = p # reachable ps" by (simp add: reachable_def)
    show ?thesis
    proof (cases "offends nb p")
      case True
      with False show ?thesis
        unfolding r by (auto simp: offends_def Let_def split: option.splits)
    next
      case no: False
      with False have "walkParents nb (p # ps) = walkParents nb ps"
        by (auto simp: offends_def Let_def split: option.splits)
      with no Cons.IH show ?thesis unfolding r by simp
    qed
  qed
qed

lemma checkParentOverflow_find:
  "checkParentOverflow node =
     (case absoluteBoundingBox node of
        None \<Rightarrow> \<lparr>overflows = False, parentName = []\<rparr>
      | Some nb \<Rightarrow>
          (case find (offends nb) (reachable (parents node)) of
             None \<Rightarrow> \<lparr>overflows = False, parentName = []\<rparr>
           | Some a \<Rightarrow> \<lparr>overflows = True, parentName = baseName a\<rparr>))"
  by (simp add: checkParentOverflow_def walkParents_find split: option.splits)

lemma overflows_iff:
  "overflows (checkParentOverflow node) \<longleftrightarrow>
     (\<exists>nb. absoluteBoundingBox node = Some nb
        \<and> (\<exists>a\<in>set (reachable (parents node)). offends nb a))"
proof (cases "absoluteBoundingBox node")
  case None
  then show ?thesis by (simp add: checkParentOverflow_find)
next
  case (Some nb)
  show ?thesis
  proof (cases "find (offends nb) (reachable (parents node))")
    case None
    then have "\<forall>a\<in>set (reachable (parents node)). \<not> offends nb a"
      by (simp add: find_None_iff)
    with Some None show ?thesis by (simp add: checkParentOverflow_find)
  next
    case found: (Some a)
    then have "a \<in> set (reachable (parents node)) \<and> offends nb a"
      by (auto simp: find_Some_iff)
    with Some found show ?thesis by (auto simp: checkParentOverflow_find)
  qed
qed

lemma reachable_prefix:
  assumes "\<forall>p\<in>set pre. baseType p \<noteq> PAGE \<and> baseType p \<noteq> DOCUMENT"
    and "baseType a \<noteq> PAGE \<and> baseType a \<noteq> DOCUMENT"
  shows "reachable (pre @ a # post) = pre @ a # reachable post"
  using assms by (simp add: reachable_def takeWhile_append2)

lemma offends_not_page: "offends nb a \<Longrightarrow> baseType a \<noteq> PAGE \<and> baseType a \<noteq> DOCUMENT"
  by (auto simp: offends_def isFrameLike_def)

lemma nearest_offender:
  assumes "absoluteBoundingBox node = Some nb"
    and "parents node = pre @ a # post"
    and "\<forall>p\<in>set pre. baseType p \<noteq> PAGE \<and> baseType p \<noteq> DOCUMENT \<and> \<not> offends nb p"
    and "offends nb a"
  shows "checkParentOverflow node = \<lparr>overflows = True, parentName = baseName a\<rparr>"
proof -
  have r: "reachable (parents node) = pre @ a # reachable post"
    using assms(2,3) offends_not_page [OF assms(4)] by (simp add: reachable_prefix)
  have "find (offends nb) (pre @ a # reachable post) = Some a"
    using assms(3,4) by (induction pre) simp_all
  with assms(1) r show ?thesis by (simp add: checkParentOverflow_find)
qed

lemma within_right_bottom:
  assumes "absoluteBoundingBox node = Some nb"
    and "\<forall>a\<in>set (reachable (parents node)). \<forall>fb. baseBounds a = Some fb \<longrightarrow>
           rectX nb + rectWidth nb \<le> rectX fb + rectWidth fb + 1
           \<and> rectY nb + rectHeight nb \<le> rectY fb + rectHeight fb + 1"
  shows "\<not> overflows (checkParentOverflow node)"
proof -
  have "\<not> offends nb a" if "a \<in> set (reachable (parents node))" for a
    using assms(2) that by (fastforce simp: offends_def split: option.splits)
  with assms(1) show ?thesis by (auto simp: overflows_iff)
qed

text \<open>
  Claim C10. The ancestor check reports breakage exactly when the node has bounds and
  some reachable ancestor offends: it is frame-like and the node's right edge exceeds
  its right edge by more than 1 while it is fixed horizontally, or the node's bottom
  edge exceeds its bottom edge by more than 1 while it is fixed vertically. The left
  and top edges are never compared: a node whose right and bottom edges stay within
  every reachable ancestor is not reported, wherever its left and top edges are. The
  nearest offending ancestor ends the walk and gives the reported name, whatever lies
  above it.
\<close>

theorem checkParentOverflow_edges:
  "(overflows (checkParentOverflow node) \<longleftrightarrow>
      (\<exists>nb. absoluteBoundingBox node = Some nb
         \<and> (\<exists>a\<in>set (reachable (parents node)). offends nb a)))
   \<and> (\<forall>nb. absoluteBoundingBox node = Some nb
         \<and> (\<forall>a\<in>set (reachable (parents node)). \<forall>fb. baseBounds a = Some fb \<longrightarrow>
               rectX nb + rectWidth nb \<le> rectX fb + rectWidth fb + 1
               \<and> rectY nb + rectHeight nb \<le> rectY fb + rectHeight fb + 1)
         \<longrightarrow> \<not> overflows (checkParentOverflow node))
   \<and> (\<forall>nb pre a post.
         absoluteBoundingBox node = Some nb \<and> parents node = pre @ a # post
         \<and> (\<forall>p\<in>set pre. baseType p \<noteq> PAGE \<and> baseType p \<noteq> DOCUMENT \<and> \<not> offends nb p)
         \<and> offends nb a
         \<longrightarrow> checkParentOverflow node = \<lparr>overflows = True, parentName = baseName a\<rparr>)"
proof (intro conjI allI impI)
  show "overflows (checkParentOverflow node) \<longleftrightarrow>
      (\<exists>nb. absoluteBoundingBox node = Some nb
         \<and> (\<exists>a\<in>set (reachable (parents node)). offends nb a))"
    by (rule overflows_iff)
next
  fix nb
  assume "absoluteBoundingBox node = Some nb
         \<and> (\<forall>a\<in>set (reachable (parents node)). \<forall>fb. baseBounds a = Some fb \<longrightarrow>
               rectX nb + rectWidth nb \<le> rectX fb + rectWidth fb + 1
               \<and> rectY nb + rectHeight nb \<le> rectY fb + rectHeight fb + 1)"
  then show "\<not> overflows (checkParentOverflow node)"
    using within_right_bottom [of node nb] by blast
next
  fix nb pre a post
  assume "absoluteBoundingBox node = Some nb \<and> parents node = pre @ a # post
         \<and> (\<forall>p\<in>set pre. baseType p \<noteq> PAGE \<and> baseType p \<noteq> DOCUMENT \<and> \<not> offends nb p)
         \<and> offends nb a"
  then show "checkParentOverflow node = \<lparr>overflows = True, parentName = baseName a\<rparr>"
    using nearest_offender [of node nb pre a post] by blast
qed

text \<open>
  Two text nodes in a hugging row inside a fixed card of 200 by 100 at the origin. The
  first sticks out of both ancestors at the left and at the top and is not reported.
  The second exceeds the row and the card at the right: the row is not fixed
  horizontally, so the card is the nearest offender.
\<close>

theorem checkParentOverflow_edges_witness:
  "\<not> overflows (checkParentOverflow (exPlaced (-50) (-30) 100 20))
   \<and> checkParentOverflow (exPlaced 150 10 100 20) = \<lparr>overflows = True, parentName = ''Card''\<rparr>"
proof -
  let ?n1 = "exPlaced (-50) (-30) 100 20"
  let ?nb1 = "\<lparr>rectX = -50, rectY = -30, rectWidth = 100, rectHeight = 20\<rparr>"
  let ?n2 = "exPlaced 150 10 100 20"
  let ?nb2 = "\<lparr>rectX = 150, rectY = 10, rectWidth = 100, rectHeight = 20\<rparr>"
  have b1: "absoluteBoundingBox ?n1 = Some ?nb1" by (simp add: exPlaced_def)
  have r1: "reachable (parents ?n1) = [exRow, exCard]"
    by (simp add: reachable_def exPlaced_def exRow_def exCard_def exPage_def)
  have w1: "\<forall>a\<in>set (reachable (parents ?n1)). \<forall>fb. baseBounds a = Some fb \<longrightarrow>
               rectX ?nb1 + rectWidth ?nb1 \<le> rectX fb + rectWidth fb + 1
               \<and> rectY ?nb1 + rectHeight ?nb1 \<le> rectY fb + rectHeight fb + 1"
    unfolding r1 by (auto simp: exRow_def exCard_def)
  have c1: "\<not> overflows (checkParentOverflow ?n1)"
    using checkParentOverflow_edges [of ?n1] b1 w1 by blast
  have b2: "absoluteBoundingBox ?n2 = Some ?nb2" by (simp add: exPlaced_def)
  have p2: "parents ?n2 = [exRow] @ exCard # [exPage]" by (simp add: exPlaced_def)
  have pre2: "\<forall>p\<in>set [exRow]. baseType p \<noteq> PAGE \<and> baseType p \<noteq> DOCUMENT \<and> \<not> offends ?nb2 p"
    by (simp add: exRow_def offends_def isFrameLike_def isFixedOnAxis_def)
  have o2: "offends ?nb2 exCard"
    by (simp add: exCard_def offends_def isFrameLike_def isFixedOnAxis_def)
  have "checkParentOverflow ?n2 = \<lparr>overflows = True, parentName = baseName exCard\<rparr>"
    using checkParentOverflow_edges [of ?n2] b2 p2 pre2 o2 by blast
  then have c2: "checkParentOverflow ?n2 = \<lparr>overflows = True, parentName = ''Card''\<rparr>"
    by (simp add: exCard_def)
  from c1 c2 show ?thesis by simp
qed

subsection \<open>The QA pass\<close>

lemma measure_NONE:
  assumes "textAutoResize tn = NONE"
  shows "measureNeededHeight tn = (if fontLoaded tn then hugHeight tn else height tn, tn)"
proof (cases "fontLoaded tn")
  case False
  with assms show ?thesis
    by (simp add: measureNeededHeight_def host_setTextAutoResize_def restoreState_def Let_def)
next
  case True
  let ?t1 = "tn\<lparr>height := hugHeight tn, textAutoResize := HEIGHT\<rparr>"
  have s: "host_setTextAutoResize HEIGHT tn = Some ?t1"
    using True by (simp add: host_setTextAutoResize_def)
  have restored: "?t1\<lparr>textAutoResize := NONE, width := width tn, height := height tn\<rparr> = tn"
    using assms by (intro textNode.equality) simp_all
  have r: "restoreState NONE (width tn) (height tn) ?t1 = (tn, True)"
    using True restored by (simp add: restoreState_def host_setTextAutoResize_def host_resize_def)
  show ?thesis
    using True assms s r by (simp add: measureNeededHeight_def Let_def)
qed

lemma measure_switches:
  assumes "textAutoResize tn = NONE" "fontLoaded tn"
  shows "\<exists>t1. host_setTextAutoResize HEIGHT tn = Some t1 \<and> textAutoResize t1 = HEIGHT
           \<and> fst (measureNeededHeight tn) = height t1"
  using assms by (simp add: measure_NONE host_setTextAutoResize_def)

lemma qaUnit_node: "snd (qaUnit om k tn acc) = tn"
  by (cases "textAutoResize tn = NONE")
     (auto simp: qaUnit_def Let_def measure_NONE split: option.splits)

lemma qaLoop_nodes: "snd (qaLoop om m acc) = m"
proof (induction m arbitrary: acc)
  case Nil
  show ?case by simp
next
  case (Cons p m)
  obtain k tn where p: "p = (k, tn)" by (cases p)
  show ?case unfolding p by (simp add: Let_def qaUnit_node Cons.IH)
qed

lemma runQA_nodes: "snd (runQA m es lang fe) = m"
  by (simp add: runQA_def Let_def qaLoop_nodes)

lemma qaUnit_fixed_overflow:
  assumes "parents tn \<noteq> []" "om k = Some original" "textAutoResize tn = NONE"
    and "fst (measureNeededHeight tn) > height tn + 0.5"
  shows "qaUnit om k tn acc = (pushIssue k (overflowIssue tn) acc, tn)"
  using assms by (simp add: qaUnit_def Let_def measure_NONE split: if_splits)

lemma qaUnit_fixed_fits:
  assumes "parents tn \<noteq> []" "om k = Some original" "textAutoResize tn = NONE"
    and "\<not> fst (measureNeededHeight tn) > height tn + 0.5"
  shows "qaUnit om k tn acc = (checkContainer k tn acc, tn)"
  using assms by (simp add: qaUnit_def Let_def measure_NONE checkLineWrap_def split: if_splits)

lemma string_of_nat_2: "string_of_nat 2 = ''2''"
  by code_simp

lemma qaUnit_flowing:
  assumes "parents tn \<noteq> []" "om k = Some original" "textAutoResize tn \<noteq> NONE"
  shows "qaUnit om k tn acc =
           (checkContainer k tn (checkLineWrap k original (textAutoResize tn) tn acc), tn)"
  using assms by (simp add: qaUnit_def Let_def)


lemma pushIssue_issues: "accIssues (pushIssue k i acc) = accIssues acc @ [i]"
  by (simp add: pushIssue_def)

lemma pushIssue_ids: "set (accIds (pushIssue k i acc)) = insert k (set (accIds acc))"
  by (auto simp: pushIssue_def setAdd_def)

lemma checkLineWrap_issues:
  "accIssues (checkLineWrap k original r tn acc) =
     accIssues acc @ accIssues (checkLineWrap k original r tn emptyAcc)"
  by (simp add: checkLineWrap_def Let_def pushIssue_issues emptyAcc_def)

lemma checkContainer_issues:
  "accIssues (checkContainer k tn acc) =
     accIssues acc @ (if overflows (checkParentOverflow tn) then [containerIssue tn] else [])"
  by (simp add: checkContainer_def pushIssue_issues)

lemma qaUnit_issues_acc:
  "accIssues (fst (qaUnit om k tn acc)) =
     accIssues acc @ accIssues (fst (qaUnit om k tn emptyAcc))"
proof -
  have e: "accIssues emptyAcc = []" by (simp add: emptyAcc_def)
  show ?thesis
    unfolding qaUnit_def Let_def
    by (simp add: pushIssue_issues checkContainer_issues e
        checkLineWrap_issues [of k _ _ _ acc] split: option.splits)
qed

lemma qaLoop_issues_acc:
  "accIssues (fst (qaLoop om m acc)) = accIssues acc @ accIssues (fst (qaLoop om m emptyAcc))"
proof (induction m arbitrary: acc)
  case Nil
  show ?case by (simp add: emptyAcc_def)
next
  case (Cons p m)
  obtain k tn where p: "p = (k, tn)" by (cases p)
  have a: "accIssues (fst (qaLoop om m (fst (qaUnit om k tn acc)))) =
        accIssues (fst (qaUnit om k tn acc)) @ accIssues (fst (qaLoop om m emptyAcc))"
    by (rule Cons.IH)
  have b: "accIssues (fst (qaLoop om m (fst (qaUnit om k tn emptyAcc)))) =
        accIssues (fst (qaUnit om k tn emptyAcc)) @ accIssues (fst (qaLoop om m emptyAcc))"
    by (rule Cons.IH)
  show ?case
    unfolding p
    by (simp add: Let_def a b qaUnit_issues_acc [of om k tn acc])
qed

lemma qaLoop_append:
  "fst (qaLoop om (xs @ ys) acc) = fst (qaLoop om ys (fst (qaLoop om xs acc)))"
proof (induction xs arbitrary: acc)
  case Nil
  show ?case by simp
next
  case (Cons p xs)
  obtain k tn where p: "p = (k, tn)" by (cases p)
  show ?case unfolding p by (simp add: Let_def Cons.IH)
qed

lemma qaUnit_ids_mono: "set (accIds acc) \<subseteq> set (accIds (fst (qaUnit om k tn acc)))"
  unfolding qaUnit_def Let_def checkContainer_def checkLineWrap_def
  by (auto simp: pushIssue_ids split: option.splits)

lemma qaLoop_ids_mono: "set (accIds acc) \<subseteq> set (accIds (fst (qaLoop om m acc)))"
proof (induction m arbitrary: acc)
  case Nil
  show ?case by simp
next
  case (Cons p m)
  obtain k tn where p: "p = (k, tn)" by (cases p)
  have "set (accIds acc) \<subseteq> set (accIds (fst (qaUnit om k tn acc)))"
    by (rule qaUnit_ids_mono)
  also have "\<dots> \<subseteq> set (accIds (fst (qaLoop om m (fst (qaUnit om k tn acc)))))"
    by (rule Cons.IH)
  finally show ?case unfolding p by (simp add: Let_def)
qed

lemma runQA_issues:
  "issues (fst (runQA m es lang fe)) =
     accIssues (fst (qaLoop (buildOriginalMap es) m emptyAcc)) @ map (\<lambda>fontErr. fontIssue) fe"
  by (simp add: runQA_def Let_def emptyAcc_def)

lemma runQA_ids:
  "issueEntryIds (fst (runQA m es lang fe)) = accIds (fst (qaLoop (buildOriginalMap es) m emptyAcc))"
  by (simp add: runQA_def Let_def emptyAcc_def)

lemma runQA_status_unfold:
  "status (fst (runQA m es lang fe)) =
     (if filter (\<lambda>i. issueSeverity i = red) (issues (fst (runQA m es lang fe))) \<noteq> [] then red
      else if filter (\<lambda>i. issueSeverity i = amber) (issues (fst (runQA m es lang fe))) \<noteq> []
      then amber else green)"
  by (simp only: runQA_def Let_def fst_conv qaReport.select_convs length_greater_0_conv)

lemma runQA_status_red:
  assumes "i \<in> set (issues (fst (runQA m es lang fe)))" "issueSeverity i = red"
  shows "status (fst (runQA m es lang fe)) = red"
proof -
  from assms have "filter (\<lambda>i. issueSeverity i = red) (issues (fst (runQA m es lang fe))) \<noteq> []"
    by (auto simp only: filter_empty_conv)
  then show ?thesis by (subst runQA_status_unfold) simp
qed

lemma runQA_status_not_green:
  assumes "i \<in> set (issues (fst (runQA m es lang fe)))" "issueSeverity i = amber"
  shows "status (fst (runQA m es lang fe)) \<noteq> green"
proof -
  from assms have "filter (\<lambda>i. issueSeverity i = amber) (issues (fst (runQA m es lang fe))) \<noteq> []"
    by (auto simp only: filter_empty_conv)
  then show ?thesis by (subst runQA_status_unfold) simp
qed

text \<open>The report of a map with a unit in its middle.\<close>

lemma runQA_split_issues:
  "issues (fst (runQA (pre @ (k, tn) # post) es lang fe)) =
     issues (fst (runQA pre es lang []))
     @ accIssues (fst (qaUnit (buildOriginalMap es) k tn emptyAcc))
     @ issues (fst (runQA post es lang fe))"
proof -
  let ?om = "buildOriginalMap es"
  have "accIssues (fst (qaLoop ?om (pre @ (k, tn) # post) emptyAcc)) =
        accIssues (fst (qaLoop ?om ((k, tn) # post) (fst (qaLoop ?om pre emptyAcc))))"
    by (simp only: qaLoop_append)
  also have "\<dots> = accIssues (fst (qaLoop ?om pre emptyAcc))
        @ accIssues (fst (qaLoop ?om ((k, tn) # post) emptyAcc))"
    by (rule qaLoop_issues_acc)
  also have "accIssues (fst (qaLoop ?om ((k, tn) # post) emptyAcc)) =
        accIssues (fst (qaUnit ?om k tn emptyAcc)) @ accIssues (fst (qaLoop ?om post emptyAcc))"
    using qaLoop_issues_acc [of ?om post "fst (qaUnit ?om k tn emptyAcc)"]
    by (simp add: Let_def)
  finally show ?thesis by (simp add: runQA_issues)
qed

lemma runQA_split_ids:
  "set (accIds (fst (qaUnit (buildOriginalMap es) k tn acc)))
     \<subseteq> set (issueEntryIds (fst (runQA (pre @ (k, tn) # post) es lang fe)))" 
  if "acc = fst (qaLoop (buildOriginalMap es) pre emptyAcc)"
proof -
  let ?om = "buildOriginalMap es"
  have "fst (qaLoop ?om (pre @ (k, tn) # post) emptyAcc) =
        fst (qaLoop ?om post (fst (qaUnit ?om k tn acc)))"
    by (simp add: qaLoop_append that Let_def)
  then show ?thesis
    using qaLoop_ids_mono [of "fst (qaUnit ?om k tn acc)" ?om post]
    by (simp add: runQA_ids)
qed

lemma runQA_skip_unit:
  assumes "\<And>acc. fst (qaUnit (buildOriginalMap es) k tn acc) = acc"
  shows "fst (runQA (pre @ (k, tn) # post) es lang fe) = fst (runQA (pre @ post) es lang fe)"
proof -
  let ?om = "buildOriginalMap es"
  have "fst (qaLoop ?om (pre @ (k, tn) # post) acc) = fst (qaLoop ?om (pre @ post) acc)" for acc
    by (simp add: qaLoop_append Let_def assms)
  then show ?thesis by (simp add: runQA_def Let_def)
qed


lemma runQA_empty:
  "fst (runQA [] es lang []) =
     \<lparr>langCode = code lang, langName = name lang, status = green, issues = [],
      issueEntryIds = [], amberIssues = 0, redIssues = 0\<rparr>"
  by (simp add: runQA_def Let_def)

lemma exFixedBox_inside: "\<not> overflows (checkParentOverflow (exFixedBox h))"
  by (simp add: checkParentOverflow_def exFixedBox_def exText_def exCard_def exPage_def
      isFrameLike_def isFixedOnAxis_def Let_def)

lemma exFlowing_inside: "h \<le> 80 \<Longrightarrow> \<not> overflows (checkParentOverflow (exFlowing mode h))"
  by (simp add: checkParentOverflow_def exFlowing_def exText_def exCard_def exPage_def
      isFrameLike_def isFixedOnAxis_def Let_def)

text \<open>
  Claim C2. Let a mapped unit \<open>(k, tn)\<close> of the text-node map have a parent, a baseline
  entry and the mode \<^verbatim>\<open>NONE\<close>, wherever it stands in the map (\<open>pre\<close> before it,
  \<open>post\<close> after it). The needed height is measured by switching the node to \<^verbatim>\<open>HEIGHT\<close>
  and reading the height the host then gives it, and the measurement leaves the node as
  it was: mode, width and height restored (when the host refuses the write, the node is
  untouched and the needed height is its own height); the pass hands back the map it
  was given. If the needed height exceeds the node's height by more than 0.5, the
  report of \<open>runQA\<close> holds, between the issues of the units before and those of the
  units after, exactly one issue for the unit, the red text-overflow issue \<open>Overflow\<close>
  (no other check of the unit has run), the unit's id is among the report's issue entry
  ids, and the report's status is red. Otherwise the fixed-box check contributes
  nothing: the only issue the unit can have is that of the container check, and when
  that check is silent too the report is the one of the map without the unit.
\<close>

theorem fixed_box_check:
  assumes "parents tn \<noteq> []" and "buildOriginalMap es k = Some original"
    and "textAutoResize tn = NONE"
  shows "measureNeededHeight tn = (if fontLoaded tn then hugHeight tn else height tn, tn)
    \<and> (fontLoaded tn \<longrightarrow>
         (\<exists>t1. host_setTextAutoResize HEIGHT tn = Some t1 \<and> textAutoResize t1 = HEIGHT
            \<and> fst (measureNeededHeight tn) = height t1))
    \<and> snd (runQA (pre @ (k, tn) # post) es lang fe) = pre @ (k, tn) # post
    \<and> (fst (measureNeededHeight tn) > height tn + 0.5 \<longrightarrow>
         issues (fst (runQA (pre @ (k, tn) # post) es lang fe)) =
           issues (fst (runQA pre es lang []))
           @ [\<lparr>issueSeverity = red, issueKind = text_overflow, issueNodeId = textId tn,
                issueNodeName = textName tn, message = ''Overflow''\<rparr>]
           @ issues (fst (runQA post es lang fe))
         \<and> k \<in> set (issueEntryIds (fst (runQA (pre @ (k, tn) # post) es lang fe)))
         \<and> status (fst (runQA (pre @ (k, tn) # post) es lang fe)) = red)
    \<and> (\<not> fst (measureNeededHeight tn) > height tn + 0.5 \<longrightarrow>
         issues (fst (runQA (pre @ (k, tn) # post) es lang fe)) =
           issues (fst (runQA pre es lang []))
           @ (if overflows (checkParentOverflow tn) then [containerIssue tn] else [])
           @ issues (fst (runQA post es lang fe))
         \<and> (\<not> overflows (checkParentOverflow tn) \<longrightarrow>
              fst (runQA (pre @ (k, tn) # post) es lang fe) = fst (runQA (pre @ post) es lang fe)))"
proof -
  let ?om = "buildOriginalMap es"
  let ?whole = "fst (runQA (pre @ (k, tn) # post) es lang fe)"
  let ?issue = "\<lparr>issueSeverity = red, issueKind = text_overflow, issueNodeId = textId tn,
                issueNodeName = textName tn, message = ''Overflow''\<rparr>"
  have m: "measureNeededHeight tn = (if fontLoaded tn then hugHeight tn else height tn, tn)"
    using assms(3) by (rule measure_NONE)
  have sw: "fontLoaded tn \<longrightarrow>
         (\<exists>t1. host_setTextAutoResize HEIGHT tn = Some t1 \<and> textAutoResize t1 = HEIGHT
            \<and> fst (measureNeededHeight tn) = height t1)"
    using assms(3) measure_switches [of tn] by blast
  have nodes: "snd (runQA (pre @ (k, tn) # post) es lang fe) = pre @ (k, tn) # post"
    by (rule runQA_nodes)
  have over: "issues ?whole = issues (fst (runQA pre es lang [])) @ [?issue]
                @ issues (fst (runQA post es lang fe))
         \<and> k \<in> set (issueEntryIds ?whole) \<and> status ?whole = red"
    if big: "fst (measureNeededHeight tn) > height tn + 0.5"
  proof -
    have u: "qaUnit ?om k tn acc = (pushIssue k (overflowIssue tn) acc, tn)" for acc
      using qaUnit_fixed_overflow [where tn = tn and om = ?om and k = k and acc = acc] assms big
      by blast
    have ui: "accIssues (fst (qaUnit ?om k tn emptyAcc)) = [?issue]"
      by (simp add: u pushIssue_issues overflowIssue_def emptyAcc_def)
    have iss: "issues ?whole = issues (fst (runQA pre es lang [])) @ [?issue]
                @ issues (fst (runQA post es lang fe))"
      by (simp only: runQA_split_issues ui)
    have "k \<in> set (accIds (fst (qaUnit ?om k tn (fst (qaLoop ?om pre emptyAcc)))))"
      by (simp add: u pushIssue_ids)
    then have ids: "k \<in> set (issueEntryIds ?whole)"
      using runQA_split_ids [OF refl, of es k tn pre post lang fe] by blast
    have "?issue \<in> set (issues ?whole)" by (simp add: iss)
    then have "status ?whole = red" by (rule runQA_status_red) simp
    with iss ids show ?thesis by blast
  qed
  have fits: "issues ?whole = issues (fst (runQA pre es lang []))
           @ (if overflows (checkParentOverflow tn) then [containerIssue tn] else [])
           @ issues (fst (runQA post es lang fe))
         \<and> (\<not> overflows (checkParentOverflow tn) \<longrightarrow>
              ?whole = fst (runQA (pre @ post) es lang fe))"
    if small: "\<not> fst (measureNeededHeight tn) > height tn + 0.5"
  proof -
    have u: "qaUnit ?om k tn acc = (checkContainer k tn acc, tn)" for acc
      using qaUnit_fixed_fits [where tn = tn and om = ?om and k = k and acc = acc] assms small
      by blast
    have ui: "accIssues (fst (qaUnit ?om k tn emptyAcc)) =
                (if overflows (checkParentOverflow tn) then [containerIssue tn] else [])"
      by (simp add: u checkContainer_issues emptyAcc_def)
    have iss: "issues ?whole = issues (fst (runQA pre es lang []))
           @ (if overflows (checkParentOverflow tn) then [containerIssue tn] else [])
           @ issues (fst (runQA post es lang fe))"
      by (simp only: runQA_split_issues ui)
    have "?whole = fst (runQA (pre @ post) es lang fe)"
      if "\<not> overflows (checkParentOverflow tn)"
    proof (rule runQA_skip_unit)
      fix acc
      show "fst (qaUnit ?om k tn acc) = acc" using that by (simp add: u checkContainer_def)
    qed
    with iss show ?thesis by blast
  qed
  from m sw nodes over fits show ?thesis by blast
qed

text \<open>
  The examples of the claim, in one pass over two units: a box of fixed height 40
  whose text needs 40.3, followed by one whose text needs 41; and the pass over the
  first unit alone.
\<close>

theorem fixed_box_check_witness:
  "issues (fst (runQA [(''t0'', exFixedBox 40.3), (''t1'', exFixedBox 41)] exScan exLanguage [])) =
     [\<lparr>issueSeverity = red, issueKind = text_overflow, issueNodeId = ''2:2'',
       issueNodeName = ''Label'', message = ''Overflow''\<rparr>]
   \<and> ''t1'' \<in> set (issueEntryIds
         (fst (runQA [(''t0'', exFixedBox 40.3), (''t1'', exFixedBox 41)] exScan exLanguage [])))
   \<and> status (fst (runQA [(''t0'', exFixedBox 40.3), (''t1'', exFixedBox 41)] exScan exLanguage []))
       = red
   \<and> fst (runQA [(''t0'', exFixedBox 40.3)] exScan exLanguage []) =
       \<lparr>langCode = ''de'', langName = ''German'', status = green, issues = [],
        issueEntryIds = [], amberIssues = 0, redIssues = 0\<rparr>"
proof -
  have om0: "buildOriginalMap exScan ''t0'' = Some (exEntry 20 20)"
    by (simp add: buildOriginalMap_def exScan_def exEntry_def)
  have om1: "buildOriginalMap exScan ''t1''
               = Some ((exEntry 20 20)\<lparr>entryId := ''t1'', entryCharacters := ''Cancel''\<rparr>)"
    by (simp add: buildOriginalMap_def exScan_def exEntry_def)
  have p: "parents (exFixedBox h) \<noteq> []" for h by (simp add: exFixedBox_def)
  have n: "textAutoResize (exFixedBox h) = NONE" for h by (simp add: exFixedBox_def)
  have hm: "fst (measureNeededHeight (exFixedBox h)) = h" "height (exFixedBox h) = 40" for h
    by (simp_all add: measure_NONE n exFixedBox_def exText_def)
  have ids: "textId (exFixedBox h) = ''2:2''" "textName (exFixedBox h) = ''Label''" for h
    by (simp_all add: exFixedBox_def exText_def)
  have small: "\<not> fst (measureNeededHeight (exFixedBox 40.3)) > height (exFixedBox 40.3) + 0.5"
    by (simp add: hm)
  have big: "fst (measureNeededHeight (exFixedBox 41)) > height (exFixedBox 41) + 0.5"
    by (simp add: hm)
  from fixed_box_check [where tn = "exFixedBox 40.3" and es = exScan and k = "''t0''"
      and pre = "[]" and post = "[]" and lang = exLanguage and fe = "[]", OF p om0 n] small
  have first: "fst (runQA [(''t0'', exFixedBox 40.3)] exScan exLanguage []) =
                 fst (runQA [] exScan exLanguage [])"
    by (simp add: exFixedBox_inside)
  from fixed_box_check [where tn = "exFixedBox 41" and es = exScan and k = "''t1''"
      and pre = "[(''t0'', exFixedBox 40.3)]" and post = "[]" and lang = exLanguage
      and fe = "[]", OF p om1 n] big
  have second:
    "issues (fst (runQA [(''t0'', exFixedBox 40.3), (''t1'', exFixedBox 41)] exScan exLanguage [])) =
       issues (fst (runQA [(''t0'', exFixedBox 40.3)] exScan exLanguage []))
       @ [\<lparr>issueSeverity = red, issueKind = text_overflow, issueNodeId = ''2:2'',
            issueNodeName = ''Label'', message = ''Overflow''\<rparr>]
       @ issues (fst (runQA [] exScan exLanguage []))"
    "''t1'' \<in> set (issueEntryIds
         (fst (runQA [(''t0'', exFixedBox 40.3), (''t1'', exFixedBox 41)] exScan exLanguage [])))"
    "status (fst (runQA [(''t0'', exFixedBox 40.3), (''t1'', exFixedBox 41)] exScan exLanguage []))
       = red"
    by (simp_all add: ids)
  from first second show ?thesis by (simp add: runQA_empty exLanguage_def)
qed


text \<open>
  Claim C9. A QA pass leaves the text-node map as it found it, so a second pass on the
  same map, entries, language and font errors yields the same report: the measurement
  of a fixed box restores the node's mode, width and height, that is, the whole node.
\<close>

theorem runQA_idempotent:
  "snd (runQA m es lang fe) = m
   \<and> fst (runQA (snd (runQA m es lang fe)) es lang fe) = fst (runQA m es lang fe)
   \<and> (\<forall>tn. textAutoResize tn = NONE \<longrightarrow>
         textAutoResize (snd (measureNeededHeight tn)) = NONE
         \<and> width (snd (measureNeededHeight tn)) = width tn
         \<and> height (snd (measureNeededHeight tn)) = height tn
         \<and> snd (measureNeededHeight tn) = tn)"
  by (simp add: runQA_nodes measure_NONE)

text \<open>
  Claim C3. Let a mapped unit \<open>(k, tn)\<close> of the text-node map have a parent and a
  baseline entry, wherever it stands in the map. If its mode is \<^verbatim>\<open>HEIGHT\<close> and the
  node's height minus the entry's height exceeds \<open>max (lineHeight * 0.8) 4\<close>, the report
  of \<open>runQA\<close> holds, between the issues of the units before and those of the units
  after, an amber text-overflow issue for the unit whose message is that of the line
  count \<open>max 1 (round (delta / lineHeight))\<close>: \<open>New line\<close> for the count 1, \<open>+N lines\<close>
  otherwise (followed by the issue of the container check, if that check fires); the
  unit's id is among the report's issue entry ids and the status is not green. If the
  difference does not exceed the threshold, and for every unit of mode
  \<^verbatim>\<open>WIDTH_AND_HEIGHT\<close>, the line-wrap check contributes nothing: the only issue the
  unit can have is that of the container check, and when that check is silent too the
  report is the one of the map without the unit.
\<close>

theorem line_wrap_check:
  assumes "parents tn \<noteq> []" and "buildOriginalMap es k = Some original"
  shows "(textAutoResize tn = HEIGHT
            \<and> height tn - entryHeight original > max (qaLineHeight original * 0.8) 4 \<longrightarrow>
          issues (fst (runQA (pre @ (k, tn) # post) es lang fe)) =
            issues (fst (runQA pre es lang []))
            @ [\<lparr>issueSeverity = amber, issueKind = text_overflow, issueNodeId = textId tn,
                 issueNodeName = textName tn,
                 message = lineMessage (extraLinesOf (height tn - entryHeight original)
                                          (qaLineHeight original))\<rparr>]
            @ (if overflows (checkParentOverflow tn) then [containerIssue tn] else [])
            @ issues (fst (runQA post es lang fe))
          \<and> k \<in> set (issueEntryIds (fst (runQA (pre @ (k, tn) # post) es lang fe)))
          \<and> status (fst (runQA (pre @ (k, tn) # post) es lang fe)) \<noteq> green)
    \<and> (qaLineHeight original \<noteq> 0 \<longrightarrow>
          extraLinesOf (height tn - entryHeight original) (qaLineHeight original) =
            enat (nat (max 1 (Math_round ((height tn - entryHeight original)
                                             / qaLineHeight original)))))
    \<and> (\<forall>n. lineMessage (enat n) =
              (if n = 1 then ''New line'' else ''+'' @ string_of_nat n @ '' lines''))
    \<and> ((textAutoResize tn = HEIGHT
            \<and> \<not> height tn - entryHeight original > max (qaLineHeight original * 0.8) 4)
         \<or> textAutoResize tn = WIDTH_AND_HEIGHT \<longrightarrow>
          issues (fst (runQA (pre @ (k, tn) # post) es lang fe)) =
            issues (fst (runQA pre es lang []))
            @ (if overflows (checkParentOverflow tn) then [containerIssue tn] else [])
            @ issues (fst (runQA post es lang fe))
          \<and> (\<not> overflows (checkParentOverflow tn) \<longrightarrow>
               fst (runQA (pre @ (k, tn) # post) es lang fe) = fst (runQA (pre @ post) es lang fe)))"
proof -
  let ?om = "buildOriginalMap es"
  let ?whole = "fst (runQA (pre @ (k, tn) # post) es lang fe)"
  let ?delta = "height tn - entryHeight original"
  let ?issue = "\<lparr>issueSeverity = amber, issueKind = text_overflow, issueNodeId = textId tn,
                 issueNodeName = textName tn,
                 message = lineMessage (extraLinesOf ?delta (qaLineHeight original))\<rparr>"
  let ?container = "if overflows (checkParentOverflow tn) then [containerIssue tn] else []"
  have wrapped: "issues ?whole = issues (fst (runQA pre es lang [])) @ [?issue] @ ?container
                   @ issues (fst (runQA post es lang fe))
          \<and> k \<in> set (issueEntryIds ?whole) \<and> status ?whole \<noteq> green"
    if grow: "textAutoResize tn = HEIGHT \<and> ?delta > max (qaLineHeight original * 0.8) 4"
  proof -
    have u: "qaUnit ?om k tn acc =
               (checkContainer k tn (pushIssue k ?issue acc), tn)" for acc
      using assms grow qaUnit_flowing [where tn = tn and om = ?om and k = k and acc = acc
          and original = original]
      by (simp add: checkLineWrap_def Let_def lineWrapIssue_def)
    have ui: "accIssues (fst (qaUnit ?om k tn emptyAcc)) = [?issue] @ ?container"
      by (simp add: u checkContainer_issues pushIssue_issues emptyAcc_def)
    have iss: "issues ?whole = issues (fst (runQA pre es lang [])) @ [?issue] @ ?container
                   @ issues (fst (runQA post es lang fe))"
      by (simp only: runQA_split_issues ui append_assoc)
    have "k \<in> set (accIds (fst (qaUnit ?om k tn (fst (qaLoop ?om pre emptyAcc)))))"
      by (simp add: u checkContainer_def pushIssue_ids)
    then have ids: "k \<in> set (issueEntryIds ?whole)"
      using runQA_split_ids [OF refl, of es k tn pre post lang fe] by blast
    have "?issue \<in> set (issues ?whole)" by (simp add: iss)
    then have "status ?whole \<noteq> green" by (rule runQA_status_not_green) simp
    with iss ids show ?thesis by blast
  qed
  have lines: "qaLineHeight original \<noteq> 0 \<longrightarrow>
          extraLinesOf ?delta (qaLineHeight original) =
            enat (nat (max 1 (Math_round (?delta / qaLineHeight original))))"
    by (simp add: extraLinesOf_def)
  have msg: "\<forall>n. lineMessage (enat n) =
              (if n = 1 then ''New line'' else ''+'' @ string_of_nat n @ '' lines'')"
    by (simp add: lineMessage_def)
  have quiet: "issues ?whole = issues (fst (runQA pre es lang [])) @ ?container
                   @ issues (fst (runQA post es lang fe))
          \<and> (\<not> overflows (checkParentOverflow tn) \<longrightarrow>
               ?whole = fst (runQA (pre @ post) es lang fe))"
    if calm: "(textAutoResize tn = HEIGHT \<and> \<not> ?delta > max (qaLineHeight original * 0.8) 4)
              \<or> textAutoResize tn = WIDTH_AND_HEIGHT"
  proof -
    have u: "qaUnit ?om k tn acc = (checkContainer k tn acc, tn)" for acc
      using assms calm qaUnit_flowing [where tn = tn and om = ?om and k = k and acc = acc
          and original = original]
      by (auto simp add: checkLineWrap_def Let_def)
    have ui: "accIssues (fst (qaUnit ?om k tn emptyAcc)) = ?container"
      by (simp add: u checkContainer_issues emptyAcc_def)
    have iss: "issues ?whole = issues (fst (runQA pre es lang [])) @ ?container
                   @ issues (fst (runQA post es lang fe))"
      by (simp only: runQA_split_issues ui)
    have "?whole = fst (runQA (pre @ post) es lang fe)"
      if "\<not> overflows (checkParentOverflow tn)"
    proof (rule runQA_skip_unit)
      fix acc
      show "fst (qaUnit ?om k tn acc) = acc" using that by (simp add: u checkContainer_def)
    qed
    with iss show ?thesis by blast
  qed
  from wrapped lines msg quiet show ?thesis by blast
qed

text \<open>
  The example of the claim (line height 20, original height 20, current height 41)
  in a pass over two units, the first of mode \<^verbatim>\<open>WIDTH_AND_HEIGHT\<close> and grown by two
  lines; a growth by two lines in mode \<^verbatim>\<open>HEIGHT\<close>; and a growth below the threshold.
\<close>

theorem line_wrap_check_witness:
  "issues (fst (runQA [(''t0'', exFlowing WIDTH_AND_HEIGHT 61), (''t1'', exFlowing HEIGHT 41)]
                  exScan exLanguage [])) =
     [\<lparr>issueSeverity = amber, issueKind = text_overflow, issueNodeId = ''2:2'',
       issueNodeName = ''Label'', message = ''New line''\<rparr>]
   \<and> ''t1'' \<in> set (issueEntryIds
         (fst (runQA [(''t0'', exFlowing WIDTH_AND_HEIGHT 61), (''t1'', exFlowing HEIGHT 41)]
                 exScan exLanguage [])))
   \<and> issues (fst (runQA [(''t0'', exFlowing HEIGHT 61)] exScan exLanguage [])) =
     [\<lparr>issueSeverity = amber, issueKind = text_overflow, issueNodeId = ''2:2'',
       issueNodeName = ''Label'', message = ''+2 lines''\<rparr>]
   \<and> fst (runQA [(''t0'', exFlowing HEIGHT 36)] exScan exLanguage []) =
       \<lparr>langCode = ''de'', langName = ''German'', status = green, issues = [],
        issueEntryIds = [], amberIssues = 0, redIssues = 0\<rparr>"
proof -
  have om0: "buildOriginalMap exScan ''t0'' = Some (exEntry 20 20)"
    by (simp add: buildOriginalMap_def exScan_def exEntry_def)
  have om1: "buildOriginalMap exScan ''t1''
               = Some ((exEntry 20 20)\<lparr>entryId := ''t1'', entryCharacters := ''Cancel''\<rparr>)"
    by (simp add: buildOriginalMap_def exScan_def exEntry_def)
  have p: "parents (exFlowing mode h) \<noteq> []" for mode h by (simp add: exFlowing_def)
  have lh: "qaLineHeight (exEntry 20 20) = 20" "entryHeight (exEntry 20 20) = 20"
    "qaLineHeight ((exEntry 20 20)\<lparr>entryId := ''t1'', entryCharacters := ''Cancel''\<rparr>) = 20"
    "entryHeight ((exEntry 20 20)\<lparr>entryId := ''t1'', entryCharacters := ''Cancel''\<rparr>) = 20"
    by (simp_all add: qaLineHeight_def exEntry_def)
  have f: "textAutoResize (exFlowing mode h) = mode" "height (exFlowing mode h) = h"
    "textId (exFlowing mode h) = ''2:2''" "textName (exFlowing mode h) = ''Label''"
    for mode h
    by (simp_all add: exFlowing_def exText_def)
  from line_wrap_check [where tn = "exFlowing WIDTH_AND_HEIGHT 61" and es = exScan
      and k = "''t0''" and pre = "[]" and post = "[]" and lang = exLanguage and fe = "[]",
      OF p om0]
  have both: "fst (runQA [(''t0'', exFlowing WIDTH_AND_HEIGHT 61)] exScan exLanguage []) =
                fst (runQA [] exScan exLanguage [])"
    by (simp add: f exFlowing_inside)
  from line_wrap_check [where tn = "exFlowing HEIGHT 41" and es = exScan
      and k = "''t1''" and pre = "[(''t0'', exFlowing WIDTH_AND_HEIGHT 61)]" and post = "[]"
      and lang = exLanguage and fe = "[]", OF p om1]
  have one:
    "issues (fst (runQA [(''t0'', exFlowing WIDTH_AND_HEIGHT 61), (''t1'', exFlowing HEIGHT 41)]
                  exScan exLanguage [])) =
       issues (fst (runQA [(''t0'', exFlowing WIDTH_AND_HEIGHT 61)] exScan exLanguage []))
       @ [\<lparr>issueSeverity = amber, issueKind = text_overflow, issueNodeId = ''2:2'',
            issueNodeName = ''Label'', message = ''New line''\<rparr>]
       @ issues (fst (runQA [] exScan exLanguage []))"
    "''t1'' \<in> set (issueEntryIds
         (fst (runQA [(''t0'', exFlowing WIDTH_AND_HEIGHT 61), (''t1'', exFlowing HEIGHT 41)]
                 exScan exLanguage [])))"
    by (simp_all add: lh f Math_round_def exFlowing_inside)
  from line_wrap_check [where tn = "exFlowing HEIGHT 61" and es = exScan
      and k = "''t0''" and pre = "[]" and post = "[]" and lang = exLanguage and fe = "[]",
      OF p om0]
  have two: "issues (fst (runQA [(''t0'', exFlowing HEIGHT 61)] exScan exLanguage [])) =
       issues (fst (runQA [] exScan exLanguage []))
       @ [\<lparr>issueSeverity = amber, issueKind = text_overflow, issueNodeId = ''2:2'',
            issueNodeName = ''Label'', message = ''+2 lines''\<rparr>]
       @ issues (fst (runQA [] exScan exLanguage []))"
    by (simp add: lh f Math_round_def exFlowing_inside string_of_nat_2)
  from line_wrap_check [where tn = "exFlowing HEIGHT 36" and es = exScan
      and k = "''t0''" and pre = "[]" and post = "[]" and lang = exLanguage and fe = "[]",
      OF p om0]
  have none: "fst (runQA [(''t0'', exFlowing HEIGHT 36)] exScan exLanguage []) =
                fst (runQA [] exScan exLanguage [])"
    by (simp add: lh f exFlowing_inside)
  from both one two none show ?thesis by (simp add: runQA_empty exLanguage_def)
qed


theorem runQA_idempotent_witness:
  "textAutoResize (exFixedBox 41) = NONE
   \<and> snd (measureNeededHeight (exFixedBox 41)) = exFixedBox 41
   \<and> fst (runQA (snd (runQA [(''t0'', exFixedBox 41)] [exEntry 40 20] exLanguage [''Label'']))
            [exEntry 40 20] exLanguage [''Label''])
      = fst (runQA [(''t0'', exFixedBox 41)] [exEntry 40 20] exLanguage [''Label''])"
  using runQA_idempotent [of "[(''t0'', exFixedBox 41)]" "[exEntry 40 20]" exLanguage "[''Label'']"]
  by (simp add: exFixedBox_def)

subsection \<open>The retry loop\<close>

lemma loop_exhausted:
  "\<not> int attempt \<le> maxRetries \<Longrightarrow>
   translateLoop network aborted es maxRetries attempt lastError =
     (\<lparr>translationSet = None, errorText = Some lastError\<rparr>, [])"
  by (subst translateLoop.simps) simp

lemma loop_401:
  assumes "int attempt \<le> maxRetries" "\<not> aborted attempt" "network attempt = HttpFailure 401 body"
  shows "translateLoop network aborted es maxRetries attempt lastError =
     (\<lparr>translationSet = None, errorText = Some ''Invalid API key (401).''\<rparr>,
      [CallOpenAI (systemPromptAt attempt)])"
  using assms by (subst translateLoop.simps) (simp add: callOpenAI_def errorOr_def Let_def)

lemma loop_429:
  assumes "int attempt \<le> maxRetries" "\<not> aborted attempt" "network attempt = HttpFailure 429 body"
  shows "translateLoop network aborted es maxRetries attempt lastError =
     (fst (translateLoop network aborted es maxRetries (attempt + 1)
             ''Rate limited (429). Wait and retry.''),
      CallOpenAI (systemPromptAt attempt) # Delay (2000 * (attempt + 1))
        # snd (translateLoop network aborted es maxRetries (attempt + 1)
             ''Rate limited (429). Wait and retry.''))"
  using assms by (subst translateLoop.simps) (simp add: callOpenAI_def errorOr_def Let_def)

lemma loop_retry_now:
  assumes "int attempt \<le> maxRetries" "\<not> aborted attempt"
    and "attemptError es (network attempt) = Some msg"
    and "responseStatus (callOpenAI (network attempt)) \<noteq> Some 401"
    and "responseStatus (callOpenAI (network attempt)) \<noteq> Some 429"
  shows "translateLoop network aborted es maxRetries attempt lastError =
     (fst (translateLoop network aborted es maxRetries (attempt + 1) msg),
      CallOpenAI (systemPromptAt attempt)
        # snd (translateLoop network aborted es maxRetries (attempt + 1) msg))"
  using assms
  by (subst translateLoop.simps)
     (auto simp: attemptError_def Let_def split: option.splits jsData.splits if_splits)

lemma attemptError_unparsable:
  "attemptError es ContentUnparsable = Some ''Failed to parse JSON from OpenAI response.''"
  by (simp add: attemptError_def callOpenAI_def errorOr_def)

lemma attemptError_no_ids:
  "snd (extractTranslations es props ([], 0)) = 0 \<Longrightarrow>
   attemptError es (ContentParsed (Object props)) = Some ''No valid translations in response.''"
  by (simp add: attemptError_def callOpenAI_def)

lemma loop_next_call:
  assumes "int (attempt + 1) \<le> maxRetries" "\<not> aborted (attempt + 1)"
  shows "\<exists>rest. snd (translateLoop network aborted es maxRetries (attempt + 1) msg) =
           CallOpenAI (SYSTEM_PROMPT @ strictSuffix) # rest"
  using assms
  by (subst translateLoop.simps)
     (auto simp: Let_def systemPromptAt_def split: option.splits jsData.splits)

lemma loop_all_fail:
  assumes "\<forall>a. attempt \<le> a \<and> int a \<le> maxRetries \<longrightarrow>
             \<not> aborted a \<and> attemptError es (network a) \<noteq> None
             \<and> responseStatus (callOpenAI (network a)) \<noteq> Some 401"
  shows "fst (translateLoop network aborted es maxRetries attempt lastError) =
     \<lparr>translationSet = None,
      errorText = Some (if int attempt \<le> maxRetries
                        then the (attemptError es (network (nat maxRetries)))
                        else lastError)\<rparr>"
  using assms
proof (induction "nat (maxRetries + 1 - int attempt)" arbitrary: attempt lastError)
  case 0
  then have "\<not> int attempt \<le> maxRetries" by simp
  then show ?case by (simp add: loop_exhausted)
next
  case (Suc n)
  then have le: "int attempt \<le> maxRetries" by simp
  with Suc.prems have na: "\<not> aborted attempt"
    and err: "attemptError es (network attempt) \<noteq> None"
    and n401: "responseStatus (callOpenAI (network attempt)) \<noteq> Some 401"
    by auto
  from err obtain msg where msg: "attemptError es (network attempt) = Some msg" by auto
  have n: "n = nat (maxRetries + 1 - int (attempt + 1))" using Suc.hyps(2) by simp
  have rest: "\<forall>a. attempt + 1 \<le> a \<and> int a \<le> maxRetries \<longrightarrow>
             \<not> aborted a \<and> attemptError es (network a) \<noteq> None
             \<and> responseStatus (callOpenAI (network a)) \<noteq> Some 401"
    using Suc.prems by auto
  have step: "fst (translateLoop network aborted es maxRetries attempt lastError) =
              fst (translateLoop network aborted es maxRetries (attempt + 1) msg)"
  proof (cases "responseStatus (callOpenAI (network attempt)) = Some 429")
    case True
    with le na msg show ?thesis
      by (subst translateLoop.simps)
         (auto simp: attemptError_def Let_def split: option.splits jsData.splits if_splits)
  next
    case False
    with le na msg n401 show ?thesis by (simp add: loop_retry_now)
  qed
  show ?case
  proof (cases "int (attempt + 1) \<le> maxRetries")
    case True
    with Suc.hyps(1) [OF n rest, of msg] step le show ?thesis by simp
  next
    case False
    with le have "attempt = nat maxRetries" by simp
    with Suc.hyps(1) [OF n rest, of msg] step le False msg show ?thesis by simp
  qed
qed

lemma loop_calls_bound:
  "length (filter isCall (snd (translateLoop network aborted es maxRetries attempt lastError)))
     \<le> nat (maxRetries + 1 - int attempt)"
proof (induction "nat (maxRetries + 1 - int attempt)" arbitrary: attempt lastError)
  case 0
  then have "\<not> int attempt \<le> maxRetries" by simp
  then show ?case by (simp add: loop_exhausted)
next
  case (Suc n)
  have n: "n = nat (maxRetries + 1 - int (attempt + 1))" using Suc.hyps(2) by simp
  have ih: "length (filter isCall (snd (translateLoop network aborted es maxRetries (Suc attempt) e)))
     \<le> n" for e
    using Suc.hyps(1) [OF n, of e] n by simp
  show ?case
    unfolding Suc.hyps(2) [symmetric]
    by (subst translateLoop.simps)
       (auto simp: Let_def le_SucI ih split: option.splits jsData.splits)
qed

lemma attemptError_not_object:
  "attemptError es (ContentParsed NotAnObject) = Some ''Invalid response format from OpenAI.''"
  by (simp add: attemptError_def callOpenAI_def)

text \<open>
  Claim C4. At an attempt within the budget and not cancelled: a 401 answer ends the
  loop at once with its error, whatever budget remains; a 429 answer is followed by a
  wait of \<open>2000 * (attempt + 1)\<close> ms before the loop goes on; content that does not
  parse, is not an object, or gives no entry a string makes the loop go on with no
  wait, and the next call, if there is one, has the strict suffix appended to the
  system prompt. When every attempt of the budget fails (none with 401), the result
  has no translations and carries the error of the last attempt. A run makes at most
  \<open>maxRetries + 1\<close> calls.
\<close>

theorem translateBatch_retry_law:
  assumes "int attempt \<le> maxRetries" and "\<not> aborted attempt"
  shows
   "(\<forall>body. network attempt = HttpFailure 401 body \<longrightarrow>
       translateLoop network aborted es maxRetries attempt lastError =
         (\<lparr>translationSet = None, errorText = Some ''Invalid API key (401).''\<rparr>,
          [CallOpenAI (systemPromptAt attempt)]))
    \<and> (\<forall>body. network attempt = HttpFailure 429 body \<longrightarrow>
       translateLoop network aborted es maxRetries attempt lastError =
         (fst (translateLoop network aborted es maxRetries (attempt + 1)
                 ''Rate limited (429). Wait and retry.''),
          CallOpenAI (systemPromptAt attempt) # Delay (2000 * (attempt + 1))
            # snd (translateLoop network aborted es maxRetries (attempt + 1)
                 ''Rate limited (429). Wait and retry.'')))
    \<and> (network attempt = ContentUnparsable
          \<or> network attempt = ContentParsed NotAnObject
          \<or> (\<exists>props. network attempt = ContentParsed (Object props)
                \<and> snd (extractTranslations es props ([], 0)) = 0) \<longrightarrow>
        (\<exists>msg.
           translateLoop network aborted es maxRetries attempt lastError =
             (fst (translateLoop network aborted es maxRetries (attempt + 1) msg),
              CallOpenAI (systemPromptAt attempt)
                # snd (translateLoop network aborted es maxRetries (attempt + 1) msg))
           \<and> (int (attempt + 1) \<le> maxRetries \<and> \<not> aborted (attempt + 1) \<longrightarrow>
                (\<exists>rest. snd (translateLoop network aborted es maxRetries (attempt + 1) msg) =
                   CallOpenAI (SYSTEM_PROMPT @ strictSuffix) # rest))))
    \<and> ((\<forall>a. int a \<le> maxRetries \<longrightarrow>
             \<not> aborted a \<and> attemptError es (network a) \<noteq> None
             \<and> responseStatus (callOpenAI (network a)) \<noteq> Some 401) \<longrightarrow>
        (\<exists>msg. attemptError es (network (nat maxRetries)) = Some msg
           \<and> fst (translateBatch network aborted es maxRetries) =
               \<lparr>translationSet = None, errorText = Some msg\<rparr>))
    \<and> length (filter isCall (snd (translateBatch network aborted es maxRetries)))
          \<le> nat (maxRetries + 1)"
proof (intro conjI allI impI)
  fix body
  assume "network attempt = HttpFailure 401 body"
  with assms show "translateLoop network aborted es maxRetries attempt lastError =
         (\<lparr>translationSet = None, errorText = Some ''Invalid API key (401).''\<rparr>,
          [CallOpenAI (systemPromptAt attempt)])"
    by (rule loop_401)
next
  fix body
  assume "network attempt = HttpFailure 429 body"
  with assms show "translateLoop network aborted es maxRetries attempt lastError =
         (fst (translateLoop network aborted es maxRetries (attempt + 1)
                 ''Rate limited (429). Wait and retry.''),
          CallOpenAI (systemPromptAt attempt) # Delay (2000 * (attempt + 1))
            # snd (translateLoop network aborted es maxRetries (attempt + 1)
                 ''Rate limited (429). Wait and retry.''))"
    by (rule loop_429)
next
  assume bad: "network attempt = ContentUnparsable
          \<or> network attempt = ContentParsed NotAnObject
          \<or> (\<exists>props. network attempt = ContentParsed (Object props)
                \<and> snd (extractTranslations es props ([], 0)) = 0)"
  then obtain msg where msg: "attemptError es (network attempt) = Some msg"
    by (auto simp: attemptError_unparsable attemptError_no_ids attemptError_not_object)
  from bad have st: "responseStatus (callOpenAI (network attempt)) = None"
    by (auto simp: callOpenAI_def)
  have step: "translateLoop network aborted es maxRetries attempt lastError =
             (fst (translateLoop network aborted es maxRetries (attempt + 1) msg),
              CallOpenAI (systemPromptAt attempt)
                # snd (translateLoop network aborted es maxRetries (attempt + 1) msg))"
    using assms msg st by (simp add: loop_retry_now)
  have nxt: "int (attempt + 1) \<le> maxRetries \<and> \<not> aborted (attempt + 1) \<longrightarrow>
                (\<exists>rest. snd (translateLoop network aborted es maxRetries (attempt + 1) msg) =
                   CallOpenAI (SYSTEM_PROMPT @ strictSuffix) # rest)"
    using loop_next_call [of attempt maxRetries aborted network es msg] by blast
  from step nxt show "\<exists>msg.
           translateLoop network aborted es maxRetries attempt lastError =
             (fst (translateLoop network aborted es maxRetries (attempt + 1) msg),
              CallOpenAI (systemPromptAt attempt)
                # snd (translateLoop network aborted es maxRetries (attempt + 1) msg))
           \<and> (int (attempt + 1) \<le> maxRetries \<and> \<not> aborted (attempt + 1) \<longrightarrow>
                (\<exists>rest. snd (translateLoop network aborted es maxRetries (attempt + 1) msg) =
                   CallOpenAI (SYSTEM_PROMPT @ strictSuffix) # rest))"
    by blast
next
  assume all: "\<forall>a. int a \<le> maxRetries \<longrightarrow>
             \<not> aborted a \<and> attemptError es (network a) \<noteq> None
             \<and> responseStatus (callOpenAI (network a)) \<noteq> Some 401"
  from assms(1) have nn: "0 \<le> maxRetries" by simp
  then have "int (nat maxRetries) \<le> maxRetries" by simp
  with all obtain msg where msg: "attemptError es (network (nat maxRetries)) = Some msg"
    by blast
  from all have "\<forall>a. 0 \<le> a \<and> int a \<le> maxRetries \<longrightarrow>
             \<not> aborted a \<and> attemptError es (network a) \<noteq> None
             \<and> responseStatus (callOpenAI (network a)) \<noteq> Some 401"
    by blast
  from loop_all_fail [OF this, of "[]"] nn msg
  have "fst (translateBatch network aborted es maxRetries) =
               \<lparr>translationSet = None, errorText = Some msg\<rparr>"
    by (simp add: translateBatch_def)
  with msg show "\<exists>msg. attemptError es (network (nat maxRetries)) = Some msg
           \<and> fst (translateBatch network aborted es maxRetries) =
               \<lparr>translationSet = None, errorText = Some msg\<rparr>"
    by blast
next
  show "length (filter isCall (snd (translateBatch network aborted es maxRetries)))
          \<le> nat (maxRetries + 1)"
    using loop_calls_bound [of network aborted es maxRetries 0 "[]"]
    by (simp add: translateBatch_def)
qed

text \<open>
  With the default budget of 2: a rate limit, then unparsable content, then an invalid
  key; and a rate limit on all three attempts.
\<close>

theorem translateBatch_retry_law_witness:
  "translateBatch exNetwork neverAborted [exEntry 20 20] 2 =
     (\<lparr>translationSet = None, errorText = Some ''Invalid API key (401).''\<rparr>,
      [CallOpenAI SYSTEM_PROMPT, Delay 2000,
       CallOpenAI (SYSTEM_PROMPT @ strictSuffix),
       CallOpenAI (SYSTEM_PROMPT @ strictSuffix)])
   \<and> fst (translateBatch exRateLimited neverAborted [exEntry 20 20] 2) =
       \<lparr>translationSet = None, errorText = Some ''Rate limited (429). Wait and retry.''\<rparr>"
proof -
  let ?es = "[exEntry 20 20]"
  note law = translateBatch_retry_law [where network = exNetwork and aborted = neverAborted
      and es = ?es and maxRetries = 2]
  have a2: "translateLoop exNetwork neverAborted ?es 2 2 e =
     (\<lparr>translationSet = None, errorText = Some ''Invalid API key (401).''\<rparr>,
      [CallOpenAI (SYSTEM_PROMPT @ strictSuffix)])" for e
    using law [where attempt = 2 and lastError = e]
    by (simp add: exNetwork_def neverAborted_def systemPromptAt_def)
  have a1: "translateLoop exNetwork neverAborted ?es 2 1 e =
     (\<lparr>translationSet = None, errorText = Some ''Invalid API key (401).''\<rparr>,
      [CallOpenAI (SYSTEM_PROMPT @ strictSuffix), CallOpenAI (SYSTEM_PROMPT @ strictSuffix)])" for e
  proof -
    have "exNetwork 1 = ContentUnparsable" by (simp add: exNetwork_def)
    with law [where attempt = 1 and lastError = e]
    obtain msg where "translateLoop exNetwork neverAborted ?es 2 1 e =
             (fst (translateLoop exNetwork neverAborted ?es 2 (1 + 1) msg),
              CallOpenAI (systemPromptAt 1)
                # snd (translateLoop exNetwork neverAborted ?es 2 (1 + 1) msg))"
      by (auto simp: neverAborted_def)
    with a2 [of msg] show ?thesis by (simp add: systemPromptAt_def numeral_2_eq_2)
  qed
  have a0: "translateLoop exNetwork neverAborted ?es 2 0 [] =
     (\<lparr>translationSet = None, errorText = Some ''Invalid API key (401).''\<rparr>,
      [CallOpenAI SYSTEM_PROMPT, Delay 2000,
       CallOpenAI (SYSTEM_PROMPT @ strictSuffix), CallOpenAI (SYSTEM_PROMPT @ strictSuffix)])"
    using law [where attempt = 0 and lastError = "[]"]
      a1 [of "''Rate limited (429). Wait and retry.''"]
    by (simp add: exNetwork_def neverAborted_def systemPromptAt_def)
  have limited: "\<forall>a. int a \<le> 2 \<longrightarrow>
             \<not> neverAborted a \<and> attemptError ?es (exRateLimited a) \<noteq> None
             \<and> responseStatus (callOpenAI (exRateLimited a)) \<noteq> Some 401"
    by (simp add: neverAborted_def exRateLimited_def attemptError_def callOpenAI_def)
  have b: "fst (translateBatch exRateLimited neverAborted ?es 2) =
       \<lparr>translationSet = None, errorText = Some ''Rate limited (429). Wait and retry.''\<rparr>"
    using translateBatch_retry_law [where network = exRateLimited and aborted = neverAborted
        and es = ?es and maxRetries = 2 and attempt = 0 and lastError = "[]"] limited
    by (auto simp: neverAborted_def exRateLimited_def attemptError_def callOpenAI_def
        errorOr_def)
  from a0 b show ?thesis by (simp add: translateBatch_def)
qed

subsection \<open>Merging a rewrite\<close>

lemma map_of_spread:
  assumes "distinct (map fst b)"
  shows "map_of (spread a b) k = (case map_of b k of Some v \<Rightarrow> Some v | None \<Rightarrow> map_of a k)"
proof -
  have "map_of (fold (\<lambda>p m. AList.update (fst p) (snd p) m) b a) k =
        (case map_of b k of Some v \<Rightarrow> Some v | None \<Rightarrow> map_of a k)"
    using assms
  proof (induction b arbitrary: a)
    case Nil
    show ?case by simp
  next
    case (Cons p b)
    obtain k' v' where p: "p = (k', v')" by (cases p)
    from Cons.prems have d: "distinct (map fst b)" and fresh: "k' \<notin> fst ` set b"
      by (auto simp: p)
    from fresh have none: "map_of b k' = None" by (simp add: map_of_eq_None_iff)
    show ?case
      using Cons.IH [OF d, of "AList.update k' v' a"] none
      by (auto simp: p update_conv' split: option.splits)
  qed
  then show ?thesis by (simp add: spread_def)
qed

lemma keys_spread: "fst ` set (spread a b) = fst ` set a \<union> fst ` set b"
proof -
  have "fst ` set (fold (\<lambda>p m. AList.update (fst p) (snd p) m) b a) = fst ` set a \<union> fst ` set b"
    for a
    by (induction b arbitrary: a) (auto simp: dom_update)
  then show ?thesis by (simp add: spread_def)
qed

lemma extractShortened_distinct:
  "distinct (map fst r) \<Longrightarrow> distinct (map fst (extractShortened es props r))"
  by (induction es props r rule: extractShortened.induct)
     (auto simp: distinct_update split: option.splits jsValue.splits)

lemma extractShortened_keys:
  "fst ` set (extractShortened es props r) \<subseteq> fst ` set r \<union> shortenId ` set es"
proof (induction es arbitrary: r)
  case Nil
  show ?case by simp
next
  case (Cons entry rest)
  have skip: "fst ` set (extractShortened rest props r)
                \<subseteq> fst ` set r \<union> shortenId ` set (entry # rest)"
    using Cons.IH [of r] by auto
  have take: "fst ` set (extractShortened rest props (AList.update (shortenId entry) str r))
                \<subseteq> fst ` set r \<union> shortenId ` set (entry # rest)" for str
  proof -
    have "fst ` set (AList.update (shortenId entry) str r) = {shortenId entry} \<union> fst ` set r"
      by (rule dom_update)
    with Cons.IH [of "AList.update (shortenId entry) str r"] show ?thesis by auto
  qed
  show ?case
  proof (cases "map_of props (shortenId entry)")
    case None
    then show ?thesis using skip by simp
  next
    case (Some val)
    then show ?thesis using skip take by (cases val) simp_all
  qed
qed

lemma shortenTranslations_distinct:
  "translationSet (shortenTranslations es outcome) = Some tr \<Longrightarrow> distinct (map fst tr)"
  by (auto simp: shortenTranslations_def Let_def extractShortened_distinct
      split: if_splits option.splits jsData.splits)

lemma store_updateLangProgress:
  "translationsStore (updateLangProgress lc st d rep ui) = translationsStore ui"
  by (simp add: updateLangProgress_def split: option.splits)

lemma trigger_cases:
  assumes "triggerRewriteShorter ui lc outcome = (ui', msgs)"
  shows "(msgs = [] \<and> ui' = ui)
       \<or> (\<exists>e. msgs = [Notify e True] \<and> translationsStore ui' = translationsStore ui)
       \<or> (\<exists>stored es shortened.
             map_of (translationsStore ui) lc = Some stored
             \<and> translationSet (shortenTranslations es outcome) = Some shortened
             \<and> msgs = [ApplyRewrites lc shortened]
             \<and> translationsStore ui' =
                 AList.update lc (spread stored shortened) (translationsStore ui))"
  using assms
  unfolding triggerRewriteShorter_def Let_def
  by (auto simp: store_updateLangProgress split: option.splits if_splits)

text \<open>
  Claim C7. When a rewrite-shorter pass reaches the merge (it sends \<^verbatim>\<open>apply-rewrites\<close>
  with the shorten result), the stored set of the language becomes the old set with
  the shorten result written over it: an id of the shorten result has its new string,
  every other id keeps its stored translation, and no stored id is dropped. A pass
  that does not reach the merge leaves the store as it was.
\<close>

theorem rewrite_merge_keeps_entries:
  assumes "map_of (translationsStore ui) lc = Some stored"
    and "triggerRewriteShorter ui lc outcome = (ui', msgs)"
  shows "(\<forall>shortened. ApplyRewrites lc shortened \<in> set msgs \<longrightarrow>
            map_of (translationsStore ui') lc = Some (spread stored shortened)
            \<and> (\<forall>k. map_of (spread stored shortened) k =
                      (case map_of shortened k of Some v \<Rightarrow> Some v | None \<Rightarrow> map_of stored k))
            \<and> (\<forall>k v. map_of stored k = Some v \<and> map_of shortened k = None \<longrightarrow>
                      map_of (spread stored shortened) k = Some v)
            \<and> fst ` set stored \<subseteq> fst ` set (spread stored shortened))
       \<and> ((\<forall>shortened. ApplyRewrites lc shortened \<notin> set msgs) \<longrightarrow>
            translationsStore ui' = translationsStore ui)"
proof (rule conjI; (rule allI)?; rule impI)
  fix shortened
  assume sent: "ApplyRewrites lc shortened \<in> set msgs"
  from trigger_cases [OF assms(2)] sent assms(1)
  obtain es where res: "translationSet (shortenTranslations es outcome) = Some shortened"
    and store: "translationsStore ui' =
                 AList.update lc (spread stored shortened) (translationsStore ui)"
    by auto
  from res have d: "distinct (map fst shortened)" by (rule shortenTranslations_distinct)
  have look: "map_of (spread stored shortened) k =
                (case map_of shortened k of Some v \<Rightarrow> Some v | None \<Rightarrow> map_of stored k)" for k
    using d by (simp add: map_of_spread)
  show "map_of (translationsStore ui') lc = Some (spread stored shortened)
            \<and> (\<forall>k. map_of (spread stored shortened) k =
                      (case map_of shortened k of Some v \<Rightarrow> Some v | None \<Rightarrow> map_of stored k))
            \<and> (\<forall>k v. map_of stored k = Some v \<and> map_of shortened k = None \<longrightarrow>
                      map_of (spread stored shortened) k = Some v)
            \<and> fst ` set stored \<subseteq> fst ` set (spread stored shortened)"
    using store look by (auto simp: update_conv' keys_spread)
next
  assume "\<forall>shortened. ApplyRewrites lc shortened \<notin> set msgs"
  with trigger_cases [OF assms(2)] show "translationsStore ui' = translationsStore ui"
    by auto
qed

text \<open>
  The example of the claim: the stored set has \<open>t0\<close> and \<open>t1\<close>, the shorten result has
  \<open>t0\<close> only.
\<close>

theorem rewrite_merge_keeps_entries_witness:
  "map_of (translationsStore exUi) ''de'' = Some [(''t0'', ''Hallo zusammen''), (''t1'', ''Abbrechen'')]
   \<and> snd (triggerRewriteShorter exUi ''de'' exShortened) = [ApplyRewrites ''de'' [(''t0'', ''Hallo'')]]
   \<and> map_of (translationsStore (fst (triggerRewriteShorter exUi ''de'' exShortened))) ''de''
        = Some [(''t0'', ''Hallo''), (''t1'', ''Abbrechen'')]"
proof -
  let ?r = "triggerRewriteShorter exUi ''de'' exShortened"
  let ?stored = "[(''t0'', ''Hallo zusammen''), (''t1'', ''Abbrechen'')]"
  have h1: "map_of (translationsStore exUi) ''de'' = Some ?stored"
    by (simp add: exUi_def)
  have h2: "?r = (fst ?r, snd ?r)" by simp
  have sent: "snd ?r = [ApplyRewrites ''de'' [(''t0'', ''Hallo'')]]"
    by (simp add: triggerRewriteShorter_def exUi_def exReport_def exScan_def exEntry_def
        exShortened_def shortenTranslations_def callOpenAI_def truthy_def Let_def
        updateLangProgress_def setAdd_def)
  from rewrite_merge_keeps_entries [OF h1 h2] sent
  have "map_of (translationsStore (fst ?r)) ''de'' = Some (spread ?stored [(''t0'', ''Hallo'')])"
    by simp
  then have "map_of (translationsStore (fst ?r)) ''de'' = Some [(''t0'', ''Hallo''), (''t1'', ''Abbrechen'')]"
    by (simp add: spread_def)
  with h1 sent show ?thesis by simp
qed

subsection \<open>Cancellation\<close>




lemma flagAfter_append: "flagAfter c (q @ r) = flagAfter (flagAfter c q) r"
  by (induction c q rule: flagAfter.induct) simp_all

lemma flagAfter_single: "flagAfter c (m # rest) = flagAfter (flagAfter c [m]) rest"
  by (cases m) simp_all

lemma resultsAfterStart_append:
  "resultsAfterStart c (q @ r) =
     (resultsAfterStart c q \<and> resultsAfterStart (flagAfter c q) r)"
proof (induction q arbitrary: c)
  case Nil
  show ?case by simp
next
  case (Cons m q)
  show ?case using Cons.IH [of "flagAfter c [m]"] flagAfter_single [of c m q] by auto
qed






lemma ordered_result:
  assumes "ordered s" "snd r = [m]" "isResult m" "generating (uiModule s)"
  shows "ordered (posted r s)"
  using assms
  by (cases m) (simp_all add: ordered_def posted_def resultsAfterStart_append flagAfter_append)





























subsection \<open>The states of a rewrite pass\<close>

lemma rewriting_update:
  "rewritingLangs (updateLangProgress lc st d rep ui) = rewritingLangs ui"
  by (simp add: updateLangProgress_def split: option.splits)

lemma trigger_started:
  assumes "triggerRewriteShorter ui lc outcome = (ui1, [ApplyRewrites lc shortened])"
  shows "uiStatus ui1 lc = Some Applying \<and> lc \<in> set (rewritingLangs ui1)"
  using assms
  unfolding triggerRewriteShorter_def Let_def
  by (auto simp: uiStatus_def updateLangProgress_def update_conv' setAdd_def
      split: option.splits if_splits)

lemma handleProgress_rewriting:
  assumes "lc \<in> set (rewritingLangs ui)" "uiStatus ui lc = Some s0"
  shows "uiStatus (uiHandleProgress ui
            \<lparr>progressLangCode = lc, progressLangName = nm, progressStatus = s, detail = d,
             progressReport = rep\<rparr>) lc = Some s"
  using assms
  by (auto simp: uiHandleProgress_def Let_def uiStatus_def updateLangProgress_def update_conv'
      split: option.splits)

lemma handleProgress_report:
  assumes "lc \<in> set (rewritingLangs ui)" "uiStatus ui lc = Some s0"
  shows "uiReport (uiHandleProgress ui
            \<lparr>progressLangCode = lc, progressLangName = nm, progressStatus = s, detail = d,
             progressReport = Some rep\<rparr>) lc = Some rep"
  using assms
  by (auto simp: uiHandleProgress_def Let_def uiStatus_def uiReport_def updateLangProgress_def
      update_conv' split: option.splits)

lemma handleProgress_keeps_rewriting:
  assumes "lc \<in> set (rewritingLangs ui)"
  shows "lc \<in> set (rewritingLangs (uiHandleProgress ui
            \<lparr>progressLangCode = lc, progressLangName = nm, progressStatus = Applying, detail = d,
             progressReport = rep\<rparr>))"
  using assms
  by (simp add: uiHandleProgress_def Let_def rewriting_update)

text \<open>
  Claim C6, as stated, fails: the \<^verbatim>\<open>apply-rewrites\<close> handler emits a progress event for
  \<open>applying\<close> and one for \<open>done\<close>, and none for \<open>qa\<close>.
\<close>

theorem rewrite_pass_no_qa_event_counterexample:
  "uiStatus exUi ''de'' = Some Done
   \<and> snd (triggerRewriteShorter exUi ''de'' exShortened) = [ApplyRewrites ''de'' [(''t0'', ''Hallo'')]]
   \<and> map statusOf (snd (handleApplyRewrites exHost exController ''de'' [(''t0'', ''Hallo'')]))
       = [Some Applying, Some Done]
   \<and> Some Qa \<notin> set (map statusOf
                        (snd (handleApplyRewrites exHost exController ''de'' [(''t0'', ''Hallo'')])))"
proof -
  have s0: "uiStatus exUi ''de'' = Some Done" by (simp add: uiStatus_def exUi_def)
  have sent: "snd (triggerRewriteShorter exUi ''de'' exShortened)
                = [ApplyRewrites ''de'' [(''t0'', ''Hallo'')]]"
    by (simp add: triggerRewriteShorter_def exUi_def exReport_def exScan_def exEntry_def
        exShortened_def shortenTranslations_def callOpenAI_def truthy_def Let_def
        updateLangProgress_def setAdd_def)
  have st: "map statusOf (snd (handleApplyRewrites exHost exController ''de'' [(''t0'', ''Hallo'')]))
       = [Some Applying, Some Done]"
    by (simp add: handleApplyRewrites_def exController_def Let_def progress_def)
  from s0 sent st show ?thesis by simp
qed

text \<open>
  Claim C6, amended. A rewrite-shorter pass that reaches the controller (the shorten
  request succeeded, and the language has a clone record) takes the language through
  \<open>done\<close>, \<open>applying\<close>, \<open>done\<close>: the UI sets \<open>applying\<close> when it starts the pass, the
  controller emits exactly two progress events, \<open>applying\<close> and then \<open>done\<close>, and the
  \<open>done\<close> event carries the report of a QA pass over the text nodes as the rewrite left
  them, which the UI then shows. The QA pass runs while the language is \<open>applying\<close>.
\<close>

theorem rewrite_pass_states:
  assumes "map_of (cloneMap st) lc = Some entry" and "map_of (languageMap st) lc = Some lang"
    and "triggerRewriteShorter ui lc outcome = (ui1, [ApplyRewrites lc shortened])"
  shows "\<exists>report p1 p2.
           report = fst (runQA (appliedMap (applyTranslations h (snd entry) shortened lang
                                   (ctlSettings st)))
                           (originalEntries st) lang
                           (fontErrors (applyTranslations h (snd entry) shortened lang
                                   (ctlSettings st))))
         \<and> snd (handleApplyRewrites h st lc shortened) = [LanguageProgress p1, LanguageProgress p2]
         \<and> progressStatus p1 = Applying \<and> progressLangCode p1 = lc
         \<and> progressStatus p2 = Done \<and> progressLangCode p2 = lc
         \<and> progressReport p2 = Some report
         \<and> uiStatus ui1 lc = Some Applying
         \<and> uiStatus (uiHandleProgress ui1 p1) lc = Some Applying
         \<and> uiStatus (uiHandleProgress (uiHandleProgress ui1 p1) p2) lc = Some Done
         \<and> uiReport (uiHandleProgress (uiHandleProgress ui1 p1) p2) lc = Some report"
proof -
  let ?a = "applyTranslations h (snd entry) shortened lang (ctlSettings st)"
  let ?report = "fst (runQA (appliedMap ?a) (originalEntries st) lang (fontErrors ?a))"
  let ?p1 = "\<lparr>progressLangCode = lc, progressLangName = name lang, progressStatus = Applying,
              detail = None, progressReport = None\<rparr>"
  let ?p2 = "\<lparr>progressLangCode = lc, progressLangName = name lang, progressStatus = Done,
              detail = None, progressReport = Some ?report\<rparr>"
  have msgs: "snd (handleApplyRewrites h st lc shortened) = [LanguageProgress ?p1, LanguageProgress ?p2]"
    using assms(1,2) by (simp add: handleApplyRewrites_def Let_def progress_def)
  from trigger_started [OF assms(3)]
  have s1: "uiStatus ui1 lc = Some Applying" and r1: "lc \<in> set (rewritingLangs ui1)"
    by simp_all
  have s2: "uiStatus (uiHandleProgress ui1 ?p1) lc = Some Applying"
    by (rule handleProgress_rewriting [OF r1 s1])
  have r2: "lc \<in> set (rewritingLangs (uiHandleProgress ui1 ?p1))"
    by (rule handleProgress_keeps_rewriting [OF r1])
  have s3: "uiStatus (uiHandleProgress (uiHandleProgress ui1 ?p1) ?p2) lc = Some Done"
    by (rule handleProgress_rewriting [OF r2 s2])
  have s4: "uiReport (uiHandleProgress (uiHandleProgress ui1 ?p1) ?p2) lc = Some ?report"
    by (rule handleProgress_report [OF r2 s2])
  show ?thesis
    using msgs s1 s2 s3 s4
    by (intro exI [of _ ?report] exI [of _ ?p1] exI [of _ ?p2]) simp
qed

theorem rewrite_pass_states_witness:
  "uiStatus exUi ''de'' = Some Done
   \<and> snd (triggerRewriteShorter exUi ''de'' exShortened) = [ApplyRewrites ''de'' [(''t0'', ''Hallo'')]]
   \<and> uiStatus (fst (triggerRewriteShorter exUi ''de'' exShortened)) ''de'' = Some Applying
   \<and> (\<exists>p1 p2.
         snd (handleApplyRewrites exHost exController ''de'' [(''t0'', ''Hallo'')])
           = [LanguageProgress p1, LanguageProgress p2]
         \<and> progressStatus p1 = Applying \<and> progressStatus p2 = Done
         \<and> progressReport p2 \<noteq> None
         \<and> uiStatus (uiHandleProgress
              (uiHandleProgress (fst (triggerRewriteShorter exUi ''de'' exShortened)) p1) p2) ''de''
             = Some Done)"
proof -
  let ?r = "triggerRewriteShorter exUi ''de'' exShortened"
  have s0: "uiStatus exUi ''de'' = Some Done" by (simp add: uiStatus_def exUi_def)
  have h1: "map_of (cloneMap exController) ''de'' = Some (exClone2, [(''t0'', exFlowing HEIGHT 20)])"
    by (simp add: exController_def)
  have h2: "map_of (languageMap exController) ''de'' = Some exLanguage"
    by (simp add: exController_def)
  have sent: "snd ?r = [ApplyRewrites ''de'' [(''t0'', ''Hallo'')]]"
    by (simp add: triggerRewriteShorter_def exUi_def exReport_def exScan_def exEntry_def
        exShortened_def shortenTranslations_def callOpenAI_def truthy_def Let_def
        updateLangProgress_def setAdd_def)
  then have h3: "?r = (fst ?r, [ApplyRewrites ''de'' [(''t0'', ''Hallo'')]])"
    by (metis prod.collapse)
  from rewrite_pass_states [OF h1 h2 h3, of exHost]
  obtain report p1 p2 where
    "snd (handleApplyRewrites exHost exController ''de'' [(''t0'', ''Hallo'')])
       = [LanguageProgress p1, LanguageProgress p2]"
    "progressStatus p1 = Applying" "progressStatus p2 = Done" "progressReport p2 = Some report"
    "uiStatus (fst ?r) ''de'' = Some Applying"
    "uiStatus (uiHandleProgress (uiHandleProgress (fst ?r) p1) p2) ''de'' = Some Done"
    by blast
  with s0 sent show ?thesis by auto
qed

end
